theory Spec2Isabelle
  imports Main "HOL-Library.Sublist" "HOL-Library.AList"
begin

section \<open>Strings, paths and templates\<close>

text \<open>
  The orchestrator of \<^verbatim>\<open>aeqwabun/synspec/synspec.py\<close> works on path strings
  (\<^verbatim>\<open>pathlib.Path\<close>) and on templates filled in by \<^verbatim>\<open>str.format\<close>.
  A path string is a \<open>string\<close>; a location in the file system is the list of its
  components below the root (\<open>[]\<close> is the root itself).
\<close>

type_synonym path = "string list"

fun split_on :: "char \<Rightarrow> string \<Rightarrow> string list" where
  "split_on d [] = [[]]"
| "split_on d (c # cs) =
     (if c = d then [] # split_on d cs
      else (case split_on d cs of [] \<Rightarrow> [[c]] | r # rs \<Rightarrow> (c # r) # rs))"

definition comps :: "string \<Rightarrow> string list" where
  "comps s = split_on (CHR ''/'') s"

definition is_absolute :: "string \<Rightarrow> bool" where
  "is_absolute s = (case s of [] \<Rightarrow> False | c # _ \<Rightarrow> c = CHR ''/'')"

text \<open>
  Walking a list of components from a base location: an empty component and \<open>.\<close>
  stay where they are, \<open>..\<close> goes up (the root is its own parent). Interior components are taken
  lexically: a symbolic link in the middle of a path is not traversed by the model.
\<close>

fun norm :: "path \<Rightarrow> string list \<Rightarrow> path" where
  "norm base [] = base"
| "norm base (c # cs) =
     (if c = [] \<or> c = ''.'' then norm base cs
      else if c = ''..'' then norm (butlast base) cs
      else norm (base @ [c]) cs)"

text \<open>\<^verbatim>\<open>base / s\<close> for an absolute \<open>base\<close>: an absolute \<open>s\<close> replaces the base.\<close>

definition pjoin :: "path \<Rightarrow> string \<Rightarrow> path" where
  "pjoin base s = (if is_absolute s then norm [] (comps s) else norm base (comps s))"

text \<open>\<^verbatim>\<open>str(p)\<close> of an absolute path.\<close>

definition path_str :: "path \<Rightarrow> string" where
  "path_str p = (if p = [] then ''/'' else concat (map (\<lambda>c. CHR ''/'' # c) p))"

text \<open>\<^verbatim>\<open>p.name\<close>: the last component, empty for the root.\<close>

definition path_name :: "path \<Rightarrow> string" where
  "path_name p = (if p = [] then [] else last p)"

text \<open>
  \<^verbatim>\<open>str(Path(x)).split("/", maxsplit=1)[0]\<close> for a relative \<open>x\<close>:
  \<^verbatim>\<open>Path\<close> drops empty and \<open>.\<close> components and prints the empty path as \<open>.\<close>.
\<close>

definition first_segment :: "string \<Rightarrow> string" where
  "first_segment x =
     (case filter (\<lambda>c. c \<noteq> [] \<and> c \<noteq> ''.'') (comps x) of [] \<Rightarrow> ''.'' | c # _ \<Rightarrow> c)"

subsection \<open>Errors\<close>

text \<open>
  Python exceptions as values. \<open>FileNotFoundError\<close> carries the message of an explicit
  \<^verbatim>\<open>raise\<close>, or the path when the library raises it. \<open>Busy\<close> is the spec's name for a
  lock that is already held.
\<close>

datatype error =
    NotImplementedError string
  | FileNotFoundError string
  | FileExistsError string
  | IsADirectoryError string
  | NotADirectoryError string
  | SameFileError string
  | OSError string
  | KeyError string
  | IndexError
  | ValueError string
  | CalledProcessError int
  | Busy string

subsection \<open>\<^verbatim>\<open>str.format\<close> with keyword arguments\<close>

text \<open>
  The templates of the link table use the replacement fields \<open>{model}\<close> and
  \<open>{modelpath}\<close>. The scanner below is \<^verbatim>\<open>str.format\<close> on the fragment the program
  uses: literal text, doubled braces, and fields that are a plain keyword. A keyword
  that was not passed is a \<open>KeyError\<close>, an empty or numbered field an \<open>IndexError\<close>
  (no positional argument is passed), an unmatched brace a \<open>ValueError\<close>. Fields with
  attribute access, indexing, a conversion or a format specification are outside the
  fragment; the scanner rejects them with a \<open>ValueError\<close>.
\<close>

datatype fmt_state = Text | AfterOpen | Field string | AfterClose

definition emit :: "string \<Rightarrow> error + string \<Rightarrow> error + string" where
  "emit s r = (case r of Inl e \<Rightarrow> Inl e | Inr t \<Rightarrow> Inr (s @ t))"

definition plain_field :: "string \<Rightarrow> bool" where
  "plain_field n = (\<forall>c \<in> set n. c \<notin> set ''.[]!:{'')"

definition index_field :: "string \<Rightarrow> bool" where
  "index_field n = (\<forall>c \<in> set n. c \<in> set ''0123456789'')"

fun fmt_scan :: "(string \<times> string) list \<Rightarrow> fmt_state \<Rightarrow> string \<Rightarrow> error + string" where
  "fmt_scan kw Text [] = Inr []"
| "fmt_scan kw AfterOpen [] = Inl (ValueError ''Single { encountered in format string'')"
| "fmt_scan kw (Field n) [] = Inl (ValueError ''expected } before end of string'')"
| "fmt_scan kw AfterClose [] = Inl (ValueError ''Single } encountered in format string'')"
| "fmt_scan kw Text (c # cs) =
     (if c = CHR ''{'' then fmt_scan kw AfterOpen cs
      else if c = CHR ''}'' then fmt_scan kw AfterClose cs
      else emit [c] (fmt_scan kw Text cs))"
| "fmt_scan kw AfterOpen (c # cs) =
     (if c = CHR ''{'' then emit ''{'' (fmt_scan kw Text cs)
      else if c = CHR ''}'' then Inl IndexError
      else fmt_scan kw (Field [c]) cs)"
| "fmt_scan kw (Field n) (c # cs) =
     (if c = CHR ''}'' then
        (if \<not> plain_field n then Inl (ValueError n)
         else if index_field n then Inl IndexError
         else (case map_of kw n of
                 None \<Rightarrow> Inl (KeyError n)
               | Some v \<Rightarrow> emit v (fmt_scan kw Text cs)))
      else fmt_scan kw (Field (n @ [c])) cs)"
| "fmt_scan kw AfterClose (c # cs) =
     (if c = CHR ''}'' then emit ''}'' (fmt_scan kw Text cs)
      else Inl (ValueError ''Single } encountered in format string''))"

definition format_str :: "(string \<times> string) list \<Rightarrow> string \<Rightarrow> error + string" where
  "format_str kw t = fmt_scan kw Text t"


section \<open>The file system and the processes around the orchestrator\<close>

text \<open>
  What the orchestrator sees of its environment: a file system of regular files (with
  their content), directories and symbolic links (with their target as written), the
  caller's working directory, the directory locks that are held, and a journal of the
  calls that have effects, in the order they were made. The file system is an association
  list from location to node, so that a state can be evaluated and compared.
  A symbolic link at the end of a path is followed (at most 40 times, as Linux does);
  symbolic links in the middle of a path are not traversed.
\<close>

datatype node = File string | Dir | Link string

type_synonym fs = "(path \<times> node) list"

record spawn_req =
  argv :: "string list"
  stdin_file :: path
  stdout_file :: path
  stderr_file :: "path option"
  spawn_cwd :: path

datatype event =
    Mkdir path
  | Unlink path
  | Symlinkf string path
  | Copyfile path path
  | OpenRead path
  | OpenWrite path path
  | Read55f string
  | Spawn spawn_req
  | LockAcquire path string
  | LockRelease path string
  | Mkdtemp path
  | Rmtree path

record world =
  nodes :: fs
  cwd :: path
  locks :: "(path \<times> string) list"
  trace :: "event list"

definition log :: "event \<Rightarrow> world \<Rightarrow> world" where
  "log e w = w\<lparr>trace := trace w @ [e]\<rparr>"

definition node_at :: "fs \<Rightarrow> path \<Rightarrow> node option" where
  "node_at ns p = (if p = [] then Some Dir else map_of ns p)"

text \<open>Following the symbolic links at a location; \<open>None\<close> is a loop (\<open>ELOOP\<close>).\<close>

fun chase :: "fs \<Rightarrow> nat \<Rightarrow> path \<Rightarrow> path option" where
  "chase ns 0 p = None"
| "chase ns (Suc n) p =
     (case node_at ns p of
        Some (Link t) \<Rightarrow> chase ns n (pjoin (butlast p) t)
      | _ \<Rightarrow> Some p)"

definition stat :: "world \<Rightarrow> path \<Rightarrow> node option" where
  "stat w p = (case chase (nodes w) 40 p of None \<Rightarrow> None | Some q \<Rightarrow> node_at (nodes w) q)"

definition exists :: "world \<Rightarrow> path \<Rightarrow> bool" where
  "exists w p = (stat w p \<noteq> None)"

definition is_file :: "world \<Rightarrow> path \<Rightarrow> bool" where
  "is_file w p = (case stat w p of Some (File c) \<Rightarrow> True | _ \<Rightarrow> False)"

definition is_dir :: "world \<Rightarrow> path \<Rightarrow> bool" where
  "is_dir w p = (stat w p = Some Dir)"

text \<open>
  \<^verbatim>\<open>Path(s).resolve()\<close>: absolute against the working directory, symbolic links
  followed; on a loop the path is returned as it stands.
\<close>

definition resolve_path :: "world \<Rightarrow> path \<Rightarrow> path" where
  "resolve_path w p = (case chase (nodes w) 40 p of None \<Rightarrow> p | Some q \<Rightarrow> q)"

definition resolve :: "world \<Rightarrow> string \<Rightarrow> path" where
  "resolve w s = resolve_path w (pjoin (cwd w) s)"

subsection \<open>Calls with effects\<close>

text \<open>
  Each call returns its result (\<open>Inl\<close> the exception raised) with the new state, and
  enters itself in the journal whether it succeeds or not.
\<close>

text \<open>\<^verbatim>\<open>Path.unlink()\<close>: removes the entry itself, never the target of a link.\<close>

definition unlink :: "path \<Rightarrow> world \<Rightarrow> (error + unit) \<times> world" where
  "unlink p w =
     (let w1 = log (Unlink p) w in
      case node_at (nodes w) p of
        None \<Rightarrow> (Inl (FileNotFoundError (path_str p)), w1)
      | Some Dir \<Rightarrow> (Inl (IsADirectoryError (path_str p)), w1)
      | Some _ \<Rightarrow> (Inr (), w1\<lparr>nodes := AList.delete p (nodes w1)\<rparr>))"

text \<open>\<^verbatim>\<open>Path.mkdir(exist_ok=True)\<close>, without \<^verbatim>\<open>parents\<close>.\<close>

definition mkdir :: "path \<Rightarrow> world \<Rightarrow> (error + unit) \<times> world" where
  "mkdir p w =
     (let w1 = log (Mkdir p) w in
      if node_at (nodes w) p \<noteq> None then
        (if is_dir w p then (Inr (), w1) else (Inl (FileExistsError (path_str p)), w1))
      else if is_dir w (butlast p) then
        (Inr (), w1\<lparr>nodes := AList.update p Dir (nodes w1)\<rparr>)
      else if exists w (butlast p) then (Inl (NotADirectoryError (path_str p)), w1)
      else (Inl (FileNotFoundError (path_str p)), w1))"

text \<open>
  Modelled from the spec: \<^verbatim>\<open>utils.symlinkf(src, dst)\<close> is not among the sources. The
  spec (4.4) has it force-create a symbolic link at the destination, replacing any file
  or link there. The link holds \<open>src\<close> as written. As \<^verbatim>\<open>os.symlink\<close> does, it needs
  the directory of the destination, and it does not replace a directory.
\<close>

definition symlinkf :: "string \<Rightarrow> path \<Rightarrow> world \<Rightarrow> (error + unit) \<times> world" where
  "symlinkf src dst w =
     (let w1 = log (Symlinkf src dst) w in
      if node_at (nodes w) dst = Some Dir then (Inl (IsADirectoryError (path_str dst)), w1)
      else if \<not> is_dir w (butlast dst) then (Inl (FileNotFoundError (path_str dst)), w1)
      else (Inr (), w1\<lparr>nodes := AList.update dst (Link src) (nodes w1)\<rparr>))"

text \<open>\<^verbatim>\<open>open(p).read()\<close>.\<close>

definition open_read :: "path \<Rightarrow> world \<Rightarrow> (error + string) \<times> world" where
  "open_read p w =
     (let w1 = log (OpenRead p) w in
      case stat w p of
        Some (File c) \<Rightarrow> (Inr c, w1)
      | Some _ \<Rightarrow> (Inl (IsADirectoryError (path_str p)), w1)
      | None \<Rightarrow> (Inl (FileNotFoundError (path_str p)), w1))"

text \<open>
  \<^verbatim>\<open>open(p, "w")\<close> followed by writing \<open>c\<close>: the file behind \<open>p\<close> is created or
  truncated; the journal names \<open>p\<close> and the location written.
\<close>

definition open_write :: "path \<Rightarrow> string \<Rightarrow> world \<Rightarrow> (error + unit) \<times> world" where
  "open_write p c w =
     (case chase (nodes w) 40 p of
        None \<Rightarrow> (Inl (OSError (path_str p)), log (OpenWrite p p) w)
      | Some q \<Rightarrow>
          (let w1 = log (OpenWrite p q) w in
           if node_at (nodes w) q = Some Dir then (Inl (IsADirectoryError (path_str p)), w1)
           else if \<not> is_dir w (butlast q) then (Inl (FileNotFoundError (path_str p)), w1)
           else (Inr (), w1\<lparr>nodes := AList.update q (File c) (nodes w1)\<rparr>)))"

text \<open>\<^verbatim>\<open>shutil.copyfile(src, dst)\<close>: refuses to copy a file onto itself.\<close>

definition samefile :: "world \<Rightarrow> path \<Rightarrow> path \<Rightarrow> bool" where
  "samefile w a b =
     (exists w a \<and> exists w b \<and> chase (nodes w) 40 a = chase (nodes w) 40 b)"

definition copyfile :: "path \<Rightarrow> path \<Rightarrow> world \<Rightarrow> (error + unit) \<times> world" where
  "copyfile src dst w =
     (let w1 = log (Copyfile src dst) w in
      if samefile w src dst then (Inl (SameFileError (path_str src)), w1)
      else (case stat w src of
              None \<Rightarrow> (Inl (FileNotFoundError (path_str src)), w1)
            | Some Dir \<Rightarrow> (Inl (IsADirectoryError (path_str src)), w1)
            | Some (Link t) \<Rightarrow> (Inl (OSError (path_str src)), w1)
            | Some (File c) \<Rightarrow>
                (case chase (nodes w) 40 dst of
                   None \<Rightarrow> (Inl (OSError (path_str dst)), w1)
                 | Some q \<Rightarrow>
                     if node_at (nodes w) q = Some Dir
                       then (Inl (IsADirectoryError (path_str dst)), w1)
                     else if \<not> is_dir w (butlast q)
                       then (Inl (FileNotFoundError (path_str dst)), w1)
                     else (Inr (), w1\<lparr>nodes := AList.update q (File c) (nodes w1)\<rparr>))))"


section \<open>The external collaborators\<close>

text \<open>
  The decoders of the solver's input formats (\<^verbatim>\<open>units.readinput\<close>,
  \<^verbatim>\<open>units.read55f\<close>), the solver executable and the choice of a fresh temporary
  directory are not part of the orchestrator. They are parameters of the model.
  \<^item> \<open>readinput\<close> decodes the text of the model's input descriptor. Of the result the
    orchestrator reads the optional entry \<open>finstd\<close> and, when present, the list
    \<open>ions\<close> with the entry \<open>filei\<close> of each ion.
  \<^item> \<open>read55f\<close> decodes the text of the run configuration; the orchestrator reads its
    field \<open>ichemc\<close>.
  \<^item> \<open>solver\<close> is the executable: from the request, its standard input and the file
    system it returns how it ended and the file system it leaves (its standard output
    included, in the file the request names).
  \<^item> \<open>mkdtemp\<close> is the name \<^verbatim>\<open>tempfile\<close> picks for a new directory.
\<close>

record ion =
  filei :: string

record modelinput =
  finstd :: "string option"
  ions :: "ion list option"

record config =
  ichemc :: int

datatype proc_result = Exited int | NotStarted error

record env =
  readinput :: "string \<Rightarrow> error + modelinput"
  read55f :: "string \<Rightarrow> error + config"
  solver :: "spawn_req \<Rightarrow> string \<Rightarrow> fs \<Rightarrow> proc_result \<times> fs"
  mkdtemp :: "fs \<Rightarrow> path"

text \<open>
  Modelled from the spec: \<^verbatim>\<open>units.read55f(path)\<close> is not among the sources. It is
  handed a path, so it opens the file itself; the decoding is the parameter.
\<close>

definition call_read55f :: "env \<Rightarrow> string \<Rightarrow> world \<Rightarrow> (error + config) \<times> world" where
  "call_read55f ev f w =
     (case open_read (pjoin (cwd w) f) (log (Read55f f) w) of
        (Inl e, w1) \<Rightarrow> (Inl e, w1)
      | (Inr c, w1) \<Rightarrow> (read55f ev c, w1))"

text \<open>
  \<^verbatim>\<open>subprocess.run(args, stdin=..., stdout=..., cwd=..., check=True)\<close>: the request is
  entered in the journal; a non-zero return code raises \<^verbatim>\<open>CalledProcessError\<close>.
\<close>

definition subprocess_run :: "env \<Rightarrow> spawn_req \<Rightarrow> string \<Rightarrow> world \<Rightarrow> (error + unit) \<times> world" where
  "subprocess_run ev req inp w =
     (let w1 = log (Spawn req) w in
      case solver ev req inp (nodes w1) of
        (NotStarted e, ns) \<Rightarrow> (Inl e, w1)
      | (Exited c, ns) \<Rightarrow>
          (if c \<noteq> 0 then (Inl (CalledProcessError c), w1\<lparr>nodes := ns\<rparr>)
           else (Inr (), w1\<lparr>nodes := ns\<rparr>)))"

section \<open>The class \<^verbatim>\<open>Synspec\<close>\<close>

record Synspec =
  version :: int
  synspec :: string
  linkfiles :: "(string \<times> string) list"

text \<open>
  \<^verbatim>\<open>linkfiles\<close> is a Python dictionary from link name to source, both templates. Its
  iteration order is the insertion order and an assignment to a key that is present
  keeps the key's place, which is what \<open>AList.update\<close> does.
\<close>

definition Synspec_init :: "string \<Rightarrow> int \<Rightarrow> error + Synspec" where
  "Synspec_init synspecpath ver =
     (if ver \<noteq> 51 then Inl (NotImplementedError ''Only version 51 is supported'')
      else Inr \<lparr>version = ver, synspec = synspecpath,
                linkfiles = [(''fort.19'', ''fort.19''),
                             (''fort.55'', ''fort.55''),
                             (''{model}.5'', ''{modelpath}.5''),
                             (''{model}.7'', ''{modelpath}.7'')]\<rparr>)"

definition add_link :: "string \<Rightarrow> string option \<Rightarrow> Synspec \<Rightarrow> Synspec" where
  "add_link linkfrom linkto s =
     (let lt = (case linkto of None \<Rightarrow> linkfrom | Some t \<Rightarrow> t)
      in s\<lparr>linkfiles := AList.update lt linkfrom (linkfiles s)\<rparr>)"

subsection \<open>\<^verbatim>\<open>_remove_potential_outfiles\<close>\<close>

text \<open>The \<^verbatim>\<open>print\<close> of the loop goes to the caller's terminal and is left out.\<close>

fun remove_loop :: "path \<Rightarrow> string \<Rightarrow> string list \<Rightarrow> world \<Rightarrow> (error + unit) \<times> world" where
  "remove_loop outdir outfile [] w = (Inr (), w)"
| "remove_loop outdir outfile (ext # exts) w =
     (let f = pjoin outdir (outfile @ ''.'' @ ext) in
      if is_file w f then
        (case unlink f w of
           (Inl e, w1) \<Rightarrow> (Inl e, w1)
         | (Inr u, w1) \<Rightarrow> remove_loop outdir outfile exts w1)
      else remove_loop outdir outfile exts w)"

definition remove_potential_outfiles ::
  "string \<Rightarrow> path \<Rightarrow> string \<Rightarrow> world \<Rightarrow> (error + unit) \<times> world" where
  "remove_potential_outfiles model outdir outfile w =
     (if \<not> is_dir w outdir then (Inr (), w)
      else remove_loop outdir outfile [''spec'', ''iden'', ''eqws'', ''cont''] w)"

subsection \<open>\<^verbatim>\<open>_copy_to_rundir\<close>\<close>

text \<open>Lines 113 to 118: the references of the input descriptor.\<close>

definition collect_reqs :: "modelinput \<Rightarrow> string list" where
  "collect_reqs mi =
     (case finstd mi of None \<Rightarrow> [] | Some f \<Rightarrow> if f = [] then [] else [f])
     @ (case ions mi of None \<Rightarrow> [] | Some is \<Rightarrow> map filei is)"

text \<open>
  Lines 119 to 125: the set comprehension, turned into a list. Python leaves the order
  of that list open; the model takes the order of \<open>remdups\<close>.
\<close>

definition dep_names :: "string list \<Rightarrow> string list" where
  "dep_names reqs = remdups (map first_segment (filter (\<lambda>x. \<not> is_absolute x) reqs))"

text \<open>Lines 127 to 129.\<close>

fun add_discovered :: "world \<Rightarrow> string list \<Rightarrow> (string \<times> string) list \<Rightarrow> (string \<times> string) list" where
  "add_discovered w [] tbl = tbl"
| "add_discovered w (req # reqs) tbl =
     add_discovered w reqs
       (if exists w (pjoin (cwd w) req) \<and> req \<notin> set (map fst tbl)
        then AList.update req req tbl else tbl)"

text \<open>Lines 131 to 139: is \<^verbatim>\<open>fort.56\<close> needed?\<close>

definition detect_fort56 ::
  "env \<Rightarrow> string \<Rightarrow> (string \<times> string) list \<Rightarrow> world
     \<Rightarrow> (error + unit) \<times> (string \<times> string) list \<times> world" where
  "detect_fort56 ev model tbl w =
     (if ''fort.56'' \<in> set (map fst tbl) then (Inr (), tbl, w)
      else
        (case map_of tbl ''fort.55'' of
           None \<Rightarrow> (Inl (KeyError ''fort.55''), tbl, w)
         | Some t \<Rightarrow>
             (case format_str [(''model'', model)] t of
                Inl e \<Rightarrow> (Inl e, tbl, w)
              | Inr cofigfile \<Rightarrow>
                  (case call_read55f ev cofigfile w of
                     (Inl e, w1) \<Rightarrow> (Inl e, tbl, w1)
                   | (Inr cfg, w1) \<Rightarrow>
                       if ichemc cfg \<noteq> 0 then
                         (if is_file w1 (pjoin (cwd w1) ''fort.56'')
                          then (Inr (), AList.update ''fort.56'' ''fort.56'' tbl, w1)
                          else (Inl (FileNotFoundError ''Need for fort.56 detected but not found''),
                                tbl, w1))
                       else (Inr (), tbl, w1)))))"

text \<open>
  Lines 142 to 151, one round of the loop. Both templates are filled in before the
  test: filling in has no effect and fails the same way wherever it is done.
\<close>

definition fmt_kw :: "string \<Rightarrow> path \<Rightarrow> (string \<times> string) list" where
  "fmt_kw model modelpath = [(''model'', model), (''modelpath'', path_str modelpath)]"

definition link_one ::
  "string \<Rightarrow> path \<Rightarrow> path \<Rightarrow> string \<Rightarrow> string \<Rightarrow> world \<Rightarrow> (error + unit) \<times> world" where
  "link_one model modelpath rundir dst src w =
     (case format_str (fmt_kw model modelpath) src of
        Inl e \<Rightarrow> (Inl e, w)
      | Inr fsrc \<Rightarrow>
          (case format_str (fmt_kw model modelpath) dst of
             Inl e \<Rightarrow> (Inl e, w)
           | Inr fdst \<Rightarrow>
               (let rsrc = resolve w fsrc in
                if rundir \<noteq> resolve_path w (cwd w) \<or> rsrc \<noteq> resolve w fdst
                then symlinkf (path_str rsrc) (pjoin rundir fdst) w
                else (Inr (), w))))"

fun link_all ::
  "string \<Rightarrow> path \<Rightarrow> path \<Rightarrow> (string \<times> string) list \<Rightarrow> world \<Rightarrow> (error + unit) \<times> world" where
  "link_all model modelpath rundir [] w = (Inr (), w)"
| "link_all model modelpath rundir ((dst, src) # es) w =
     (case link_one model modelpath rundir dst src w of
        (Inl e, w1) \<Rightarrow> (Inl e, w1)
      | (Inr u, w1) \<Rightarrow> link_all model modelpath rundir es w1)"

text \<open>
  The method as a whole. It assigns to \<^verbatim>\<open>self.linkfiles\<close>, so it returns the table
  next to its result, also when it raises.
\<close>

definition copy_to_rundir ::
  "env \<Rightarrow> (string \<times> string) list \<Rightarrow> string \<Rightarrow> path \<Rightarrow> path \<Rightarrow> world
     \<Rightarrow> (error + unit) \<times> (string \<times> string) list \<times> world" where
  "copy_to_rundir ev tbl model modelpath rundir w =
     (case map_of tbl ''{model}.5'' of
        None \<Rightarrow> (Inl (KeyError ''{model}.5''), tbl, w)
      | Some t \<Rightarrow>
          (case format_str (fmt_kw model modelpath) t of
             Inl e \<Rightarrow> (Inl e, tbl, w)
           | Inr inputfile \<Rightarrow>
               (case open_read (pjoin (cwd w) inputfile) w of
                  (Inl e, w1) \<Rightarrow> (Inl e, tbl, w1)
                | (Inr txt, w1) \<Rightarrow>
                    (case readinput ev txt of
                       Inl e \<Rightarrow> (Inl e, tbl, w1)
                     | Inr mi \<Rightarrow>
                         (let tbl1 = add_discovered w1 (dep_names (collect_reqs mi)) tbl in
                          case detect_fort56 ev model tbl1 w1 of
                            (Inl e, tbl2, w2) \<Rightarrow> (Inl e, tbl2, w2)
                          | (Inr u, tbl2, w2) \<Rightarrow>
                              (case link_all model modelpath rundir tbl2 w2 of
                                 (r, w3) \<Rightarrow> (r, tbl2, w3)))))))"

subsection \<open>\<^verbatim>\<open>_check_files\<close>\<close>

fun check_loop :: "string \<Rightarrow> path \<Rightarrow> string list \<Rightarrow> world \<Rightarrow> error + unit" where
  "check_loop model rundir [] w = Inr ()"
| "check_loop model rundir (file # files) w =
     (case format_str [(''model'', model)] file of
        Inl e \<Rightarrow> Inl e
      | Inr f \<Rightarrow>
          (let fn = pjoin rundir f in
           if \<not> exists w fn then Inl (FileNotFoundError (path_str fn @ '' not found''))
           else check_loop model rundir files w))"

definition required_files :: "string list" where
  "required_files = [''fort.19'', ''fort.55'', ''{model}.5'', ''{model}.7'']"

definition check_files :: "string \<Rightarrow> path \<Rightarrow> world \<Rightarrow> (error + unit) \<times> world" where
  "check_files model rundir w = (check_loop model rundir required_files w, w)"

subsection \<open>\<^verbatim>\<open>_run\<close>\<close>

text \<open>
  The call passes \<^verbatim>\<open>stdin\<close>, \<^verbatim>\<open>stdout\<close> and \<^verbatim>\<open>cwd\<close>; it passes no
  \<^verbatim>\<open>stderr\<close>, so the child keeps the caller's.
\<close>

definition run_solver :: "env \<Rightarrow> Synspec \<Rightarrow> string \<Rightarrow> path \<Rightarrow> world \<Rightarrow> (error + unit) \<times> world" where
  "run_solver ev s model rundir w =
     (case symlinkf (model @ ''.7'') (pjoin rundir ''fort.8'') w of
        (Inl e, w1) \<Rightarrow> (Inl e, w1)
      | (Inr u, w1) \<Rightarrow>
          (case open_read (pjoin rundir (model @ ''.5'')) w1 of
             (Inl e, w2) \<Rightarrow> (Inl e, w2)
           | (Inr inp, w2) \<Rightarrow>
               (case open_write (pjoin rundir ''fort.log'') [] w2 of
                  (Inl e, w3) \<Rightarrow> (Inl e, w3)
                | (Inr u, w3) \<Rightarrow>
                    subprocess_run ev
                      \<lparr>argv = [synspec s],
                       stdin_file = pjoin rundir (model @ ''.5''),
                       stdout_file = pjoin rundir ''fort.log'',
                       stderr_file = None,
                       spawn_cwd = rundir\<rparr> inp w3)))"

subsection \<open>\<^verbatim>\<open>_extract_outfiles\<close>\<close>

fun copy_loop :: "path \<Rightarrow> path \<Rightarrow> string \<Rightarrow> (string \<times> string) list \<Rightarrow> world \<Rightarrow> (error + unit) \<times> world" where
  "copy_loop rundir outdir outfile [] w = (Inr (), w)"
| "copy_loop rundir outdir outfile ((unit, ext) # r) w =
     (case copyfile (pjoin rundir (''fort.'' @ unit)) (pjoin outdir (outfile @ ''.'' @ ext)) w of
        (Inl e, w1) \<Rightarrow> (Inl e, w1)
      | (Inr u, w1) \<Rightarrow> copy_loop rundir outdir outfile r w1)"

definition extract_outfiles ::
  "string \<Rightarrow> path \<Rightarrow> path \<Rightarrow> string \<Rightarrow> world \<Rightarrow> (error + unit) \<times> world" where
  "extract_outfiles model rundir outdir outfile w =
     (case mkdir outdir w of
        (Inl e, w1) \<Rightarrow> (Inl e, w1)
      | (Inr u, w1) \<Rightarrow>
          (case copy_loop rundir outdir outfile
                  [(''7'', ''spec''), (''12'', ''iden''), (''16'', ''eqws''), (''17'', ''cont'')] w1 of
             (Inl e, w2) \<Rightarrow> (Inl e, w2)
           | (Inr u, w2) \<Rightarrow>
               copyfile (pjoin rundir ''fort.log'') (pjoin outdir (outfile @ ''.log'')) w2))"

subsection \<open>\<^verbatim>\<open>run\<close>\<close>

text \<open>Lines 66 to 70, the body of the \<^verbatim>\<open>with\<close> statement.\<close>

definition run_body ::
  "env \<Rightarrow> Synspec \<Rightarrow> string \<Rightarrow> path \<Rightarrow> path \<Rightarrow> path \<Rightarrow> string \<Rightarrow> world
     \<Rightarrow> (error + unit) \<times> Synspec \<times> world" where
  "run_body ev s model modelpath rundir outdir outfile w =
     (case remove_potential_outfiles model outdir outfile w of
        (Inl e, w1) \<Rightarrow> (Inl e, s, w1)
      | (Inr u, w1) \<Rightarrow>
          (case copy_to_rundir ev (linkfiles s) model modelpath rundir w1 of
             (Inl e, tbl, w2) \<Rightarrow> (Inl e, s\<lparr>linkfiles := tbl\<rparr>, w2)
           | (Inr u, tbl, w2) \<Rightarrow>
               (case check_files model rundir w2 of
                  (Inl e, w3) \<Rightarrow> (Inl e, s\<lparr>linkfiles := tbl\<rparr>, w3)
                | (Inr u, w3) \<Rightarrow>
                    (case run_solver ev (s\<lparr>linkfiles := tbl\<rparr>) model rundir w3 of
                       (Inl e, w4) \<Rightarrow> (Inl e, s\<lparr>linkfiles := tbl\<rparr>, w4)
                     | (Inr u, w4) \<Rightarrow>
                         (case extract_outfiles model rundir outdir outfile w4 of
                            (r, w5) \<Rightarrow> (r, s\<lparr>linkfiles := tbl\<rparr>, w5))))))"

text \<open>
  The context manager \<^verbatim>\<open>tempdir\<close>: a new directory, handed over resolved, removed
  with all it holds when the block is left, by an exception too.
\<close>

definition tempdir ::
  "env \<Rightarrow> Synspec \<Rightarrow> (path \<Rightarrow> world \<Rightarrow> (error + unit) \<times> Synspec \<times> world) \<Rightarrow> world
     \<Rightarrow> (error + unit) \<times> Synspec \<times> world" where
  "tempdir ev s body w =
     (let t = mkdtemp ev (nodes w); w1 = log (Mkdtemp t) w in
      if node_at (nodes w) t \<noteq> None then (Inl (FileExistsError (path_str t)), s, w1)
      else if \<not> is_dir w (butlast t) then (Inl (FileNotFoundError (path_str t)), s, w1)
      else
        (let w2 = w1\<lparr>nodes := AList.update t Dir (nodes w1)\<rparr> in
         case body (resolve_path w2 t) w2 of
           (r, s', w3) \<Rightarrow>
             (r, s', (log (Rmtree t) w3)\<lparr>nodes := filter (\<lambda>(p, n). \<not> prefix t p) (nodes w3)\<rparr>)))"

text \<open>
  Modelled from the spec: \<^verbatim>\<open>utils.folderlock(path, lockfn)\<close> is not among the
  sources. The spec (4.1) has it acquire the lock of the directory for the block, fail
  with \<open>Busy\<close> when the lock is held, and release it on every way out of the block. The
  \<^verbatim>\<open>with\<close> statement of \<^verbatim>\<open>run\<close> binds what it yields to \<^verbatim>\<open>rundir\<close>; the model has
  it yield the directory.
\<close>

definition folderlock ::
  "path \<Rightarrow> string \<Rightarrow> Synspec \<Rightarrow> (path \<Rightarrow> world \<Rightarrow> (error + unit) \<times> Synspec \<times> world) \<Rightarrow> world
     \<Rightarrow> (error + unit) \<times> Synspec \<times> world" where
  "folderlock p lockfn s body w =
     (if (p, lockfn) \<in> set (locks w) then (Inl (Busy (path_str p)), s, w)
      else
        (case body p ((log (LockAcquire p lockfn) w)\<lparr>locks := (p, lockfn) # locks w\<rparr>) of
           (r, s', w2) \<Rightarrow>
             (r, s', (log (LockRelease p lockfn) w2)
                       \<lparr>locks := removeAll (p, lockfn) (locks w2)\<rparr>)))"

text \<open>
  The method \<^verbatim>\<open>run(model, rundir, outdir, outfile)\<close>. \<open>None\<close> for \<open>rundir\<close> asks for
  a temporary directory; the default of the source is \<open>Some ''.''\<close>.
\<close>

definition run ::
  "env \<Rightarrow> Synspec \<Rightarrow> string \<Rightarrow> string option \<Rightarrow> string option \<Rightarrow> string option \<Rightarrow> world
     \<Rightarrow> (error + unit) \<times> Synspec \<times> world" where
  "run ev s model rundir outdir outfile w =
     (let modelpath = resolve w model;
          m = path_name modelpath;
          ofile = (case outfile of None \<Rightarrow> m | Some f \<Rightarrow> f)
      in case rundir of
           None \<Rightarrow>
             (let od = (case outdir of None \<Rightarrow> resolve_path w (cwd w) | Some d \<Rightarrow> resolve w d)
              in tempdir ev s (\<lambda>rd. run_body ev s m modelpath rd od ofile) w)
         | Some r \<Rightarrow>
             (let rd = resolve w r in
              case mkdir rd w of
                (Inl e, w1) \<Rightarrow> (Inl e, s, w1)
              | (Inr u, w1) \<Rightarrow>
                  (let od = (case outdir of None \<Rightarrow> resolve_path w1 rd | Some d \<Rightarrow> resolve w1 d)
                   in folderlock rd ''synspec.lock'' s
                        (\<lambda>rd'. run_body ev s m modelpath rd' od ofile) w1)))"


section \<open>Reading the journal\<close>

text \<open>
  What a journal says about one kind of call: the solver processes started, the links
  forced, the files copied, the entries removed, the directories made, the run configurations decoded, and
  the locations at which a link was placed or a file opened for writing.
\<close>

fun spawn_of :: "event \<Rightarrow> spawn_req list" where
  "spawn_of (Spawn r) = [r]"
| "spawn_of e = []"

fun symlink_of :: "event \<Rightarrow> (string \<times> path) list" where
  "symlink_of (Symlinkf t l) = [(t, l)]"
| "symlink_of e = []"

fun copy_of :: "event \<Rightarrow> (path \<times> path) list" where
  "copy_of (Copyfile a b) = [(a, b)]"
| "copy_of e = []"

fun mkdir_of :: "event \<Rightarrow> path list" where
  "mkdir_of (Mkdir d) = [d]"
| "mkdir_of e = []"

fun read55_of :: "event \<Rightarrow> string list" where
  "read55_of (Read55f f) = [f]"
| "read55_of e = []"

fun placed_of :: "event \<Rightarrow> path list" where
  "placed_of (Symlinkf t l) = [l]"
| "placed_of (OpenWrite p q) = [q]"
| "placed_of e = []"

fun unlink_of :: "event \<Rightarrow> path list" where
  "unlink_of (Unlink p) = [p]"
| "unlink_of e = []"

fun lock_of :: "event \<Rightarrow> event list" where
  "lock_of (LockAcquire p f) = [LockAcquire p f]"
| "lock_of (LockRelease p f) = [LockRelease p f]"
| "lock_of e = []"

definition spawned :: "event list \<Rightarrow> spawn_req list" where
  "spawned es = concat (map spawn_of es)"

definition symlinked :: "event list \<Rightarrow> (string \<times> path) list" where
  "symlinked es = concat (map symlink_of es)"

definition copied :: "event list \<Rightarrow> (path \<times> path) list" where
  "copied es = concat (map copy_of es)"

definition mkdirs :: "event list \<Rightarrow> path list" where
  "mkdirs es = concat (map mkdir_of es)"

definition read55_calls :: "event list \<Rightarrow> string list" where
  "read55_calls es = concat (map read55_of es)"

definition placed :: "event list \<Rightarrow> path list" where
  "placed es = concat (map placed_of es)"

definition unlinked :: "event list \<Rightarrow> path list" where
  "unlinked es = concat (map unlink_of es)"

definition lock_events :: "event list \<Rightarrow> event list" where
  "lock_events es = concat (map lock_of es)"

text \<open>
  From \<open>w\<close> to \<open>w'\<close> nothing but staging happened: the journal grew by calls that
  start no process, copy no file, make no directory, remove nothing and touch no lock; the working
  directory and the locks are the same; and a location is as it was unless the journal
  has a link placed or a file opened for writing there.
\<close>

definition staging_only :: "event list \<Rightarrow> bool" where
  "staging_only es \<longleftrightarrow>
     spawned es = [] \<and> copied es = [] \<and> mkdirs es = [] \<and> unlinked es = [] \<and> lock_events es = []"

definition stages :: "world \<Rightarrow> world \<Rightarrow> bool" where
  "stages w w' \<longleftrightarrow>
     cwd w' = cwd w \<and> locks w' = locks w
     \<and> (\<exists>es. trace w' = trace w @ es \<and> staging_only es
              \<and> (\<forall>p. p \<notin> set (placed es) \<longrightarrow> map_of (nodes w') p = map_of (nodes w) p))"

section \<open>Concrete scenarios\<close>

text \<open>A new instance for version 51, as \<^verbatim>\<open>Synspec("synspec", 51)\<close> builds it.\<close>

definition fresh :: Synspec where
  "fresh = \<lparr>version = 51, synspec = ''synspec'',
            linkfiles = [(''fort.19'', ''fort.19''), (''fort.55'', ''fort.55''),
                         (''{model}.5'', ''{modelpath}.5''), (''{model}.7'', ''{modelpath}.7'')]\<rparr>"

text \<open>
  A working directory \<open>/w\<close> with the four inputs of the model \<open>m\<close>, output of an
  earlier run under the names \<open>m.spec\<close> and \<open>m.log\<close>, and a directory \<open>/tmp\<close>.
\<close>

definition w_stale :: world where
  "w_stale = \<lparr>nodes = [([''w''], Dir), ([''w'', ''fort.19''], File ''linelist''),
                        ([''w'', ''fort.55''], File ''config''), ([''w'', ''m.5''], File ''input''),
                        ([''w'', ''m.7''], File ''model''), ([''w'', ''m.spec''], File ''old spec''),
                        ([''w'', ''m.log''], File ''old log''), ([''tmp''], Dir)],
               cwd = [''w''], locks = [], trace = []\<rparr>"

text \<open>A descriptor without references, a configuration with \<open>ichemc = 0\<close>.\<close>

definition plain_input :: "string \<Rightarrow> error + modelinput" where
  "plain_input txt = Inr \<lparr>finstd = None, ions = None\<rparr>"

definition plain_config :: "string \<Rightarrow> error + config" where
  "plain_config txt = Inr \<lparr>ichemc = 0\<rparr>"

text \<open>A solver that exits with status 1 and writes nothing.\<close>

definition env_fail :: env where
  "env_fail = \<lparr>readinput = plain_input, read55f = plain_config,
                solver = (\<lambda>req inp ns. (Exited 1, ns)),
                mkdtemp = (\<lambda>ns. [''tmp'', ''t0''])\<rparr>"

text \<open>
  A solver that exits with status 0, having written its four units in its working
  directory and its standard output.
\<close>

definition good_solver :: "spawn_req \<Rightarrow> string \<Rightarrow> fs \<Rightarrow> proc_result \<times> fs" where
  "good_solver req inp ns =
     (Exited 0,
      AList.update (stdout_file req) (File ''done'')
        (AList.update (spawn_cwd req @ [''fort.17'']) (File ''cont'')
          (AList.update (spawn_cwd req @ [''fort.16'']) (File ''eqws'')
            (AList.update (spawn_cwd req @ [''fort.12'']) (File ''iden'')
              (AList.update (spawn_cwd req @ [''fort.7'']) (File ''spec'') ns)))))"

definition env_ok :: env where
  "env_ok = \<lparr>readinput = plain_input, read55f = plain_config,
              solver = good_solver, mkdtemp = (\<lambda>ns. [''tmp'', ''t0''])\<rparr>"

text \<open>
  The states of the runner, called in place in \<open>/w\<close>: after the link \<open>fort.8\<close>, after
  opening the input descriptor, after opening the log.
\<close>

definition w_linked :: world where
  "w_linked = snd (symlinkf ''m.7'' [''w'', ''fort.8''] w_stale)"

definition w_input_open :: world where
  "w_input_open = snd (open_read [''w'', ''m.5''] w_linked)"

definition w_log_open :: world where
  "w_log_open = snd (open_write [''w'', ''fort.log''] [] w_input_open)"

text \<open>
  A descriptor whose ions read \<open>data/h1.dat\<close>, \<open>./data/he1.dat\<close>, \<open>nst_l/c.dat\<close> and
  \<open>/opt/atoms/n.dat\<close>, and a working directory that has \<open>data\<close> but no \<open>nst_l\<close>.
\<close>

definition ion_input :: "string \<Rightarrow> error + modelinput" where
  "ion_input txt =
     Inr \<lparr>finstd = Some [],
          ions = Some [\<lparr>filei = ''data/h1.dat''\<rparr>, \<lparr>filei = ''./data/he1.dat''\<rparr>,
                       \<lparr>filei = ''nst_l/c.dat''\<rparr>, \<lparr>filei = ''/opt/atoms/n.dat''\<rparr>]\<rparr>"

definition env_ions :: env where
  "env_ions = \<lparr>readinput = ion_input, read55f = plain_config,
                solver = good_solver, mkdtemp = (\<lambda>ns. [''tmp'', ''t0''])\<rparr>"

definition w_data :: world where
  "w_data = w_stale\<lparr>nodes := nodes w_stale @ [([''w'', ''data''], Dir)]\<rparr>"

text \<open>
  A run configuration with \<open>ichemc = 1\<close>, and the working directory with a file
  \<open>fort.56\<close> added.
\<close>

definition chem_config :: "string \<Rightarrow> error + config" where
  "chem_config txt = Inr \<lparr>ichemc = 1\<rparr>"

definition env_chem :: env where
  "env_chem = \<lparr>readinput = plain_input, read55f = chem_config,
                solver = good_solver, mkdtemp = (\<lambda>ns. [''tmp'', ''t0''])\<rparr>"

definition w_chem :: world where
  "w_chem = w_stale\<lparr>nodes := nodes w_stale @ [([''w'', ''fort.56''], File ''chemistry'')]\<rparr>"

text \<open>
  The same with an input descriptor that has an ion read its data from \<open>fort.56\<close>.
\<close>

definition fort56_input :: "string \<Rightarrow> error + modelinput" where
  "fort56_input txt = Inr \<lparr>finstd = None, ions = Some [\<lparr>filei = ''fort.56''\<rparr>]\<rparr>"

definition env_ion56 :: env where
  "env_ion56 = \<lparr>readinput = fort56_input, read55f = chem_config,
                 solver = good_solver, mkdtemp = (\<lambda>ns. [''tmp'', ''t0''])\<rparr>"

text \<open>
  The working directory \<open>/w\<close> without the run configuration \<open>fort.55\<close>, and a caller
  who has linked \<open>fort.56\<close> by hand, so that \<open>fort.55\<close> is not read before the check.
\<close>

definition w_no55 :: world where
  "w_no55 = \<lparr>nodes = [([''w''], Dir), ([''w'', ''fort.19''], File ''linelist''),
                       ([''w'', ''m.5''], File ''input''), ([''w'', ''m.7''], File ''model''),
                       ([''w'', ''fort.56''], File ''chemistry''), ([''tmp''], Dir)],
              cwd = [''w''], locks = [], trace = []\<rparr>"

definition with56 :: Synspec where
  "with56 = add_link ''fort.56'' None fresh"

definition w_no55_staged :: world where
  "w_no55_staged = snd (snd (copy_to_rundir env_ok (linkfiles with56) ''m'' [''w'', ''m''] [''w''] w_no55))"

text \<open>
  The states of a run in place in \<open>/w\<close>, with output to \<open>/w/out\<close>, which is not there
  yet: after staging, after the runner, and at the end.
\<close>

definition w_staged :: world where
  "w_staged = snd (snd (copy_to_rundir env_ok (linkfiles fresh) ''m'' [''w'', ''m''] [''w''] w_stale))"

definition w_ran :: world where
  "w_ran = snd (run_solver env_ok fresh ''m'' [''w''] w_staged)"

definition w_final :: world where
  "w_final = snd (snd (run_body env_ok fresh ''m'' [''w'', ''m''] [''w''] [''w'', ''out''] ''m'' w_stale))"

text \<open>
  A working directory with \<open>data\<close> and \<open>fort.56\<close>, a descriptor whose ions read from
  \<open>data\<close>, a configuration with \<open>ichemc = 1\<close>; the instance and the state that a first
  run in place leaves.
\<close>

definition env_both :: env where
  "env_both = \<lparr>readinput = ion_input, read55f = chem_config,
                solver = good_solver, mkdtemp = (\<lambda>ns. [''tmp'', ''t0''])\<rparr>"

definition w_both :: world where
  "w_both = w_stale\<lparr>nodes := nodes w_stale @ [([''w'', ''data''], Dir),
                                               ([''w'', ''fort.56''], File ''chemistry'')]\<rparr>"

definition after_first :: Synspec where
  "after_first = fst (snd (run env_both fresh ''m'' (Some ''.'') None None w_both))"

definition w_after_first :: world where
  "w_after_first = snd (snd (run env_both fresh ''m'' (Some ''.'') None None w_both))"

text \<open>
  The state a run in place in \<open>/w\<close> leaves when the solver exits with status 1.
\<close>

definition w_failed :: world where
  "w_failed = snd (snd (run_body env_fail fresh ''m'' [''w'', ''m''] [''w''] [''w''] ''m'' w_stale))"

text \<open>
  The same working directory where \<open>m.spec\<close> is a symbolic link to the regular file
  \<open>keep.dat\<close>, and the state the failing run leaves there.
\<close>

definition w_kept :: world where
  "w_kept = w_stale\<lparr>nodes := AList.update [''w'', ''m.spec''] (Link ''keep.dat'') (nodes w_stale)
                                 @ [([''w'', ''keep.dat''], File ''kept'')]\<rparr>"

definition w_kept_failed :: world where
  "w_kept_failed = snd (snd (run_body env_fail fresh ''m'' [''w'', ''m''] [''w''] [''w''] ''m'' w_kept))"

text \<open>
  The first run in place on the new instance: the state in which the body starts,
  with the lock of \<open>/w\<close> taken, and the state after the cleanup, in which staging
  starts.
\<close>

definition w_entered :: world where
  "w_entered = (log (LockAcquire [''w''] ''synspec.lock'') (snd (mkdir [''w''] w_both)))
                 \<lparr>locks := ([''w''], ''synspec.lock'') # locks (snd (mkdir [''w''] w_both))\<rparr>"

definition w_cleaned :: world where
  "w_cleaned = snd (remove_potential_outfiles ''m'' [''w''] ''m'' w_entered)"

section \<open>What each call does to the state\<close>

lemma log_simps [simp]:
  "trace (log e w) = trace w @ [e]" "nodes (log e w) = nodes w"
  "cwd (log e w) = cwd w" "locks (log e w) = locks w"
  by (simp_all add: log_def)

lemma stat_log [simp]: "stat (log e w) p = stat w p"
  by (simp add: stat_def split: option.splits)

lemma exists_log [simp]: "exists (log e w) p = exists w p"
  by (simp add: exists_def)

lemma is_file_log [simp]: "is_file (log e w) p = is_file w p"
  by (simp add: is_file_def)

lemma is_dir_log [simp]: "is_dir (log e w) p = is_dir w p"
  by (simp add: is_dir_def)

lemma resolve_path_log [simp]: "resolve_path (log e w) p = resolve_path w p"
  by (simp add: resolve_path_def)

lemma journal_append [simp]:
  "spawned (xs @ ys) = spawned xs @ spawned ys"
  "symlinked (xs @ ys) = symlinked xs @ symlinked ys"
  "copied (xs @ ys) = copied xs @ copied ys"
  "mkdirs (xs @ ys) = mkdirs xs @ mkdirs ys"
  "read55_calls (xs @ ys) = read55_calls xs @ read55_calls ys"
  "placed (xs @ ys) = placed xs @ placed ys"
  "lock_events (xs @ ys) = lock_events xs @ lock_events ys"
  "unlinked (xs @ ys) = unlinked xs @ unlinked ys"
  by (simp_all add: spawned_def symlinked_def copied_def mkdirs_def read55_calls_def placed_def
        lock_events_def unlinked_def)

lemma journal_Nil [simp]:
  "spawned [] = []" "symlinked [] = []" "copied [] = []" "mkdirs [] = []"
  "read55_calls [] = []" "placed [] = []" "lock_events [] = []" "unlinked [] = []"
  by (simp_all add: spawned_def symlinked_def copied_def mkdirs_def read55_calls_def placed_def
        lock_events_def unlinked_def)

lemma journal_Cons [simp]:
  "spawned (e # es) = spawn_of e @ spawned es"
  "symlinked (e # es) = symlink_of e @ symlinked es"
  "copied (e # es) = copy_of e @ copied es"
  "mkdirs (e # es) = mkdir_of e @ mkdirs es"
  "read55_calls (e # es) = read55_of e @ read55_calls es"
  "placed (e # es) = placed_of e @ placed es"
  "lock_events (e # es) = lock_of e @ lock_events es"
  "unlinked (e # es) = unlink_of e @ unlinked es"
  by (simp_all add: spawned_def symlinked_def copied_def mkdirs_def read55_calls_def placed_def
        lock_events_def unlinked_def)

subsection \<open>unlink\<close>

lemma unlink_world:
  assumes "unlink p w = (r, w')"
  shows "trace w' = trace w @ [Unlink p]" "cwd w' = cwd w" "locks w' = locks w"
    and "map_of (nodes w') k = (if r = Inr () \<and> k = p then None else map_of (nodes w) k)"
  using assms
  by (auto simp: unlink_def Let_def delete_conv' split: option.splits node.splits)

lemma unlink_ok:
  "node_at (nodes w) p = Some (File c) \<or> node_at (nodes w) p = Some (Link t) \<Longrightarrow> fst (unlink p w) = Inr ()"
  by (auto simp: unlink_def Let_def)

subsection \<open>symlinkf\<close>

lemma symlinkf_world:
  assumes "symlinkf t l w = (r, w')"
  shows "trace w' = trace w @ [Symlinkf t l]" "cwd w' = cwd w" "locks w' = locks w"
    and "k \<noteq> l \<Longrightarrow> map_of (nodes w') k = map_of (nodes w) k"
    and "r = Inr () \<Longrightarrow> map_of (nodes w') l = Some (Link t)"
    and "r \<noteq> Inr () \<Longrightarrow> nodes w' = nodes w"
  using assms
  by (auto simp: symlinkf_def Let_def update_conv' split: if_splits)

lemma symlinkf_ok:
  "node_at (nodes w) l \<noteq> Some Dir \<Longrightarrow> is_dir w (butlast l) \<Longrightarrow> fst (symlinkf t l w) = Inr ()"
  by (simp add: symlinkf_def Let_def)

subsection \<open>open\<close>

lemma open_read_world:
  assumes "open_read p w = (r, w')"
  shows "w' = log (OpenRead p) w"
  using assms by (auto simp: open_read_def Let_def split: option.splits node.splits)

lemma open_write_world:
  assumes "open_write p c w = (r, w')"
  shows "trace w' = trace w @ [OpenWrite p (resolve_path w p)]" "cwd w' = cwd w" "locks w' = locks w"
    and "k \<noteq> resolve_path w p \<Longrightarrow> map_of (nodes w') k = map_of (nodes w) k"
  using assms
  by (auto simp: open_write_def resolve_path_def Let_def update_conv' split: option.splits if_splits)

subsection \<open>mkdir, copyfile\<close>

lemma mkdir_world:
  assumes "mkdir p w = (r, w')"
  shows "trace w' = trace w @ [Mkdir p]" "cwd w' = cwd w" "locks w' = locks w"
    and "k \<noteq> p \<Longrightarrow> map_of (nodes w') k = map_of (nodes w) k"
  using assms
  by (auto simp: mkdir_def Let_def update_conv' split: if_splits)

lemma copyfile_world:
  assumes "copyfile a b w = (r, w')"
  shows "trace w' = trace w @ [Copyfile a b]" "cwd w' = cwd w" "locks w' = locks w"
  using assms
  by (auto simp: copyfile_def Let_def split: if_splits option.splits node.splits)

subsection \<open>subprocess\<close>

lemma subprocess_run_world:
  assumes "subprocess_run ev req inp w = (r, w')"
  shows "trace w' = trace w @ [Spawn req]" "cwd w' = cwd w" "locks w' = locks w"
    and "nodes w' = nodes w \<or> nodes w' = snd (solver ev req inp (nodes w))"
  using assms
  by (auto simp: subprocess_run_def Let_def split: prod.splits proc_result.splits if_splits)

lemma subprocess_run_result:
  "fst (subprocess_run ev req inp w) =
     (case fst (solver ev req inp (nodes w)) of
        NotStarted e \<Rightarrow> Inl e
      | Exited c \<Rightarrow> if c \<noteq> 0 then Inl (CalledProcessError c) else Inr ())"
  by (auto simp: subprocess_run_def Let_def split: prod.splits proc_result.splits)

lemma call_read55f_world:
  assumes "call_read55f ev f w = (r, w')"
  shows "w' = log (OpenRead (pjoin (cwd w) f)) (log (Read55f f) w)"
  using assms
  by (auto simp: call_read55f_def split: prod.splits sum.splits dest: open_read_world)

subsection \<open>The journal after each call\<close>

lemma unlink_trace: "trace (snd (unlink p w)) = trace w @ [Unlink p]"
  by (cases "unlink p w") (simp add: unlink_world)

lemma symlinkf_trace: "trace (snd (symlinkf t l w)) = trace w @ [Symlinkf t l]"
  by (cases "symlinkf t l w") (simp add: symlinkf_world)

lemma open_read_trace: "trace (snd (open_read p w)) = trace w @ [OpenRead p]"
  by (cases "open_read p w") (auto dest: open_read_world)

lemma open_write_trace:
  "trace (snd (open_write p c w)) = trace w @ [OpenWrite p (resolve_path w p)]"
  by (cases "open_write p c w") (simp add: open_write_world)

lemma mkdir_trace: "trace (snd (mkdir p w)) = trace w @ [Mkdir p]"
  by (cases "mkdir p w") (simp add: mkdir_world)

lemma copyfile_trace: "trace (snd (copyfile a b w)) = trace w @ [Copyfile a b]"
  by (cases "copyfile a b w") (simp add: copyfile_world)

lemma subprocess_run_trace: "trace (snd (subprocess_run ev req inp w)) = trace w @ [Spawn req]"
  by (cases "subprocess_run ev req inp w") (simp add: subprocess_run_world)

lemma call_read55f_trace:
  "trace (snd (call_read55f ev f w)) = trace w @ [Read55f f, OpenRead (pjoin (cwd w) f)]"
  by (cases "call_read55f ev f w") (auto dest: call_read55f_world)

lemmas prim_trace = unlink_trace symlinkf_trace open_read_trace open_write_trace mkdir_trace
  copyfile_trace subprocess_run_trace call_read55f_trace

section \<open>Filling in the default templates\<close>

lemma format_model_5:
  "format_str (fmt_kw m mp) ''{model}.5'' = Inr (m @ ''.5'')"
  by (simp add: format_str_def fmt_kw_def emit_def plain_field_def index_field_def)

lemma format_model_7:
  "format_str (fmt_kw m mp) ''{model}.7'' = Inr (m @ ''.7'')"
  by (simp add: format_str_def fmt_kw_def emit_def plain_field_def index_field_def)

lemma format_modelpath_5:
  "format_str (fmt_kw m mp) ''{modelpath}.5'' = Inr (path_str mp @ ''.5'')"
  by (simp add: format_str_def fmt_kw_def emit_def plain_field_def index_field_def)

lemma format_modelpath_7:
  "format_str (fmt_kw m mp) ''{modelpath}.7'' = Inr (path_str mp @ ''.7'')"
  by (simp add: format_str_def fmt_kw_def emit_def plain_field_def index_field_def)

lemma format_fort_19: "format_str kw ''fort.19'' = Inr ''fort.19''"
  by (simp add: format_str_def emit_def)

lemma format_fort_55: "format_str kw ''fort.55'' = Inr ''fort.55''"
  by (simp add: format_str_def emit_def)

section \<open>Discovery and staging\<close>

lemma add_discovered_map_of:
  "map_of (add_discovered w reqs tbl) k
     = (if k \<in> set reqs \<and> exists w (pjoin (cwd w) k) \<and> k \<notin> fst ` set tbl then Some k
        else map_of tbl k)"
proof (induction reqs arbitrary: tbl)
  case Nil
  show ?case by simp
next
  case (Cons req reqs)
  show ?case
  proof (cases "exists w (pjoin (cwd w) req) \<and> req \<notin> fst ` set tbl")
    case True
    then have "add_discovered w (req # reqs) tbl = add_discovered w reqs (AList.update req req tbl)"
      by simp
    then show ?thesis
      using True by (auto simp: Cons.IH update_conv' dom_update map_of_eq_None_iff)
  next
    case False
    then have "add_discovered w (req # reqs) tbl = add_discovered w reqs tbl"
      by auto
    then show ?thesis
      using False by (auto simp: Cons.IH map_of_eq_None_iff)
  qed
qed

lemma detect_fort56_table:
  assumes "detect_fort56 ev model tbl w = (r, tbl', w')"
  shows "tbl' = tbl \<or> tbl' = AList.update ''fort.56'' ''fort.56'' tbl"
  using assms
  by (auto simp: detect_fort56_def split: if_splits option.splits sum.splits prod.splits)

lemma detect_fort56_cwd_nodes:
  assumes "detect_fort56 ev model tbl w = (r, tbl', w')"
  shows "nodes w' = nodes w" "cwd w' = cwd w" "locks w' = locks w"
  using assms
  by (auto simp: detect_fort56_def split: if_splits option.splits sum.splits prod.splits
        dest!: call_read55f_world)

lemma copy_to_rundir_table:
  assumes "map_of tbl ''{model}.5'' = Some t"
    and "format_str (fmt_kw model modelpath) t = Inr inputfile"
    and "open_read (pjoin (cwd w) inputfile) w = (Inr txt, w1)"
    and "readinput ev txt = Inr mi"
  shows "fst (snd (copy_to_rundir ev tbl model modelpath rundir w))
           = fst (snd (detect_fort56 ev model (add_discovered w1 (dep_names (collect_reqs mi)) tbl) w1))"
  using assms
  by (auto simp: copy_to_rundir_def Let_def split: prod.splits sum.splits)

lemma open_read_same:
  assumes "open_read p w = (r, w1)"
  shows "exists w1 q = exists w q" "cwd w1 = cwd w" "is_file w1 q = is_file w q" "nodes w1 = nodes w"
  using open_read_world [OF assms] by simp_all

lemma add_discovered_log: "add_discovered (log e w) reqs tbl = add_discovered w reqs tbl"
  by (induction reqs arbitrary: tbl) simp_all

lemma link_one_world:
  assumes "link_one model modelpath rundir dst src w = (r, w')"
  shows "cwd w' = cwd w" "locks w' = locks w"
    and "trace w' = trace w \<or> (\<exists>t l. trace w' = trace w @ [Symlinkf t l])"
  using assms
  by (auto simp: link_one_def Let_def split: sum.splits if_splits dest: symlinkf_world)

lemma link_all_world:
  assumes "link_all model modelpath rundir tbl w = (r, w')"
  shows "cwd w' = cwd w \<and> locks w' = locks w
         \<and> (\<exists>ls. trace w' = trace w @ map (\<lambda>(t, l). Symlinkf t l) ls)"
  using assms
proof (induction tbl arbitrary: w)
  case Nil
  then show ?case by simp
next
  case (Cons a tbl)
  obtain dst src where a: "a = (dst, src)" by (cases a)
  obtain r1 w1 where one: "link_one model modelpath rundir dst src w = (r1, w1)"
    by (cases "link_one model modelpath rundir dst src w")
  from link_one_world [OF one]
  obtain l1 where l1: "trace w1 = trace w @ map (\<lambda>(t, l). Symlinkf t l) l1"
    and c1: "cwd w1 = cwd w" "locks w1 = locks w"
  proof -
    assume h: "\<And>l1. trace w1 = trace w @ map (\<lambda>(t, l). Symlinkf t l) l1 \<Longrightarrow>
             cwd w1 = cwd w \<Longrightarrow> locks w1 = locks w \<Longrightarrow> thesis"
    from link_one_world [OF one] show thesis
    proof (elim disjE exE)
      assume "trace w1 = trace w" and "cwd w1 = cwd w" and "locks w1 = locks w"
      then show thesis using h [of "[]"] by simp
    next
      fix t l
      assume "trace w1 = trace w @ [Symlinkf t l]" and "cwd w1 = cwd w" and "locks w1 = locks w"
      then show thesis using h [of "[(t, l)]"] by simp
    qed
  qed
  show ?case
  proof (cases r1)
    case (Inl e)
    with Cons.prems a one have "w' = w1" by simp
    with l1 c1 show ?thesis by blast
  next
    case (Inr u)
    with Cons.prems a one have "link_all model modelpath rundir tbl w1 = (r, w')" by simp
    from Cons.IH [OF this] obtain ls where
      "trace w' = trace w1 @ map (\<lambda>(t, l). Symlinkf t l) ls" "cwd w' = cwd w1" "locks w' = locks w1"
      by blast
    with l1 c1 have "trace w' = trace w @ map (\<lambda>(t, l). Symlinkf t l) (l1 @ ls)"
      "cwd w' = cwd w" "locks w' = locks w"
      by simp_all
    then show ?thesis by blast
  qed
qed

lemma journal_of_links [simp]:
  "spawned (map (\<lambda>(t, l). Symlinkf t l) ls) = []"
  "copied (map (\<lambda>(t, l). Symlinkf t l) ls) = []"
  "mkdirs (map (\<lambda>(t, l). Symlinkf t l) ls) = []"
  "read55_calls (map (\<lambda>(t, l). Symlinkf t l) ls) = []"
  "lock_events (map (\<lambda>(t, l). Symlinkf t l) ls) = []"
  by (induction ls) auto

lemma link_all_journal:
  assumes "link_all model modelpath rundir tbl w = (r, w')"
  shows "spawned (trace w') = spawned (trace w)" "copied (trace w') = copied (trace w)"
    "mkdirs (trace w') = mkdirs (trace w)" "read55_calls (trace w') = read55_calls (trace w)"
    "lock_events (trace w') = lock_events (trace w)"
  using link_all_world [OF assms] by auto

lemma copy_to_rundir_unfold:
  assumes "map_of tbl ''{model}.5'' = Some t"
    and "format_str (fmt_kw model modelpath) t = Inr inputfile"
    and "open_read (pjoin (cwd w) inputfile) w = (Inr txt, w1)"
    and "readinput ev txt = Inr mi"
  shows "copy_to_rundir ev tbl model modelpath rundir w
           = (case detect_fort56 ev model (add_discovered w1 (dep_names (collect_reqs mi)) tbl) w1 of
                (Inl e, tbl2, w2) \<Rightarrow> (Inl e, tbl2, w2)
              | (Inr u, tbl2, w2) \<Rightarrow>
                  (case link_all model modelpath rundir tbl2 w2 of (r, w3) \<Rightarrow> (r, tbl2, w3)))"
  using assms by (simp add: copy_to_rundir_def Let_def)

section \<open>What each phase of a run leaves unchanged\<close>

lemma stages_refl: "stages w w"
  by (auto simp: stages_def staging_only_def)

lemma stages_log_read [simp]: "stages w (log (OpenRead p) w)" "stages w (log (Read55f f) w)"
  by (auto simp: stages_def staging_only_def)

lemma stages_trans:
  assumes "stages w w1" and "stages w1 w2"
  shows "stages w w2"
proof -
  from assms(1) obtain es1 where 1: "trace w1 = trace w @ es1" "staging_only es1"
    "\<forall>p. p \<notin> set (placed es1) \<longrightarrow> map_of (nodes w1) p = map_of (nodes w) p"
    "cwd w1 = cwd w" "locks w1 = locks w"
    by (auto simp: stages_def)
  from assms(2) obtain es2 where 2: "trace w2 = trace w1 @ es2" "staging_only es2"
    "\<forall>p. p \<notin> set (placed es2) \<longrightarrow> map_of (nodes w2) p = map_of (nodes w1) p"
    "cwd w2 = cwd w1" "locks w2 = locks w1"
    by (auto simp: stages_def)
  have "trace w2 = trace w @ (es1 @ es2)" using 1(1) 2(1) by simp
  moreover have "staging_only (es1 @ es2)" using 1(2) 2(2) by (simp add: staging_only_def)
  moreover have "\<forall>p. p \<notin> set (placed (es1 @ es2)) \<longrightarrow> map_of (nodes w2) p = map_of (nodes w) p"
    using 1(3) 2(3) by simp
  ultimately show ?thesis
    unfolding stages_def using 1(4,5) 2(4,5)
    by (intro conjI exI [of _ "es1 @ es2"]) simp_all
qed

lemma stages_journal:
  assumes "stages w w'"
  shows "spawned (trace w') = spawned (trace w)" "copied (trace w') = copied (trace w)"
    "mkdirs (trace w') = mkdirs (trace w)" "lock_events (trace w') = lock_events (trace w)"
    "cwd w' = cwd w" "locks w' = locks w" "prefix (trace w) (trace w')"
    "unlinked (trace w') = unlinked (trace w)"
  using assms by (auto simp: stages_def staging_only_def)

lemma stages_node:
  assumes "stages w w'" and "p \<notin> set (placed (trace w'))"
  shows "map_of (nodes w') p = map_of (nodes w) p" "p \<notin> set (placed (trace w))"
  using assms by (auto simp: stages_def)

lemma stages_symlinkf:
  assumes "symlinkf t l w = (r, w')"
  shows "stages w w'"
  unfolding stages_def
  using symlinkf_world [OF assms]
  by (intro conjI exI [of _ "[Symlinkf t l]"]) (auto simp: staging_only_def)

lemma stages_open_read:
  assumes "open_read p w = (r, w')"
  shows "stages w w'"
  using open_read_world [OF assms] by simp

lemma stages_open_write:
  assumes "open_write p c w = (r, w')"
  shows "stages w w'"
  unfolding stages_def
  using open_write_world [OF assms]
  by (intro conjI exI [of _ "[OpenWrite p (resolve_path w p)]"]) (auto simp: staging_only_def)

lemma stages_call_read55f:
  assumes "call_read55f ev f w = (r, w')"
  shows "stages w w'"
  using call_read55f_world [OF assms]
  by (auto intro: stages_trans [of w "log (Read55f f) w"])

lemma stages_link_one:
  assumes "link_one model modelpath rundir dst src w = (r, w')"
  shows "stages w w'"
  using assms
  by (auto simp: link_one_def Let_def stages_refl split: sum.splits if_splits intro: stages_symlinkf)

lemma stages_link_all:
  assumes "link_all model modelpath rundir tbl w = (r, w')"
  shows "stages w w'"
  using assms
proof (induction tbl arbitrary: w)
  case Nil
  then show ?case by (simp add: stages_refl)
next
  case (Cons a tbl)
  obtain dst src where a: "a = (dst, src)" by (cases a)
  obtain r1 w1 where one: "link_one model modelpath rundir dst src w = (r1, w1)"
    by (cases "link_one model modelpath rundir dst src w")
  show ?case
  proof (cases r1)
    case (Inl e)
    with Cons.prems a one have "w' = w1" by simp
    with stages_link_one [OF one] show ?thesis by simp
  next
    case (Inr u)
    with Cons.prems a one have "link_all model modelpath rundir tbl w1 = (r, w')" by simp
    from stages_trans [OF stages_link_one [OF one] Cons.IH [OF this]] show ?thesis .
  qed
qed

lemma stages_detect_fort56:
  assumes "detect_fort56 ev model tbl w = (r, tbl', w')"
  shows "stages w w'"
  using assms
  by (auto simp: detect_fort56_def stages_refl split: if_splits option.splits sum.splits prod.splits
        intro: stages_call_read55f)

lemma stages_copy_to_rundir:
  assumes "copy_to_rundir ev tbl model modelpath rundir w = (r, tbl', w')"
  shows "stages w w'"
proof (cases "map_of tbl ''{model}.5''")
  case None
  with assms show ?thesis by (simp add: copy_to_rundir_def stages_refl)
next
  case (Some t)
  show ?thesis
  proof (cases "format_str (fmt_kw model modelpath) t")
    case (Inl e)
    with Some assms show ?thesis by (simp add: copy_to_rundir_def stages_refl)
  next
    case (Inr inputfile)
    obtain r1 w1 where o: "open_read (pjoin (cwd w) inputfile) w = (r1, w1)"
      by (cases "open_read (pjoin (cwd w) inputfile) w")
    note s1 = stages_open_read [OF o]
    show ?thesis
    proof (cases r1)
      case (Inl e)
      with Some Inr o assms have "w' = w1" by (simp add: copy_to_rundir_def)
      with s1 show ?thesis by simp
    next
      case rinp: (Inr inp)
      show ?thesis
      proof (cases "readinput ev inp")
        case (Inl e)
        with Some Inr o rinp assms have "w' = w1" by (simp add: copy_to_rundir_def)
        with s1 show ?thesis by simp
      next
        case mi: (Inr mi)
        let ?tbl1 = "add_discovered w1 (dep_names (collect_reqs mi)) tbl"
        obtain r2 tbl2 w2 where d: "detect_fort56 ev model ?tbl1 w1 = (r2, tbl2, w2)"
          by (cases "detect_fort56 ev model ?tbl1 w1")
        note s2 = stages_trans [OF s1 stages_detect_fort56 [OF d]]
        from o rinp have o': "open_read (pjoin (cwd w) inputfile) w = (Inr inp, w1)" by simp
        note unf = copy_to_rundir_unfold [OF Some Inr o' mi, of rundir]
        show ?thesis
        proof (cases r2)
          case (Inl e)
          with unf d assms have "w' = w2" by simp
          with s2 show ?thesis by simp
        next
          case (Inr u)
          obtain r3 w3 where l: "link_all model modelpath rundir tbl2 w2 = (r3, w3)"
            by (cases "link_all model modelpath rundir tbl2 w2")
          with unf d Inr assms have "w' = w3" by simp
          with stages_trans [OF s2 stages_link_all [OF l]] show ?thesis by simp
        qed
      qed
    qed
  qed
qed

lemma check_files_world: "snd (check_files model rundir w) = w"
  by (simp add: check_files_def)

subsection \<open>Cleaning up\<close>

lemma chase_non_link_fuel:
  assumes "\<forall>t. node_at ns p \<noteq> Some (Link t)" and "n \<noteq> 0"
  shows "chase ns n p = Some p"
  using assms by (cases n) (auto split: option.splits node.splits)

lemma chase_non_link:
  assumes "\<forall>t. node_at ns p \<noteq> Some (Link t)"
  shows "chase ns 40 p = Some p"
  using assms by (intro chase_non_link_fuel) simp_all

lemma is_file_node:
  assumes "is_file w p"
  shows "(\<exists>c. node_at (nodes w) p = Some (File c)) \<or> (\<exists>t. node_at (nodes w) p = Some (Link t))"
proof (rule ccontr)
  assume n: "\<not> ?thesis"
  then have "\<forall>t. node_at (nodes w) p \<noteq> Some (Link t)" by blast
  then have "chase (nodes w) 40 p = Some p" by (rule chase_non_link)
  with assms n show False
    by (auto simp: is_file_def stat_def split: option.splits node.splits)
qed

lemma file_node_is_file:
  assumes "node_at (nodes w) p = Some (File c)"
  shows "is_file w p"
proof -
  from assms have "chase (nodes w) 40 p = Some p" by (intro chase_non_link) simp
  with assms show ?thesis by (simp add: is_file_def stat_def)
qed

lemma not_file_node:
  assumes "node_at (nodes w) p = None \<or> node_at (nodes w) p = Some Dir"
  shows "\<not> is_file w p"
proof -
  from assms have "chase (nodes w) 40 p = Some p" by (intro chase_non_link) auto
  with assms show ?thesis by (auto simp: is_file_def stat_def)
qed

lemma remove_loop_world:
  assumes "remove_loop outdir outfile exts w = (r, w')"
  shows "r = Inr () \<and> cwd w' = cwd w \<and> locks w' = locks w
         \<and> (\<exists>ps. trace w' = trace w @ map Unlink ps)
         \<and> (\<forall>k. map_of (nodes w') k = None \<or> map_of (nodes w') k = map_of (nodes w) k)"
  using assms
proof (induction exts arbitrary: w)
  case Nil
  then show ?case by simp
next
  case (Cons ext exts)
  let ?f = "pjoin outdir (outfile @ ''.'' @ ext)"
  show ?case
  proof (cases "is_file w ?f")
    case False
    with Cons.prems have "remove_loop outdir outfile exts w = (r, w')" by (simp add: Let_def)
    from Cons.IH [OF this] show ?thesis .
  next
    case True
    obtain r1 w1 where u: "unlink ?f w = (r1, w1)" by (cases "unlink ?f w")
    from is_file_node [OF True] have "fst (unlink ?f w) = Inr ()"
      by (auto intro: unlink_ok)
    with u have r1: "r1 = Inr ()" by simp
    with True u Cons.prems have "remove_loop outdir outfile exts w1 = (r, w')"
      by (simp add: Let_def)
    from Cons.IH [OF this] obtain ps where
      ih: "r = Inr ()" "cwd w' = cwd w1" "locks w' = locks w1" "trace w' = trace w1 @ map Unlink ps"
        "\<forall>k. map_of (nodes w') k = None \<or> map_of (nodes w') k = map_of (nodes w1) k"
      by blast
    from unlink_world [OF u] ih have "trace w' = trace w @ map Unlink (?f # ps)"
      "cwd w' = cwd w" "locks w' = locks w"
      "\<forall>k. map_of (nodes w') k = None \<or> map_of (nodes w') k = map_of (nodes w) k"
      by (simp_all, metis)
    with ih(1) show ?thesis by blast
  qed
qed

lemma journal_of_unlinks [simp]:
  "spawned (map Unlink ps) = []" "copied (map Unlink ps) = []" "mkdirs (map Unlink ps) = []"
  "read55_calls (map Unlink ps) = []" "lock_events (map Unlink ps) = []"
  "symlinked (map Unlink ps) = []" "placed (map Unlink ps) = []"
  by (induction ps) auto

lemma remove_potential_outfiles_world:
  assumes "remove_potential_outfiles model outdir outfile w = (r, w')"
  shows "r = Inr ()" "cwd w' = cwd w" "locks w' = locks w"
    "spawned (trace w') = spawned (trace w)" "copied (trace w') = copied (trace w)"
    "mkdirs (trace w') = mkdirs (trace w)" "lock_events (trace w') = lock_events (trace w)"
    "placed (trace w') = placed (trace w)" "prefix (trace w) (trace w')"
    "map_of (nodes w') k = None \<or> map_of (nodes w') k = map_of (nodes w) k"
proof -
  have "r = Inr () \<and> cwd w' = cwd w \<and> locks w' = locks w
         \<and> (\<exists>ps. trace w' = trace w @ map Unlink ps)
         \<and> (\<forall>k. map_of (nodes w') k = None \<or> map_of (nodes w') k = map_of (nodes w) k)"
  proof (cases "is_dir w outdir")
    case True
    with assms show ?thesis
      by (intro remove_loop_world [of outdir outfile "[''spec'', ''iden'', ''eqws'', ''cont'']"])
         (simp add: remove_potential_outfiles_def)
  next
    case False
    with assms have "r = Inr ()" "w' = w" by (simp_all add: remove_potential_outfiles_def)
    then show ?thesis by (auto intro: exI [of _ "[]"])
  qed
  then obtain ps where "r = Inr ()" "cwd w' = cwd w" "locks w' = locks w"
    "trace w' = trace w @ map Unlink ps"
    "\<forall>k. map_of (nodes w') k = None \<or> map_of (nodes w') k = map_of (nodes w) k"
    by blast
  then show "r = Inr ()" "cwd w' = cwd w" "locks w' = locks w"
    "spawned (trace w') = spawned (trace w)" "copied (trace w') = copied (trace w)"
    "mkdirs (trace w') = mkdirs (trace w)" "lock_events (trace w') = lock_events (trace w)"
    "placed (trace w') = placed (trace w)" "prefix (trace w) (trace w')"
    "map_of (nodes w') k = None \<or> map_of (nodes w') k = map_of (nodes w) k"
    by simp_all
qed

section \<open>The body of a run\<close>

lemma format_check_names:
  "format_str [(''model'', m)] ''fort.19'' = Inr ''fort.19''"
  "format_str [(''model'', m)] ''fort.55'' = Inr ''fort.55''"
  "format_str [(''model'', m)] ''{model}.5'' = Inr (m @ ''.5'')"
  "format_str [(''model'', m)] ''{model}.7'' = Inr (m @ ''.7'')"
  by (simp_all add: format_str_def emit_def plain_field_def index_field_def)

lemma path_str_absolute: "is_absolute (path_str p)"
  by (cases p) (simp_all add: path_str_def is_absolute_def)

lemma check_files_find:
  "check_files model rundir w
     = (case find (\<lambda>f. \<not> exists w (pjoin rundir f))
               [''fort.19'', ''fort.55'', model @ ''.5'', model @ ''.7''] of
          None \<Rightarrow> Inr ()
        | Some f \<Rightarrow> Inl (FileNotFoundError (path_str (pjoin rundir f) @ '' not found'')), w)"
  by (simp add: check_files_def required_files_def format_check_names Let_def)

lemma run_body_staged:
  assumes "remove_potential_outfiles model outdir outfile w = (r1, w1)"
    and "copy_to_rundir ev (linkfiles s) model modelpath rundir w1 = (Inr (), tbl, w2)"
  shows "run_body ev s model modelpath rundir outdir outfile w
           = (case check_files model rundir w2 of
                (Inl e, w3) \<Rightarrow> (Inl e, s\<lparr>linkfiles := tbl\<rparr>, w3)
              | (Inr u, w3) \<Rightarrow>
                  (case run_solver ev (s\<lparr>linkfiles := tbl\<rparr>) model rundir w3 of
                     (Inl e, w4) \<Rightarrow> (Inl e, s\<lparr>linkfiles := tbl\<rparr>, w4)
                   | (Inr u, w4) \<Rightarrow>
                       (case extract_outfiles model rundir outdir outfile w4 of
                          (r, w5) \<Rightarrow> (r, s\<lparr>linkfiles := tbl\<rparr>, w5))))"
  using assms remove_potential_outfiles_world(1) [OF assms(1)]
  by (simp add: run_body_def)

lemma run_solver_cases:
  assumes "run_solver ev s model rundir w = (r, w')"
  shows "(stages w w' \<and> r \<noteq> Inr () \<and> (\<forall>c. r \<noteq> Inl (CalledProcessError c)))
       \<or> (\<exists>w3 inp. stages w w3
            \<and> subprocess_run ev \<lparr>argv = [synspec s],
                                  stdin_file = pjoin rundir (model @ ''.5''),
                                  stdout_file = pjoin rundir ''fort.log'',
                                  stderr_file = None,
                                  spawn_cwd = rundir\<rparr> inp w3 = (r, w'))"
proof -
  obtain r1 w1 where l: "symlinkf (model @ ''.7'') (pjoin rundir ''fort.8'') w = (r1, w1)"
    by (cases "symlinkf (model @ ''.7'') (pjoin rundir ''fort.8'') w")
  note s1 = stages_symlinkf [OF l]
  show ?thesis
  proof (cases r1)
    case (Inl e)
    with l assms have "w' = w1" "r = Inl e" by (simp_all add: run_solver_def)
    moreover from l Inl have "\<forall>c. e \<noteq> CalledProcessError c"
      by (auto simp: symlinkf_def Let_def split: if_splits)
    ultimately show ?thesis using s1 by auto
  next
    case (Inr u)
    obtain r2 w2 where o: "open_read (pjoin rundir (model @ ''.5'')) w1 = (r2, w2)"
      by (cases "open_read (pjoin rundir (model @ ''.5'')) w1")
    note s2 = stages_trans [OF s1 stages_open_read [OF o]]
    show ?thesis
    proof (cases r2)
      case (Inl e)
      with l Inr o assms have "w' = w2" "r = Inl e" by (simp_all add: run_solver_def)
      moreover from o Inl have "\<forall>c. e \<noteq> CalledProcessError c"
        by (auto simp: open_read_def Let_def split: option.splits node.splits)
      ultimately show ?thesis using s2 by auto
    next
      case inp: (Inr inp)
      obtain r3 w3 where g: "open_write (pjoin rundir ''fort.log'') [] w2 = (r3, w3)"
        by (cases "open_write (pjoin rundir ''fort.log'') [] w2")
      note s3 = stages_trans [OF s2 stages_open_write [OF g]]
      show ?thesis
      proof (cases r3)
        case (Inl e)
        with l Inr o inp g assms have "w' = w3" "r = Inl e" by (simp_all add: run_solver_def)
        moreover from g Inl have "\<forall>c. e \<noteq> CalledProcessError c"
          by (auto simp: open_write_def Let_def split: option.splits if_splits)
        ultimately show ?thesis using s3 by auto
      next
        case u3: (Inr u3)
        with l Inr o inp g assms have "subprocess_run ev \<lparr>argv = [synspec s],
                                  stdin_file = pjoin rundir (model @ ''.5''),
                                  stdout_file = pjoin rundir ''fort.log'',
                                  stderr_file = None,
                                  spawn_cwd = rundir\<rparr> inp w3 = (r, w')"
          by (simp add: run_solver_def)
        with s3 show ?thesis by blast
      qed
    qed
  qed
qed

lemma run_solver_journal:
  assumes "run_solver ev s model rundir w = (r, w')"
  shows "copied (trace w') = copied (trace w)" "mkdirs (trace w') = mkdirs (trace w)"
    "lock_events (trace w') = lock_events (trace w)" "cwd w' = cwd w" "locks w' = locks w"
    "prefix (trace w) (trace w')"
proof -
  have "copied (trace w') = copied (trace w) \<and> mkdirs (trace w') = mkdirs (trace w)
      \<and> lock_events (trace w') = lock_events (trace w) \<and> cwd w' = cwd w \<and> locks w' = locks w
      \<and> prefix (trace w) (trace w')"
    using run_solver_cases [OF assms]
  proof (elim disjE conjE exE)
    assume "stages w w'"
    from stages_journal [OF this] show ?thesis by simp
  next
    fix w3 inp
    assume st: "stages w w3"
      and sp: "subprocess_run ev \<lparr>argv = [synspec s],
                                  stdin_file = pjoin rundir (model @ ''.5''),
                                  stdout_file = pjoin rundir ''fort.log'',
                                  stderr_file = None,
                                  spawn_cwd = rundir\<rparr> inp w3 = (r, w')"
    from stages_journal [OF st] subprocess_run_world(1-3) [OF sp] show ?thesis
      by (auto simp: prefix_def)
  qed
  then show "copied (trace w') = copied (trace w)" "mkdirs (trace w') = mkdirs (trace w)"
    "lock_events (trace w') = lock_events (trace w)" "cwd w' = cwd w" "locks w' = locks w"
    "prefix (trace w) (trace w')"
    by simp_all
qed

lemma copy_loop_world:
  assumes "copy_loop rundir outdir outfile us w = (r, w')"
  shows "cwd w' = cwd w \<and> locks w' = locks w
       \<and> (\<exists>n. trace w' = trace w @ map (\<lambda>(unit, ext). Copyfile (pjoin rundir (''fort.'' @ unit))
                                              (pjoin outdir (outfile @ ''.'' @ ext))) (take n us)
              \<and> (r = Inr () \<longrightarrow> n = length us))"
  using assms
proof (induction us arbitrary: w)
  case Nil
  then show ?case by simp
next
  case (Cons a us)
  obtain unit ext where a: "a = (unit, ext)" by (cases a)
  let ?src = "pjoin rundir (''fort.'' @ unit)" and ?dst = "pjoin outdir (outfile @ ''.'' @ ext)"
  obtain r1 w1 where c: "copyfile ?src ?dst w = (r1, w1)" by (cases "copyfile ?src ?dst w")
  note cw = copyfile_world [OF c]
  show ?case
  proof (cases r1)
    case (Inl e)
    with Cons.prems a c have "w' = w1" "r = Inl e" by simp_all
    with cw a show ?thesis by (auto intro!: exI [of _ "Suc 0"])
  next
    case (Inr u)
    with Cons.prems a c have "copy_loop rundir outdir outfile us w1 = (r, w')" by simp
    from Cons.IH [OF this] obtain n where
      "cwd w' = cwd w1" "locks w' = locks w1"
      "trace w' = trace w1 @ map (\<lambda>(unit, ext). Copyfile (pjoin rundir (''fort.'' @ unit))
                                              (pjoin outdir (outfile @ ''.'' @ ext))) (take n us)"
      "r = Inr () \<longrightarrow> n = length us"
      by blast
    with cw a show ?thesis by (auto intro!: exI [of _ "Suc n"])
  qed
qed

lemma extract_outfiles_world:
  assumes "extract_outfiles model rundir outdir outfile w = (r, w')"
  shows "cwd w' = cwd w" "locks w' = locks w"
    "mkdirs (trace w') = mkdirs (trace w) @ [outdir]"
    "spawned (trace w') = spawned (trace w)"
    "lock_events (trace w') = lock_events (trace w)"
    "\<exists>n. copied (trace w')
           = copied (trace w) @ take n
               [(pjoin rundir ''fort.7'', pjoin outdir (outfile @ ''.spec'')),
                (pjoin rundir ''fort.12'', pjoin outdir (outfile @ ''.iden'')),
                (pjoin rundir ''fort.16'', pjoin outdir (outfile @ ''.eqws'')),
                (pjoin rundir ''fort.17'', pjoin outdir (outfile @ ''.cont'')),
                (pjoin rundir ''fort.log'', pjoin outdir (outfile @ ''.log''))]
         \<and> (r = Inr () \<longrightarrow> n = 5)"
proof -
  let ?us = "[(''7'', ''spec''), (''12'', ''iden''), (''16'', ''eqws''), (''17'', ''cont'')]"
  let ?five = "[(pjoin rundir ''fort.7'', pjoin outdir (outfile @ ''.spec'')),
                (pjoin rundir ''fort.12'', pjoin outdir (outfile @ ''.iden'')),
                (pjoin rundir ''fort.16'', pjoin outdir (outfile @ ''.eqws'')),
                (pjoin rundir ''fort.17'', pjoin outdir (outfile @ ''.cont'')),
                (pjoin rundir ''fort.log'', pjoin outdir (outfile @ ''.log''))]"
  obtain r1 w1 where m: "mkdir outdir w = (r1, w1)" by (cases "mkdir outdir w")
  note mw = mkdir_world(1-3) [OF m]
  have all: "cwd w' = cwd w \<and> locks w' = locks w
    \<and> (\<exists>n. trace w' = trace w @ Mkdir outdir # map (\<lambda>(a, b). Copyfile a b) (take n ?five)
           \<and> (r = Inr () \<longrightarrow> n = 5))"
  proof (cases r1)
    case (Inl e)
    with m assms have "w' = w1" "r = Inl e" by (simp_all add: extract_outfiles_def)
    with mw show ?thesis by (auto intro!: exI [of _ 0])
  next
    case (Inr u)
    obtain r2 w2 where l: "copy_loop rundir outdir outfile ?us w1 = (r2, w2)"
      by (cases "copy_loop rundir outdir outfile ?us w1")
    from copy_loop_world [OF l] obtain n where n:
      "cwd w2 = cwd w1" "locks w2 = locks w1"
      "trace w2 = trace w1 @ map (\<lambda>(unit, ext). Copyfile (pjoin rundir (''fort.'' @ unit))
                                              (pjoin outdir (outfile @ ''.'' @ ext))) (take n ?us)"
      "r2 = Inr () \<longrightarrow> n = length ?us"
      by blast
    have tk: "map (\<lambda>(unit, ext). Copyfile (pjoin rundir (''fort.'' @ unit))
                                              (pjoin outdir (outfile @ ''.'' @ ext))) (take n ?us)
              = map (\<lambda>(a, b). Copyfile a b) (take (min n 4) ?five)"
      by (cases n rule: nat.exhaust; simp; cases "n - 1" rule: nat.exhaust; simp;
          cases "n - 2" rule: nat.exhaust; simp; cases "n - 3" rule: nat.exhaust; simp)
    show ?thesis
    proof (cases r2)
      case (Inl e)
      with m Inr l assms have "w' = w2" "r = Inl e" by (simp_all add: extract_outfiles_def)
      with mw n tk show ?thesis by (auto intro!: exI [of _ "min n 4"])
    next
      case u2: (Inr u2)
      with n have n4: "n = 4" by simp
      obtain r3 w3 where c: "copyfile (pjoin rundir ''fort.log'') (pjoin outdir (outfile @ ''.log'')) w2 = (r3, w3)"
        by (cases "copyfile (pjoin rundir ''fort.log'') (pjoin outdir (outfile @ ''.log'')) w2")
      with m Inr l u2 assms have "w' = w3" "r = r3" by (simp_all add: extract_outfiles_def)
      with mw n n4 copyfile_world [OF c] show ?thesis
        by (auto intro!: exI [of _ 5])
    qed
  qed
  then obtain n where n: "trace w' = trace w @ Mkdir outdir # map (\<lambda>(a, b). Copyfile a b) (take n ?five)"
    "r = Inr () \<longrightarrow> n = 5" and c: "cwd w' = cwd w" "locks w' = locks w"
    by blast
  have j: "\<And>ps. copied (map (\<lambda>(a, b). Copyfile a b) ps) = ps
             \<and> mkdirs (map (\<lambda>(a, b). Copyfile a b) ps) = []
             \<and> spawned (map (\<lambda>(a, b). Copyfile a b) ps) = []
             \<and> lock_events (map (\<lambda>(a, b). Copyfile a b) ps) = []"
  proof -
    fix ps :: "(path \<times> path) list"
    show "copied (map (\<lambda>(a, b). Copyfile a b) ps) = ps
             \<and> mkdirs (map (\<lambda>(a, b). Copyfile a b) ps) = []
             \<and> spawned (map (\<lambda>(a, b). Copyfile a b) ps) = []
             \<and> lock_events (map (\<lambda>(a, b). Copyfile a b) ps) = []"
      by (induction ps) auto
  qed
  from c show "cwd w' = cwd w" "locks w' = locks w" by simp_all
  from n(1) j show "mkdirs (trace w') = mkdirs (trace w) @ [outdir]"
    "spawned (trace w') = spawned (trace w)" "lock_events (trace w') = lock_events (trace w)"
    by simp_all
  from n j show "\<exists>n. copied (trace w') = copied (trace w) @ take n ?five \<and> (r = Inr () \<longrightarrow> n = 5)"
    by (intro exI [of _ n]) simp
qed

section \<open>The link table through a run\<close>

lemma add_discovered_grows:
  "map_of tbl k = Some v \<Longrightarrow> map_of (add_discovered w reqs tbl) k = Some v"
  "map_of (add_discovered w reqs tbl) k = Some v \<Longrightarrow> map_of tbl k = Some v \<or> v = k"
  by (auto simp: add_discovered_map_of map_of_eq_None_iff [symmetric] split: if_splits)

lemma detect_fort56_grows:
  assumes "detect_fort56 ev model tbl w = (r, tbl', w')"
  shows "map_of tbl k = Some v \<Longrightarrow> map_of tbl' k = Some v"
    and "map_of tbl' k = Some v \<Longrightarrow> map_of tbl k = Some v \<or> v = k"
proof -
  have "tbl' = tbl \<or> (''fort.56'' \<notin> fst ` set tbl \<and> tbl' = AList.update ''fort.56'' ''fort.56'' tbl)"
    using assms
    by (auto simp: detect_fort56_def split: if_splits option.splits sum.splits prod.splits)
  then show "map_of tbl k = Some v \<Longrightarrow> map_of tbl' k = Some v"
    and "map_of tbl' k = Some v \<Longrightarrow> map_of tbl k = Some v \<or> v = k"
    by (auto simp: update_conv' map_of_eq_None_iff [symmetric] split: if_splits)
qed

lemma copy_to_rundir_grows:
  assumes "copy_to_rundir ev tbl model modelpath rundir w = (r, tbl', w')"
  shows "map_of tbl k = Some v \<Longrightarrow> map_of tbl' k = Some v"
    and "map_of tbl' k = Some v \<Longrightarrow> map_of tbl k = Some v \<or> v = k"
proof -
  have "tbl' = tbl \<or> (\<exists>w1 mi r2 w2. detect_fort56 ev model (add_discovered w1 (dep_names (collect_reqs mi)) tbl) w1
                          = (r2, tbl', w2))"
    using assms
    by (auto simp: copy_to_rundir_def Let_def split: option.splits sum.splits prod.splits)
  then show "map_of tbl k = Some v \<Longrightarrow> map_of tbl' k = Some v"
    and "map_of tbl' k = Some v \<Longrightarrow> map_of tbl k = Some v \<or> v = k"
    by (auto dest: detect_fort56_grows add_discovered_grows)
qed

lemma run_body_table:
  assumes "run_body ev s model modelpath rundir outdir outfile w = (r, s', w')"
  shows "\<exists>w1 r2 w2. copy_to_rundir ev (linkfiles s) model modelpath rundir w1 = (r2, linkfiles s', w2)
                    \<and> s' = s\<lparr>linkfiles := linkfiles s'\<rparr>"
proof -
  obtain r1 w1 where c: "remove_potential_outfiles model outdir outfile w = (r1, w1)"
    by (cases "remove_potential_outfiles model outdir outfile w")
  from remove_potential_outfiles_world(1) [OF c] have r1: "r1 = Inr ()" .
  obtain r2 tbl w2 where st: "copy_to_rundir ev (linkfiles s) model modelpath rundir w1 = (r2, tbl, w2)"
    by (cases "copy_to_rundir ev (linkfiles s) model modelpath rundir w1")
  from assms c r1 st have "s' = s\<lparr>linkfiles := tbl\<rparr>"
    by (auto simp: run_body_def split: sum.splits prod.splits)
  with st show ?thesis by auto
qed

lemma run_enters_body:
  assumes "run ev s model rundir outdir outfile w = (r, s', w')"
  shows "s' = s
       \<or> (\<exists>rd od ofile v v'. run_body ev s (path_name (resolve w model)) (resolve w model) rd od ofile v
                                = (r, s', v'))"
proof (cases rundir)
  case None
  with assms show ?thesis
    by (auto simp: run_def tempdir_def Let_def split: if_splits prod.splits)
next
  case (Some d)
  with assms show ?thesis
    by (auto simp: run_def folderlock_def Let_def split: if_splits prod.splits sum.splits)
qed

section \<open>Cleaning up before a run, and a run that fails\<close>

lemma chase_shrinks:
  assumes "\<forall>k. map_of ns' k = None \<or> map_of ns' k = map_of ns k"
    and "chase ns' n p = Some q"
    and "node_at ns' q = Some (File c)"
  shows "chase ns n p = Some q \<and> node_at ns q = Some (File c)"
  using assms(2,3)
proof (induction n arbitrary: p)
  case 0
  then show ?case by simp
next
  case (Suc n)
  from assms(1) have sub: "node_at ns' p = None \<or> node_at ns' p = node_at ns p"
    by (auto simp: node_at_def)
  show ?case
  proof (cases "node_at ns' p")
    case None
    with Suc.prems show ?thesis by simp
  next
    case (Some a)
    with sub have same: "node_at ns p = Some a" by simp
    show ?thesis
    proof (cases a)
      case (Link t)
      with Some same Suc.prems Suc.IH [of "pjoin (butlast p) t"] show ?thesis by simp
    qed (use Some same Suc.prems in auto)
  qed
qed

lemma not_file_shrinks:
  assumes "\<forall>k. map_of (nodes w') k = None \<or> map_of (nodes w') k = map_of (nodes w) k"
    and "\<not> is_file w p"
  shows "\<not> is_file w' p"
proof
  assume "is_file w' p"
  then obtain q c where "chase (nodes w') 40 p = Some q" "node_at (nodes w') q = Some (File c)"
    by (auto simp: is_file_def stat_def split: option.splits node.splits)
  from chase_shrinks [OF assms(1) this] assms(2) show False
    by (simp add: is_file_def stat_def)
qed

lemma remove_loop_not_file:
  assumes "remove_loop outdir outfile exts w = (r, w')"
    and "ext \<in> set exts"
  shows "\<not> is_file w' (pjoin outdir (outfile @ ''.'' @ ext))"
  using assms
proof (induction exts arbitrary: w)
  case Nil
  then show ?case by simp
next
  case (Cons e exts)
  let ?p = "pjoin outdir (outfile @ ''.'' @ ext)"
  let ?f = "pjoin outdir (outfile @ ''.'' @ e)"
  show ?case
  proof (cases "is_file w ?f")
    case True
    obtain r1 w1 where u: "unlink ?f w = (r1, w1)" by (cases "unlink ?f w")
    from is_file_node [OF True] have "fst (unlink ?f w) = Inr ()" by (auto intro: unlink_ok)
    with u have r1: "r1 = Inr ()" by simp
    with True u Cons.prems(1) have rest: "remove_loop outdir outfile exts w1 = (r, w')"
      by (simp add: Let_def)
    show ?thesis
    proof (cases "e = ext")
      case True
      have "node_at (nodes w1) ?f = None"
        using unlink_world(4) [OF u, of ?f] r1 \<open>is_file w ?f\<close>
        by (auto simp: node_at_def dest: is_file_node)
      with True have "\<not> is_file w1 ?p" by (intro not_file_node) simp
      with remove_loop_world [OF rest] show ?thesis by (intro not_file_shrinks [of w' w1]) simp_all
    next
      case False
      with Cons.prems(2) have "ext \<in> set exts" by simp
      from Cons.IH [OF rest this] show ?thesis .
    qed
  next
    case nf: False
    with Cons.prems(1) have rest: "remove_loop outdir outfile exts w = (r, w')"
      by (simp add: Let_def)
    show ?thesis
    proof (cases "e = ext")
      case True
      with nf have "\<not> is_file w ?p" by simp
      with remove_loop_world [OF rest] show ?thesis by (intro not_file_shrinks [of w' w]) simp_all
    next
      case False
      with Cons.prems(2) have "ext \<in> set exts" by simp
      from Cons.IH [OF rest this] show ?thesis .
    qed
  qed
qed

lemma remove_loop_unlinked:
  assumes "remove_loop outdir outfile exts w = (r, w')"
  shows "set (unlinked (trace w')) \<subseteq>
           set (unlinked (trace w)) \<union> (\<lambda>e. pjoin outdir (outfile @ ''.'' @ e)) ` set exts"
  using assms
proof (induction exts arbitrary: w)
  case Nil
  then show ?case by simp
next
  case (Cons e exts)
  let ?f = "pjoin outdir (outfile @ ''.'' @ e)"
  show ?case
  proof (cases "is_file w ?f")
    case True
    obtain r1 w1 where u: "unlink ?f w = (r1, w1)" by (cases "unlink ?f w")
    from is_file_node [OF True] have "fst (unlink ?f w) = Inr ()" by (auto intro: unlink_ok)
    with u have r1: "r1 = Inr ()" by simp
    with True u Cons.prems(1) have rest: "remove_loop outdir outfile exts w1 = (r, w')"
      by (simp add: Let_def)
    from Cons.IH [OF rest] unlink_world(1) [OF u] show ?thesis by auto
  next
    case False
    with Cons.prems(1) have rest: "remove_loop outdir outfile exts w = (r, w')"
      by (simp add: Let_def)
    from Cons.IH [OF rest] show ?thesis by auto
  qed
qed

lemma cleanup_not_file:
  assumes "remove_potential_outfiles model outdir outfile w = (r, w')"
    and "ext \<in> set [''spec'', ''iden'', ''eqws'', ''cont'']"
    and "is_dir w outdir \<or> node_at (nodes w) (pjoin outdir (outfile @ ''.'' @ ext)) = None"
  shows "\<not> is_file w' (pjoin outdir (outfile @ ''.'' @ ext))"
proof (cases "is_dir w outdir")
  case True
  with assms(1) have "remove_loop outdir outfile [''spec'', ''iden'', ''eqws'', ''cont''] w = (r, w')"
    by (simp add: remove_potential_outfiles_def)
  from remove_loop_not_file [OF this assms(2)] show ?thesis .
next
  case False
  with assms(1,3) have "w' = w" "node_at (nodes w) (pjoin outdir (outfile @ ''.'' @ ext)) = None"
    by (auto simp: remove_potential_outfiles_def)
  then show ?thesis by (intro not_file_node) simp
qed

lemma cleanup_node:
  assumes "remove_potential_outfiles model outdir outfile w = (r, w')"
    and "ext \<in> set [''spec'', ''iden'', ''eqws'', ''cont'']"
    and "is_dir w outdir \<or> node_at (nodes w) (pjoin outdir (outfile @ ''.'' @ ext)) = None"
  shows "node_at (nodes w') (pjoin outdir (outfile @ ''.'' @ ext)) = None
       \<or> node_at (nodes w') (pjoin outdir (outfile @ ''.'' @ ext)) = Some Dir
       \<or> (\<exists>t. node_at (nodes w') (pjoin outdir (outfile @ ''.'' @ ext)) = Some (Link t))"
proof -
  let ?p = "pjoin outdir (outfile @ ''.'' @ ext)"
  from cleanup_not_file [OF assms] have "\<not> is_file w' ?p" .
  then have "\<forall>c. node_at (nodes w') ?p \<noteq> Some (File c)" by (auto dest: file_node_is_file)
  then show ?thesis
    by (cases "node_at (nodes w') ?p"; cases "the (node_at (nodes w') ?p)") auto
qed

lemma cleanup_keeps_links:
  assumes "remove_potential_outfiles model outdir outfile w = (r, w')"
    and "node_at (nodes w') p = Some (Link t)"
  shows "node_at (nodes w) p = Some (Link t)"
  using remove_potential_outfiles_world(10) [OF assms(1), of p] assms(2)
  by (auto simp: node_at_def split: if_splits)

lemma cleanup_unlinked:
  assumes "remove_potential_outfiles model outdir outfile w = (r, w')"
  shows "set (unlinked (trace w')) \<subseteq>
           set (unlinked (trace w))
           \<union> (\<lambda>e. pjoin outdir (outfile @ ''.'' @ e)) ` set [''spec'', ''iden'', ''eqws'', ''cont'']"
proof (cases "is_dir w outdir")
  case True
  with assms have "remove_loop outdir outfile [''spec'', ''iden'', ''eqws'', ''cont''] w = (r, w')"
    by (simp add: remove_potential_outfiles_def)
  from remove_loop_unlinked [OF this] show ?thesis .
next
  case False
  with assms show ?thesis by (auto simp: remove_potential_outfiles_def)
qed

lemma mkdir_error: "fst (mkdir p w) \<noteq> Inl (CalledProcessError c)"
  by (simp add: mkdir_def Let_def)

lemma copyfile_error: "fst (copyfile a b w) \<noteq> Inl (CalledProcessError c)"
  by (simp add: copyfile_def Let_def split: option.splits node.splits)

lemma copy_loop_error: "fst (copy_loop rundir outdir outfile us w) \<noteq> Inl (CalledProcessError c)"
proof (induction us arbitrary: w)
  case Nil
  show ?case by simp
next
  case (Cons a us)
  obtain unit ext where a: "a = (unit, ext)" by (cases a)
  obtain r1 w1 where c1: "copyfile (pjoin rundir (''fort.'' @ unit)) (pjoin outdir (outfile @ ''.'' @ ext)) w = (r1, w1)"
    by (cases "copyfile (pjoin rundir (''fort.'' @ unit)) (pjoin outdir (outfile @ ''.'' @ ext)) w")
  with copyfile_error [of "pjoin rundir (''fort.'' @ unit)" "pjoin outdir (outfile @ ''.'' @ ext)" w c]
  show ?case using a Cons.IH [of w1] by (cases r1) auto
qed

lemma extract_outfiles_error:
  "fst (extract_outfiles model rundir outdir outfile w) \<noteq> Inl (CalledProcessError c)"
proof -
  obtain r1 w1 where m: "mkdir outdir w = (r1, w1)" by (cases "mkdir outdir w")
  obtain r2 w2 where l: "copy_loop rundir outdir outfile
        [(''7'', ''spec''), (''12'', ''iden''), (''16'', ''eqws''), (''17'', ''cont'')] w1 = (r2, w2)"
    by (cases "copy_loop rundir outdir outfile
        [(''7'', ''spec''), (''12'', ''iden''), (''16'', ''eqws''), (''17'', ''cont'')] w1")
  from m mkdir_error [of outdir w c] l
    copy_loop_error [of rundir outdir outfile "[(''7'', ''spec''), (''12'', ''iden''), (''16'', ''eqws''), (''17'', ''cont'')]" w1 c]
    copyfile_error [of "pjoin rundir ''fort.log''" "pjoin outdir (outfile @ ''.log'')" w2 c]
  show ?thesis
    by (cases r1; cases r2) (auto simp: extract_outfiles_def)
qed

lemma check_files_error: "fst (check_files model rundir w) \<noteq> Inl (CalledProcessError c)"
  by (simp add: check_files_find split: option.splits)

lemma run_body_solver_failure:
  assumes "run_body ev s model modelpath rundir outdir outfile w = (Inl (CalledProcessError c), s', w')"
  shows "\<exists>w1. remove_potential_outfiles model outdir outfile w = (Inr (), w1)
            \<and> (stages w1 w'
               \<or> (\<exists>w3 req inp. stages w1 w3
                     \<and> subprocess_run ev req inp w3 = (Inl (CalledProcessError c), w')))"
proof -
  obtain r1 w1 where cl: "remove_potential_outfiles model outdir outfile w = (r1, w1)"
    by (cases "remove_potential_outfiles model outdir outfile w")
  from remove_potential_outfiles_world(1) [OF cl] have r1: "r1 = Inr ()" .
  obtain r2 tbl w2 where st: "copy_to_rundir ev (linkfiles s) model modelpath rundir w1 = (r2, tbl, w2)"
    by (cases "copy_to_rundir ev (linkfiles s) model modelpath rundir w1")
  note s2 = stages_copy_to_rundir [OF st]
  have "stages w1 w'
      \<or> (\<exists>w3 req inp. stages w1 w3 \<and> subprocess_run ev req inp w3 = (Inl (CalledProcessError c), w'))"
  proof (cases r2)
    case (Inl e)
    with assms cl r1 st have "w' = w2" by (simp add: run_body_def)
    with s2 show ?thesis by simp
  next
    case (Inr u)
    with st have st': "copy_to_rundir ev (linkfiles s) model modelpath rundir w1 = (Inr (), tbl, w2)"
      by simp
    note body = run_body_staged [OF cl st']
    have cf: "check_files model rundir w2 = (fst (check_files model rundir w2), w2)"
      by (simp add: check_files_def)
    show ?thesis
    proof (cases "fst (check_files model rundir w2)")
      case (Inl e)
      with cf have "check_files model rundir w2 = (Inl e, w2)" by simp
      with assms body have "w' = w2" by simp
      with s2 show ?thesis by simp
    next
      case chk: (Inr u2)
      obtain r4 w4 where rs: "run_solver ev (s\<lparr>linkfiles := tbl\<rparr>) model rundir w2 = (r4, w4)"
        by (cases "run_solver ev (s\<lparr>linkfiles := tbl\<rparr>) model rundir w2")
      from cf chk have cf': "check_files model rundir w2 = (Inr u2, w2)" by simp
      show ?thesis
      proof (cases r4)
        case (Inl e)
        with assms body cf' rs have e: "e = CalledProcessError c" "w' = w4" by simp_all
        from run_solver_cases [OF rs] Inl e show ?thesis
          by (auto intro: stages_trans [OF s2])
      next
        case (Inr u4)
        with assms body cf' rs
        have "fst (extract_outfiles model rundir outdir outfile w4) = Inl (CalledProcessError c)"
          by (cases "extract_outfiles model rundir outdir outfile w4") simp
        with extract_outfiles_error show ?thesis by blast
      qed
    qed
  qed
  with cl r1 show ?thesis by blast
qed

section \<open>The lock around a run\<close>

lemma run_body_locks:
  assumes "run_body ev s model modelpath rundir outdir outfile w = (r, s', w')"
  shows "locks w' = locks w" "lock_events (trace w') = lock_events (trace w)"
proof -
  obtain r1 w1 where cl: "remove_potential_outfiles model outdir outfile w = (r1, w1)"
    by (cases "remove_potential_outfiles model outdir outfile w")
  note c = remove_potential_outfiles_world [OF cl]
  obtain r2 tbl w2 where st: "copy_to_rundir ev (linkfiles s) model modelpath rundir w1 = (r2, tbl, w2)"
    by (cases "copy_to_rundir ev (linkfiles s) model modelpath rundir w1")
  note s2 = stages_journal [OF stages_copy_to_rundir [OF st]]
  have l2: "locks w2 = locks w" "lock_events (trace w2) = lock_events (trace w)"
    using c(3,7) s2(4,6) by simp_all
  have "locks w' = locks w \<and> lock_events (trace w') = lock_events (trace w)"
  proof (cases r2)
    case (Inl e)
    with assms cl c(1) st have "w' = w2" by (simp add: run_body_def)
    with l2 show ?thesis by simp
  next
    case (Inr u)
    with st have st': "copy_to_rundir ev (linkfiles s) model modelpath rundir w1 = (Inr (), tbl, w2)"
      by simp
    note body = run_body_staged [OF cl st']
    have cf: "check_files model rundir w2 = (fst (check_files model rundir w2), w2)"
      by (simp add: check_files_def)
    show ?thesis
    proof (cases "fst (check_files model rundir w2)")
      case (Inl e)
      with cf have "check_files model rundir w2 = (Inl e, w2)" by simp
      with assms body have "w' = w2" by simp
      with l2 show ?thesis by simp
    next
      case chk: (Inr u2)
      with cf have cf': "check_files model rundir w2 = (Inr u2, w2)" by simp
      obtain r4 w4 where rs: "run_solver ev (s\<lparr>linkfiles := tbl\<rparr>) model rundir w2 = (r4, w4)"
        by (cases "run_solver ev (s\<lparr>linkfiles := tbl\<rparr>) model rundir w2")
      note j4 = run_solver_journal [OF rs]
      show ?thesis
      proof (cases r4)
        case (Inl e)
        with assms body cf' rs have "w' = w4" by simp
        with l2 j4(3,5) show ?thesis by simp
      next
        case (Inr u4)
        obtain r5 w5 where ex: "extract_outfiles model rundir outdir outfile w4 = (r5, w5)"
          by (cases "extract_outfiles model rundir outdir outfile w4")
        with assms body cf' rs Inr have "w' = w5" by simp
        with l2 j4(3,5) extract_outfiles_world(2,5) [OF ex] show ?thesis by simp
      qed
    qed
  qed
  then show "locks w' = locks w" "lock_events (trace w') = lock_events (trace w)" by simp_all
qed

text \<open>
  The bracket that \<^verbatim>\<open>run\<close> puts around its body. With a run directory of the caller
  whose lock is free, the lock is acquired before the body and released after it,
  however the body ends, and nothing in between touches a lock. With the lock held, the
  spec-modelled \<open>folderlock\<close> has \<^verbatim>\<open>run\<close> fail with \<open>Busy\<close> before the body. With a
  temporary directory no lock is touched.
\<close>

lemma run_lock_bracket:
  assumes "run ev s model (Some d) outdir outfile w = (r, s', w')"
    and "fst (mkdir (resolve w d) w) = Inr ()"
    and "(resolve w d, ''synspec.lock'') \<notin> set (locks w)"
  shows "lock_events (trace w')
           = lock_events (trace w) @ [LockAcquire (resolve w d) ''synspec.lock'',
                                      LockRelease (resolve w d) ''synspec.lock'']"
    and "locks w' = locks w"
proof -
  let ?rd = "resolve w d"
  obtain w1 where m: "mkdir ?rd w = (Inr (), w1)"
    using assms(2) by (metis prod.collapse)
  note mw = mkdir_world(1-3) [OF m]
  let ?od = "case outdir of None \<Rightarrow> resolve_path w1 ?rd | Some x \<Rightarrow> resolve w1 x"
  let ?of = "case outfile of None \<Rightarrow> path_name (resolve w model) | Some f \<Rightarrow> f"
  let ?w2 = "(log (LockAcquire ?rd ''synspec.lock'') w1)\<lparr>locks := (?rd, ''synspec.lock'') # locks w1\<rparr>"
  obtain rb sb wb where b: "run_body ev s (path_name (resolve w model)) (resolve w model) ?rd ?od ?of ?w2
                              = (rb, sb, wb)"
    by (cases "run_body ev s (path_name (resolve w model)) (resolve w model) ?rd ?od ?of ?w2")
  from assms(3) mw have free: "(?rd, ''synspec.lock'') \<notin> set (locks w1)" by simp
  from assms(1) m b free
  have w': "w' = (log (LockRelease ?rd ''synspec.lock'') wb)
                   \<lparr>locks := removeAll (?rd, ''synspec.lock'') (locks wb)\<rparr>"
    by (simp add: run_def folderlock_def Let_def)
  from run_body_locks [OF b] have lb: "locks wb = (?rd, ''synspec.lock'') # locks w1"
    "lock_events (trace wb) = lock_events (trace w1) @ [LockAcquire ?rd ''synspec.lock'']"
    by simp_all
  from w' lb mw show "lock_events (trace w')
           = lock_events (trace w) @ [LockAcquire ?rd ''synspec.lock'', LockRelease ?rd ''synspec.lock'']"
    by simp
  from w' lb mw free show "locks w' = locks w" by simp
qed

lemma run_lock_busy:
  assumes "fst (mkdir (resolve w d) w) = Inr ()"
    and "(resolve w d, ''synspec.lock'') \<in> set (locks w)"
  shows "fst (run ev s model (Some d) outdir outfile w) = Inl (Busy (path_str (resolve w d)))"
    and "trace (snd (snd (run ev s model (Some d) outdir outfile w))) = trace w @ [Mkdir (resolve w d)]"
proof -
  obtain w1 where m: "mkdir (resolve w d) w = (Inr (), w1)"
    using assms(1) by (metis prod.collapse)
  note mw = mkdir_world(1-3) [OF m]
  from assms(2) mw have "(resolve w d, ''synspec.lock'') \<in> set (locks w1)" by simp
  with m mw show "fst (run ev s model (Some d) outdir outfile w) = Inl (Busy (path_str (resolve w d)))"
    and "trace (snd (snd (run ev s model (Some d) outdir outfile w))) = trace w @ [Mkdir (resolve w d)]"
    by (simp_all add: run_def folderlock_def Let_def)
qed

lemma run_tempdir_no_lock:
  assumes "run ev s model None outdir outfile w = (r, s', w')"
  shows "lock_events (trace w') = lock_events (trace w)" and "locks w' = locks w"
proof -
  let ?t = "mkdtemp ev (nodes w)"
  let ?od = "case outdir of None \<Rightarrow> resolve_path w (cwd w) | Some x \<Rightarrow> resolve w x"
  let ?of = "case outfile of None \<Rightarrow> path_name (resolve w model) | Some f \<Rightarrow> f"
  let ?w2 = "(log (Mkdtemp ?t) w)\<lparr>nodes := AList.update ?t Dir (nodes (log (Mkdtemp ?t) w))\<rparr>"
  obtain rb sb wb where b: "run_body ev s (path_name (resolve w model)) (resolve w model)
                              (resolve_path ?w2 ?t) ?od ?of ?w2 = (rb, sb, wb)"
    by (cases "run_body ev s (path_name (resolve w model)) (resolve w model)
                 (resolve_path ?w2 ?t) ?od ?of ?w2")
  note lb = run_body_locks [OF b]
  have "lock_events (trace w') = lock_events (trace w) \<and> locks w' = locks w"
  proof (cases "node_at (nodes w) ?t \<noteq> None \<or> \<not> is_dir w (butlast ?t)")
    case True
    with assms have "w' = log (Mkdtemp ?t) w"
      by (auto simp: run_def tempdir_def Let_def split: if_splits)
    then show ?thesis by simp
  next
    case False
    with assms b have "w' = (log (Rmtree ?t) wb)\<lparr>nodes := filter (\<lambda>(p, n). \<not> prefix ?t p) (nodes wb)\<rparr>"
      by (simp add: run_def tempdir_def Let_def)
    with lb show ?thesis by simp
  qed
  then show "lock_events (trace w') = lock_events (trace w)" and "locks w' = locks w" by simp_all
qed

section \<open>What a run stores in the instance\<close>

lemma run_body_stores:
  "fst (snd (run_body ev s model modelpath rundir outdir outfile w))
     = s\<lparr>linkfiles := fst (snd (copy_to_rundir ev (linkfiles s) model modelpath rundir
                                   (snd (remove_potential_outfiles model outdir outfile w))))\<rparr>"
proof -
  obtain r1 w1 where c: "remove_potential_outfiles model outdir outfile w = (r1, w1)"
    by (cases "remove_potential_outfiles model outdir outfile w")
  from remove_potential_outfiles_world(1) [OF c] have r1: "r1 = Inr ()" .
  obtain r2 tbl w2 where st: "copy_to_rundir ev (linkfiles s) model modelpath rundir w1 = (r2, tbl, w2)"
    by (cases "copy_to_rundir ev (linkfiles s) model modelpath rundir w1")
  from c r1 st show ?thesis
    by (auto simp: run_body_def split: sum.splits prod.splits)
qed

lemma run_in_rundir_stores:
  "fst (snd (run ev s model (Some d) outdir outfile w))
     = (if fst (mkdir (resolve w d) w) = Inr ()
           \<and> (resolve w d, ''synspec.lock'') \<notin> set (locks (snd (mkdir (resolve w d) w)))
        then fst (snd (run_body ev s (path_name (resolve w model)) (resolve w model) (resolve w d)
               (case outdir of None \<Rightarrow> resolve_path (snd (mkdir (resolve w d) w)) (resolve w d)
                             | Some od \<Rightarrow> resolve (snd (mkdir (resolve w d) w)) od)
               (case outfile of None \<Rightarrow> path_name (resolve w model) | Some f \<Rightarrow> f)
               ((log (LockAcquire (resolve w d) ''synspec.lock'') (snd (mkdir (resolve w d) w)))
                  \<lparr>locks := (resolve w d, ''synspec.lock'') # locks (snd (mkdir (resolve w d) w))\<rparr>)))
        else s)"
proof -
  obtain r1 w1 where m: "mkdir (resolve w d) w = (r1, w1)" by (cases "mkdir (resolve w d) w")
  show ?thesis
    unfolding m fst_conv snd_conv
    using m by (auto simp: run_def folderlock_def Let_def split: sum.splits prod.splits)
qed

lemma run_in_tempdir_stores:
  "fst (snd (run ev s model None outdir outfile w))
     = (if node_at (nodes w) (mkdtemp ev (nodes w)) = None \<and> is_dir w (butlast (mkdtemp ev (nodes w)))
        then fst (snd (run_body ev s (path_name (resolve w model)) (resolve w model)
               (resolve_path ((log (Mkdtemp (mkdtemp ev (nodes w))) w)
                               \<lparr>nodes := AList.update (mkdtemp ev (nodes w)) Dir (nodes w)\<rparr>)
                             (mkdtemp ev (nodes w)))
               (case outdir of None \<Rightarrow> resolve_path w (cwd w) | Some od \<Rightarrow> resolve w od)
               (case outfile of None \<Rightarrow> path_name (resolve w model) | Some f \<Rightarrow> f)
               ((log (Mkdtemp (mkdtemp ev (nodes w))) w)
                  \<lparr>nodes := AList.update (mkdtemp ev (nodes w)) Dir (nodes w)\<rparr>)))
        else s)"
  by (auto simp: run_def tempdir_def Let_def log_def split: prod.splits)

lemma detect_fort56_adds:
  assumes "map_of tbl ''fort.55'' = Some t55"
    and "format_str [(''model'', model)] t55 = Inr cf"
    and "call_read55f ev cf w = (Inr cfg, w2)"
    and "ichemc cfg \<noteq> 0"
    and "is_file w2 (pjoin (cwd w2) ''fort.56'')"
  shows "fst (snd (detect_fort56 ev model tbl w))
           = (if ''fort.56'' \<in> fst ` set tbl then tbl else AList.update ''fort.56'' ''fort.56'' tbl)"
  using assms by (simp add: detect_fort56_def)


lemma staged_table:
  assumes "map_of tbl ''{model}.5'' = Some t"
    and "format_str (fmt_kw m mp) t = Inr inputfile"
    and "open_read (pjoin (cwd u) inputfile) u = (Inr inp, u1)"
    and "readinput ev inp = Inr mi"
  shows "fst (snd (copy_to_rundir ev tbl m mp rd u))
           = fst (snd (detect_fort56 ev m (add_discovered u (dep_names (collect_reqs mi)) tbl) u1))"
proof -
  from assms(3) have "u1 = log (OpenRead (pjoin (cwd u) inputfile)) u" by (rule open_read_world)
  then have "add_discovered u1 (dep_names (collect_reqs mi)) tbl
           = add_discovered u (dep_names (collect_reqs mi)) tbl"
    by (simp add: add_discovered_log)
  with copy_to_rundir_table [OF assms, of rd] show ?thesis by simp
qed

lemma staged_candidate:
  assumes "detect_fort56 ev m (add_discovered u cands tbl) u1 = (r, tbl', u2)"
    and "c \<in> set cands"
    and "exists u (pjoin (cwd u) c)"
  shows "c \<in> fst ` set tbl' \<and> (c \<notin> fst ` set tbl \<longrightarrow> map_of tbl' c = Some c)"
proof -
  have "map_of (add_discovered u cands tbl) c = (if c \<notin> fst ` set tbl then Some c else map_of tbl c)"
    using assms(2,3) by (simp add: add_discovered_map_of)
  then obtain v where v: "map_of (add_discovered u cands tbl) c = Some v" "c \<notin> fst ` set tbl \<longrightarrow> v = c"
    by (cases "c \<in> fst ` set tbl") (auto dest: weak_map_of_SomeI)
  from detect_fort56_grows(1) [OF assms(1) v(1)] v(2) show ?thesis
    by (auto dest: map_of_SomeD intro: rev_image_eqI)
qed

lemma staged_fort56:
  assumes "map_of tbl ''fort.55'' = Some t55"
    and "format_str [(''model'', m)] t55 = Inr cf"
    and "call_read55f ev cf u1 = (Inr cfg, u2)"
    and "ichemc cfg \<noteq> 0"
    and "is_file u2 (pjoin (cwd u2) ''fort.56'')"
    and "tbl' = fst (snd (detect_fort56 ev m (add_discovered u cands tbl) u1))"
  shows "''fort.56'' \<in> fst ` set tbl' \<and> (''fort.56'' \<notin> fst ` set tbl \<longrightarrow> map_of tbl' ''fort.56'' = Some ''fort.56'')"
proof -
  let ?tbl1 = "add_discovered u cands tbl"
  from assms(1) have "map_of ?tbl1 ''fort.55'' = Some t55" by (rule add_discovered_grows(1))
  from detect_fort56_adds [OF this assms(2,3,4,5)] assms(6)
  have eq: "tbl' = (if ''fort.56'' \<in> fst ` set ?tbl1 then ?tbl1 else AList.update ''fort.56'' ''fort.56'' ?tbl1)"
    by simp
  show ?thesis
  proof (cases "''fort.56'' \<in> fst ` set ?tbl1")
    case True
    with eq have t: "tbl' = ?tbl1" by simp
    from True obtain v where v: "map_of ?tbl1 ''fort.56'' = Some v"
      by (auto dest: weak_map_of_SomeI)
    from add_discovered_grows(2) [OF v] have "map_of tbl ''fort.56'' = Some v \<or> v = ''fort.56''" .
    with v t True show ?thesis by (auto dest: map_of_SomeD intro: rev_image_eqI)
  next
    case False
    with eq have "tbl' = AList.update ''fort.56'' ''fort.56'' ?tbl1" by simp
    then have "map_of tbl' ''fort.56'' = Some ''fort.56''" by (simp add: update_conv')
    then show ?thesis by (auto dest: map_of_SomeD intro: rev_image_eqI)
  qed
qed

section \<open>The properties of the orchestrator\<close>

subsection \<open>No stale output after a failed run\<close>

text \<open>
  Claim C1, as the code has it. The cleanup removes \<open>outfile\<close> with the extensions
  \<open>spec\<close>, \<open>iden\<close>, \<open>eqws\<close> and \<open>cont\<close> from the destination directory; the log of
  an earlier run, \<open>outfile.log\<close>, is not among them. After the cleanup none of these
  four names is a regular file in the destination directory, whether it was a file or a
  symbolic link to one. So when \<^verbatim>\<open>run\<close> fails with the solver's non-zero exit, none
  of them is a regular file there afterwards either, unless the call itself put one
  there: the name is a symbolic link that the cleanup left in place (it led to no regular
  file when the cleanup tested it), staging placed a link or the log right at that
  location, or the solver wrote it. The cleanup makes no link, so a name that was no link
  before the call is none after the cleanup. Nothing is copied in such a run, and nothing
  is removed but these four names.
\<close>

theorem C1_no_stale_output:
  assumes "run_body ev s model modelpath rundir outdir outfile w
             = (Inl (CalledProcessError c), s', w')"
    and "ext \<in> set [''spec'', ''iden'', ''eqws'', ''cont'']"
    and "is_dir w outdir \<or> node_at (nodes w) (pjoin outdir (outfile @ ''.'' @ ext)) = None"
  shows "\<not> is_file (snd (remove_potential_outfiles model outdir outfile w))
             (pjoin outdir (outfile @ ''.'' @ ext))
       \<and> ((\<forall>t. node_at (nodes (snd (remove_potential_outfiles model outdir outfile w)))
                   (pjoin outdir (outfile @ ''.'' @ ext)) \<noteq> Some (Link t))
            \<and> pjoin outdir (outfile @ ''.'' @ ext) \<notin> set (placed (trace w'))
            \<and> (\<forall>req inp ns.
                  map_of (snd (solver ev req inp ns)) (pjoin outdir (outfile @ ''.'' @ ext))
                    = map_of ns (pjoin outdir (outfile @ ''.'' @ ext)))
          \<longrightarrow> \<not> is_file w' (pjoin outdir (outfile @ ''.'' @ ext)))
       \<and> ((\<forall>t. node_at (nodes w) (pjoin outdir (outfile @ ''.'' @ ext)) \<noteq> Some (Link t))
          \<longrightarrow> (\<forall>t. node_at (nodes (snd (remove_potential_outfiles model outdir outfile w)))
                     (pjoin outdir (outfile @ ''.'' @ ext)) \<noteq> Some (Link t)))
       \<and> copied (trace w') = copied (trace w)
       \<and> set (unlinked (trace w')) \<subseteq>
           set (unlinked (trace w))
           \<union> (\<lambda>e. pjoin outdir (outfile @ ''.'' @ e)) ` set [''spec'', ''iden'', ''eqws'', ''cont'']"
proof -
  let ?p = "pjoin outdir (outfile @ ''.'' @ ext)"
  from run_body_solver_failure [OF assms(1)] obtain w1 where
    cl: "remove_potential_outfiles model outdir outfile w = (Inr (), w1)"
    and after: "stages w1 w'
               \<or> (\<exists>w3 req inp. stages w1 w3
                     \<and> subprocess_run ev req inp w3 = (Inl (CalledProcessError c), w'))"
    by blast
  from cl have w1: "snd (remove_potential_outfiles model outdir outfile w) = w1" by simp
  note c1 = remove_potential_outfiles_world [OF cl]
  note u1 = cleanup_unlinked [OF cl]
  have clean: "\<not> is_file w1 ?p"
    using cleanup_not_file [OF cl assms(2,3)] .
  have gone: "\<not> is_file w' ?p"
    if nl: "\<forall>t. node_at (nodes w1) ?p \<noteq> Some (Link t)"
      and pl: "?p \<notin> set (placed (trace w'))"
      and sv: "\<forall>req inp ns. map_of (snd (solver ev req inp ns)) ?p = map_of ns ?p"
  proof -
    from cleanup_node [OF cl assms(2,3)] nl
    have q1: "node_at (nodes w1) ?p = None \<or> node_at (nodes w1) ?p = Some Dir" by blast
    have "map_of (nodes w') ?p = map_of (nodes w1) ?p"
      using after
    proof (elim disjE exE conjE)
      assume st: "stages w1 w'"
      from stages_node(1) [OF st pl] show ?thesis .
    next
      fix w3 req inp
      assume st: "stages w1 w3"
        and sp: "subprocess_run ev req inp w3 = (Inl (CalledProcessError c), w')"
      note sw = subprocess_run_world [OF sp]
      from sw(1) pl have "?p \<notin> set (placed (trace w3))" by simp
      from stages_node(1) [OF st this] have "map_of (nodes w3) ?p = map_of (nodes w1) ?p" .
      moreover from sw(4) sv have "map_of (nodes w') ?p = map_of (nodes w3) ?p" by auto
      ultimately show ?thesis by simp
    qed
    then have "node_at (nodes w') ?p = node_at (nodes w1) ?p" by (simp add: node_at_def)
    with q1 show ?thesis by (intro not_file_node) simp
  qed
  have nolink: "\<forall>t. node_at (nodes w1) ?p \<noteq> Some (Link t)"
    if "\<forall>t. node_at (nodes w) ?p \<noteq> Some (Link t)"
    using that cleanup_keeps_links [OF cl, of ?p] by blast
  have j: "copied (trace w') = copied (trace w1) \<and> unlinked (trace w') = unlinked (trace w1)"
    using after
  proof (elim disjE exE conjE)
    assume st: "stages w1 w'"
    from stages_journal(2,8) [OF st] show ?thesis by simp
  next
    fix w3 req inp
    assume st: "stages w1 w3"
      and sp: "subprocess_run ev req inp w3 = (Inl (CalledProcessError c), w')"
    note sw = subprocess_run_world [OF sp]
    from sw(1) stages_journal(2,8) [OF st] show ?thesis by simp
  qed
  from j c1(5) have cp: "copied (trace w') = copied (trace w)" by simp
  from j u1 have ul: "set (unlinked (trace w')) \<subseteq>
           set (unlinked (trace w))
           \<union> (\<lambda>e. pjoin outdir (outfile @ ''.'' @ e)) ` set [''spec'', ''iden'', ''eqws'', ''cont'']"
    by simp
  from clean gone nolink cp ul show ?thesis unfolding w1 by blast
qed

text \<open>
  C1 at concrete inputs. \<open>/w\<close> holds \<open>m.spec\<close> of an earlier run, the run in place
  fails, and \<open>m.spec\<close> is gone. Where \<open>m.spec\<close> is a link to the regular file
  \<open>keep.dat\<close>, the link is gone after the failing run and \<open>keep.dat\<close> is still there.
\<close>

lemma C1_facts:
  "run_body env_fail fresh ''m'' [''w'', ''m''] [''w''] [''w''] ''m'' w_stale
     = (Inl (CalledProcessError 1), fresh, w_failed)"
  "node_at (nodes w_stale) (pjoin [''w''] ''m.spec'') = Some (File ''old spec'')"
  "is_dir w_stale [''w'']"
  "pjoin [''w''] ''m.spec'' \<notin> set (placed (trace w_failed))"
  "pjoin [''w''] ''m.spec'' = [''w'', ''m.spec'']"
  "is_file w_stale [''w'', ''m.spec'']"
  by code_simp+

lemma C1_facts_link:
  "run_body env_fail fresh ''m'' [''w'', ''m''] [''w''] [''w''] ''m'' w_kept
     = (Inl (CalledProcessError 1), fresh, w_kept_failed)"
  "node_at (nodes w_kept) (pjoin [''w''] ''m.spec'') = Some (Link ''keep.dat'')"
  "is_dir w_kept [''w'']"
  "pjoin [''w''] ''m.spec'' \<notin> set (placed (trace w_kept_failed))"
  "is_file w_kept [''w'', ''m.spec'']"
  "node_at (nodes (snd (remove_potential_outfiles ''m'' [''w''] ''m'' w_kept))) (pjoin [''w''] ''m.spec'')
     = None"
  "is_file w_kept_failed [''w'', ''keep.dat'']"
  by code_simp+

theorem C1_no_stale_output_witness:
  "is_file w_stale [''w'', ''m.spec''] \<and> \<not> is_file w_failed [''w'', ''m.spec'']
   \<and> is_file w_kept [''w'', ''m.spec''] \<and> \<not> is_file w_kept_failed [''w'', ''m.spec'']
   \<and> is_file w_kept_failed [''w'', ''keep.dat'']"
proof -
  have e: "''spec'' \<in> set [''spec'', ''iden'', ''eqws'', ''cont'']" by simp
  have d: "is_dir w_stale [''w'']
         \<or> node_at (nodes w_stale) (pjoin [''w''] (''m'' @ ''.'' @ ''spec'')) = None"
    by (simp add: C1_facts(3))
  have l: "\<forall>t. node_at (nodes w_stale) (pjoin [''w''] (''m'' @ ''.'' @ ''spec'')) \<noteq> Some (Link t)"
    using C1_facts(2) by simp
  have p: "pjoin [''w''] (''m'' @ ''.'' @ ''spec'') \<notin> set (placed (trace w_failed))"
    using C1_facts(4) by simp
  have sv: "\<forall>req inp ns. map_of (snd (solver env_fail req inp ns)) (pjoin [''w''] (''m'' @ ''.'' @ ''spec''))
                        = map_of ns (pjoin [''w''] (''m'' @ ''.'' @ ''spec''))"
    by (simp add: env_fail_def)
  from C1_no_stale_output [OF C1_facts(1) e d] l p sv
  have "\<not> is_file w_failed (pjoin [''w''] (''m'' @ ''.'' @ ''spec''))" by blast
  with C1_facts(5,6)
  have first: "is_file w_stale [''w'', ''m.spec''] \<and> \<not> is_file w_failed [''w'', ''m.spec'']"
    by simp
  have d2: "is_dir w_kept [''w'']
          \<or> node_at (nodes w_kept) (pjoin [''w''] (''m'' @ ''.'' @ ''spec'')) = None"
    by (simp add: C1_facts_link(3))
  have l2: "\<forall>t. node_at (nodes (snd (remove_potential_outfiles ''m'' [''w''] ''m'' w_kept)))
                  (pjoin [''w''] (''m'' @ ''.'' @ ''spec'')) \<noteq> Some (Link t)"
    using C1_facts_link(6) by simp
  have p2: "pjoin [''w''] (''m'' @ ''.'' @ ''spec'') \<notin> set (placed (trace w_kept_failed))"
    using C1_facts_link(4) by simp
  from C1_no_stale_output [OF C1_facts_link(1) e d2] l2 p2 sv
  have "\<not> is_file w_kept_failed (pjoin [''w''] (''m'' @ ''.'' @ ''spec''))" by blast
  with C1_facts(5) C1_facts_link(5,7)
  have second: "is_file w_kept [''w'', ''m.spec''] \<and> \<not> is_file w_kept_failed [''w'', ''m.spec'']
   \<and> is_file w_kept_failed [''w'', ''keep.dat'']"
    by simp
  from first second show ?thesis by simp
qed

text \<open>
  The claim counts \<open>outfile.log\<close> among the names that are gone after a failed run.
  Here \<^verbatim>\<open>run("m")\<close> is called in \<open>/w\<close>, which holds \<open>m.log\<close> of an earlier run; the
  destination directory is \<open>/w\<close> and the output name \<open>m\<close>. The solver exits with
  status 1, \<^verbatim>\<open>run\<close> raises \<open>CalledProcessError\<close>, and \<open>/w/m.log\<close> is still there with
  its old content.
\<close>

theorem C1_counterexample:
  "fst (run env_fail fresh ''m'' (Some ''.'') None None w_stale) = Inl (CalledProcessError 1)
   \<and> is_file w_stale [''w'', ''m.log'']
   \<and> is_file (snd (snd (run env_fail fresh ''m'' (Some ''.'') None None w_stale))) [''w'', ''m.log'']
   \<and> map_of (nodes (snd (snd (run env_fail fresh ''m'' (Some ''.'') None None w_stale)))) [''w'', ''m.log'']
       = Some (File ''old log'')"
  by code_simp


subsection \<open>Extraction of the output\<close>

text \<open>
  Claim C2. Extraction is the last thing \<^verbatim>\<open>run\<close> does, and it does it exactly when
  staging, the check and the runner have gone through: then \<^verbatim>\<open>mkdir\<close> is called for
  the destination directory (which makes it when it is absent and its parent is there,
  and leaves an existing directory alone), and after it the copies of \<open>fort.7\<close>,
  \<open>fort.12\<close>, \<open>fort.16\<close>, \<open>fort.17\<close> and \<open>fort.log\<close> of the run directory to
  \<open>outfile\<close> with \<open>.spec\<close>, \<open>.iden\<close>, \<open>.eqws\<close>, \<open>.cont\<close> and \<open>.log\<close> in the
  destination directory, in this order and up to the first that fails; all five when
  \<^verbatim>\<open>run\<close> returns normally. When the runner has failed or was not reached, \<^verbatim>\<open>run\<close>
  raises, makes no directory and copies nothing.
\<close>

theorem C2_extraction:
  assumes "remove_potential_outfiles model outdir outfile w = (r1, w1)"
    and "copy_to_rundir ev (linkfiles s) model modelpath rundir w1 = (r2, tbl, w2)"
    and "run_solver ev (s\<lparr>linkfiles := tbl\<rparr>) model rundir w2 = (r4, w4)"
    and "run_body ev s model modelpath rundir outdir outfile w = (r, s', w')"
  shows "(r2 = Inr () \<and> fst (check_files model rundir w2) = Inr () \<and> r4 = Inr () \<longrightarrow>
           (r, w') = extract_outfiles model rundir outdir outfile w4
           \<and> mkdirs (trace w') = mkdirs (trace w) @ [outdir]
           \<and> (\<exists>n. copied (trace w')
                    = copied (trace w) @ take n
                        [(pjoin rundir ''fort.7'', pjoin outdir (outfile @ ''.spec'')),
                         (pjoin rundir ''fort.12'', pjoin outdir (outfile @ ''.iden'')),
                         (pjoin rundir ''fort.16'', pjoin outdir (outfile @ ''.eqws'')),
                         (pjoin rundir ''fort.17'', pjoin outdir (outfile @ ''.cont'')),
                         (pjoin rundir ''fort.log'', pjoin outdir (outfile @ ''.log''))]
                  \<and> (r = Inr () \<longrightarrow> n = 5)))
       \<and> (\<not> (r2 = Inr () \<and> fst (check_files model rundir w2) = Inr () \<and> r4 = Inr ()) \<longrightarrow>
           r \<noteq> Inr () \<and> mkdirs (trace w') = mkdirs (trace w) \<and> copied (trace w') = copied (trace w))
       \<and> (node_at (nodes v) outdir = None \<and> is_dir v (butlast outdir) \<longrightarrow>
           fst (mkdir outdir v) = Inr ()
           \<and> map_of (nodes (snd (mkdir outdir v))) outdir = Some Dir)
       \<and> (is_dir v outdir \<longrightarrow> mkdir outdir v = (Inr (), log (Mkdir outdir) v))"
proof -
  note cl = remove_potential_outfiles_world [OF assms(1)]
  note st = stages_journal [OF stages_copy_to_rundir [OF assms(2)]]
  note rs = run_solver_journal [OF assms(3)]
  have j2: "mkdirs (trace w2) = mkdirs (trace w)" "copied (trace w2) = copied (trace w)"
    using cl(5,6) st(2,3) by simp_all
  have j4: "mkdirs (trace w4) = mkdirs (trace w)" "copied (trace w4) = copied (trace w)"
    using j2 rs(1,2) by simp_all
  have cf: "check_files model rundir w2 = (fst (check_files model rundir w2), w2)"
    by (simp add: check_files_def)
  have body: "(r, s', w')
      = (case r2 of
           Inl e \<Rightarrow> (Inl e, s\<lparr>linkfiles := tbl\<rparr>, w2)
         | Inr u \<Rightarrow>
            (case fst (check_files model rundir w2) of
               Inl e \<Rightarrow> (Inl e, s\<lparr>linkfiles := tbl\<rparr>, w2)
             | Inr u \<Rightarrow>
                 (case r4 of
                    Inl e \<Rightarrow> (Inl e, s\<lparr>linkfiles := tbl\<rparr>, w4)
                  | Inr u \<Rightarrow>
                      (case extract_outfiles model rundir outdir outfile w4 of
                         (r, w5) \<Rightarrow> (r, s\<lparr>linkfiles := tbl\<rparr>, w5)))))"
  proof (cases r2)
    case (Inl e)
    with assms cl(1) show ?thesis by (auto simp: run_body_def)
  next
    case (Inr u)
    with assms(2) have "copy_to_rundir ev (linkfiles s) model modelpath rundir w1 = (Inr (), tbl, w2)"
      by simp
    from run_body_staged [OF assms(1) this] assms(3,4) Inr
    show ?thesis
      by (subst (asm) cf) (simp split: sum.splits)
  qed
  have ok: "r2 = Inr () \<and> fst (check_files model rundir w2) = Inr () \<and> r4 = Inr () \<Longrightarrow>
           (r, w') = extract_outfiles model rundir outdir outfile w4
           \<and> mkdirs (trace w') = mkdirs (trace w) @ [outdir]
           \<and> (\<exists>n. copied (trace w')
                    = copied (trace w) @ take n
                        [(pjoin rundir ''fort.7'', pjoin outdir (outfile @ ''.spec'')),
                         (pjoin rundir ''fort.12'', pjoin outdir (outfile @ ''.iden'')),
                         (pjoin rundir ''fort.16'', pjoin outdir (outfile @ ''.eqws'')),
                         (pjoin rundir ''fort.17'', pjoin outdir (outfile @ ''.cont'')),
                         (pjoin rundir ''fort.log'', pjoin outdir (outfile @ ''.log''))]
                  \<and> (r = Inr () \<longrightarrow> n = 5))"
  proof -
    assume a: "r2 = Inr () \<and> fst (check_files model rundir w2) = Inr () \<and> r4 = Inr ()"
    with body have e: "extract_outfiles model rundir outdir outfile w4 = (r, w')"
      by (cases "extract_outfiles model rundir outdir outfile w4") simp
    from extract_outfiles_world(3,6) [OF e] j4 e show ?thesis by simp
  qed
  have notok: "\<not> (r2 = Inr () \<and> fst (check_files model rundir w2) = Inr () \<and> r4 = Inr ()) \<Longrightarrow>
           r \<noteq> Inr () \<and> mkdirs (trace w') = mkdirs (trace w) \<and> copied (trace w') = copied (trace w)"
    using body j2 j4 by (auto split: sum.splits)
  have mk1: "node_at (nodes v) outdir = None \<and> is_dir v (butlast outdir) \<Longrightarrow>
           fst (mkdir outdir v) = Inr ()
           \<and> map_of (nodes (snd (mkdir outdir v))) outdir = Some Dir"
    by (simp add: mkdir_def Let_def update_conv')
  have mk2: "is_dir v outdir \<Longrightarrow> mkdir outdir v = (Inr (), log (Mkdir outdir) v)"
  proof -
    assume d: "is_dir v outdir"
    have "node_at (nodes v) outdir \<noteq> None"
    proof
      assume n: "node_at (nodes v) outdir = None"
      then have "chase (nodes v) 40 outdir = Some outdir" by (intro chase_non_link) simp
      with n d show False by (simp add: is_dir_def stat_def)
    qed
    with d show ?thesis by (simp add: mkdir_def Let_def)
  qed
  from ok notok mk1 mk2 show ?thesis by blast
qed

text \<open>
  C2 at concrete inputs: that run, with a solver that succeeds. The directory is made
  and the five files are copied, with what the solver wrote. With a solver that exits
  with status 1 no directory is made and nothing is copied.
\<close>

lemma C2_facts:
  "remove_potential_outfiles ''m'' [''w'', ''out''] ''m'' w_stale = (Inr (), w_stale)"
  "copy_to_rundir env_ok (linkfiles fresh) ''m'' [''w'', ''m''] [''w''] w_stale
     = (Inr (), linkfiles fresh, w_staged)"
  "run_solver env_ok (fresh\<lparr>linkfiles := linkfiles fresh\<rparr>) ''m'' [''w''] w_staged = (Inr (), w_ran)"
  "run_body env_ok fresh ''m'' [''w'', ''m''] [''w''] [''w'', ''out''] ''m'' w_stale
     = (Inr (), fresh, w_final)"
  "fst (check_files ''m'' [''w''] w_staged) = Inr ()"
  by code_simp+

lemma C2_paths:
  "pjoin [''w''] ''fort.7'' = [''w'', ''fort.7'']" "pjoin [''w''] ''fort.12'' = [''w'', ''fort.12'']"
  "pjoin [''w''] ''fort.16'' = [''w'', ''fort.16'']" "pjoin [''w''] ''fort.17'' = [''w'', ''fort.17'']"
  "pjoin [''w''] ''fort.log'' = [''w'', ''fort.log'']"
  "pjoin [''w'', ''out''] ''m.spec'' = [''w'', ''out'', ''m.spec'']"
  "pjoin [''w'', ''out''] ''m.iden'' = [''w'', ''out'', ''m.iden'']"
  "pjoin [''w'', ''out''] ''m.eqws'' = [''w'', ''out'', ''m.eqws'']"
  "pjoin [''w'', ''out''] ''m.cont'' = [''w'', ''out'', ''m.cont'']"
  "pjoin [''w'', ''out''] ''m.log'' = [''w'', ''out'', ''m.log'']"
  "trace w_stale = []"
  by code_simp+

lemma C2_content:
  "map (map_of (nodes w_final))
     [[''w'', ''out''], [''w'', ''out'', ''m.spec''], [''w'', ''out'', ''m.iden''],
      [''w'', ''out'', ''m.eqws''], [''w'', ''out'', ''m.cont''], [''w'', ''out'', ''m.log'']]
   = [Some Dir, Some (File ''spec''), Some (File ''iden''), Some (File ''eqws''),
      Some (File ''cont''), Some (File ''done'')]"
  by code_simp

lemma C2_facts_failed:
  "copy_to_rundir env_fail (linkfiles fresh) ''m'' [''w'', ''m''] [''w''] w_stale
     = (Inr (), linkfiles fresh, w_staged)"
  "run_solver env_fail (fresh\<lparr>linkfiles := linkfiles fresh\<rparr>) ''m'' [''w''] w_staged
     = (Inl (CalledProcessError 1), snd (run_solver env_fail fresh ''m'' [''w''] w_staged))"
  "run_body env_fail fresh ''m'' [''w'', ''m''] [''w''] [''w'', ''out''] ''m'' w_stale
     = (Inl (CalledProcessError 1), fresh,
        snd (snd (run_body env_fail fresh ''m'' [''w'', ''m''] [''w''] [''w'', ''out''] ''m'' w_stale)))"
  by code_simp+

theorem C2_extraction_witness:
  "mkdirs (trace w_final) = [[''w'', ''out'']]
   \<and> copied (trace w_final)
       = [([''w'', ''fort.7''], [''w'', ''out'', ''m.spec'']),
          ([''w'', ''fort.12''], [''w'', ''out'', ''m.iden'']),
          ([''w'', ''fort.16''], [''w'', ''out'', ''m.eqws'']),
          ([''w'', ''fort.17''], [''w'', ''out'', ''m.cont'']),
          ([''w'', ''fort.log''], [''w'', ''out'', ''m.log''])]
   \<and> mkdirs (trace (snd (snd (run_body env_fail fresh ''m'' [''w'', ''m''] [''w''] [''w'', ''out''] ''m'' w_stale)))) = []
   \<and> copied (trace (snd (snd (run_body env_fail fresh ''m'' [''w'', ''m''] [''w''] [''w'', ''out''] ''m'' w_stale)))) = []"
proof -
  have s: "Inl (CalledProcessError 1) \<noteq> (Inr () :: error + unit)" by simp
  from C2_extraction [OF C2_facts(1) C2_facts(2) C2_facts(3) C2_facts(4), of w_stale] C2_facts(5)
  have ok: "mkdirs (trace w_final) = [[''w'', ''out'']]
   \<and> copied (trace w_final)
       = [([''w'', ''fort.7''], [''w'', ''out'', ''m.spec'']),
          ([''w'', ''fort.12''], [''w'', ''out'', ''m.iden'']),
          ([''w'', ''fort.16''], [''w'', ''out'', ''m.eqws'']),
          ([''w'', ''fort.17''], [''w'', ''out'', ''m.cont'']),
          ([''w'', ''fort.log''], [''w'', ''out'', ''m.log''])]"
    by (auto simp: C2_paths)
  from C2_extraction [OF C2_facts(1) C2_facts_failed(1) C2_facts_failed(2) C2_facts_failed(3), of w_stale] s
  have failed: "mkdirs (trace (snd (snd (run_body env_fail fresh ''m'' [''w'', ''m''] [''w''] [''w'', ''out''] ''m'' w_stale)))) = []
   \<and> copied (trace (snd (snd (run_body env_fail fresh ''m'' [''w'', ''m''] [''w''] [''w'', ''out''] ''m'' w_stale)))) = []"
    by (auto simp: C2_paths)
  from ok failed show ?thesis by simp
qed

subsection \<open>The auxiliary file \<open>fort.56\<close>\<close>

text \<open>
  Claim C3, as the code has it. The test for \<open>fort.56\<close> looks at the link table as it
  stands after the discovered dependencies were merged in (\<open>tbl1\<close> below), not at the
  table the caller left. With an entry for \<open>fort.56\<close> there, the run configuration is
  not decoded and the table stays. Without one, the template of \<open>fort.55\<close> is filled in
  with the model name and decoded once. Then, for \<open>ichemc \<noteq> 0\<close>: if \<open>fort.56\<close> is a
  regular file in the working directory, the entry \<open>fort.56\<close> from itself is added and
  staging goes on with it; if not, the method raises \<open>FileNotFoundError\<close> with a
  message that names \<open>fort.56\<close>, and nothing is linked. For \<open>ichemc = 0\<close> staging goes on with
  the table unchanged.
\<close>

theorem C3_fort56:
  assumes "map_of tbl ''{model}.5'' = Some t"
    and "format_str (fmt_kw model modelpath) t = Inr inputfile"
    and "open_read (pjoin (cwd w) inputfile) w = (Inr txt, w1)"
    and "readinput ev txt = Inr mi"
    and "tbl1 = add_discovered w1 (dep_names (collect_reqs mi)) tbl"
    and "copy_to_rundir ev tbl model modelpath rundir w = (r, tbl', w')"
  shows "(''fort.56'' \<in> fst ` set tbl1 \<longrightarrow>
           read55_calls (trace w') = read55_calls (trace w) \<and> tbl' = tbl1)
       \<and> (''fort.56'' \<notin> fst ` set tbl1 \<and> map_of tbl1 ''fort.55'' = Some t55
            \<and> format_str [(''model'', model)] t55 = Inr cf \<longrightarrow>
           read55_calls (trace w') = read55_calls (trace w) @ [cf]
           \<and> (\<forall>cfg w2. call_read55f ev cf w1 = (Inr cfg, w2) \<longrightarrow>
                (ichemc cfg \<noteq> 0 \<and> is_file w (pjoin (cwd w) ''fort.56'') \<longrightarrow>
                   tbl' = AList.update ''fort.56'' ''fort.56'' tbl1
                   \<and> map_of tbl' ''fort.56'' = Some ''fort.56''
                   \<and> (r, w') = link_all model modelpath rundir tbl' w2)
              \<and> (ichemc cfg \<noteq> 0 \<and> \<not> is_file w (pjoin (cwd w) ''fort.56'') \<longrightarrow>
                   r = Inl (FileNotFoundError ''Need for fort.56 detected but not found'')
                   \<and> tbl' = tbl1 \<and> symlinked (trace w') = symlinked (trace w))
              \<and> (ichemc cfg = 0 \<longrightarrow>
                   tbl' = tbl1 \<and> (r, w') = link_all model modelpath rundir tbl1 w2)))"
proof -
  have w1: "w1 = log (OpenRead (pjoin (cwd w) inputfile)) w"
    using assms(3) by (auto dest: open_read_world)
  have unf: "(r, tbl', w')
           = (case detect_fort56 ev model tbl1 w1 of
                (Inl e, tbl2, w2) \<Rightarrow> (Inl e, tbl2, w2)
              | (Inr u, tbl2, w2) \<Rightarrow>
                  (case link_all model modelpath rundir tbl2 w2 of (r, w3) \<Rightarrow> (r, tbl2, w3)))"
    using copy_to_rundir_unfold [OF assms(1-4), of rundir] assms(5,6) by simp
  have has: "''fort.56'' \<in> fst ` set tbl1 \<Longrightarrow>
           read55_calls (trace w') = read55_calls (trace w) \<and> tbl' = tbl1"
  proof -
    assume "''fort.56'' \<in> fst ` set tbl1"
    then have "detect_fort56 ev model tbl1 w1 = (Inr (), tbl1, w1)"
      by (simp add: detect_fort56_def)
    with unf obtain r3 w3 where l: "link_all model modelpath rundir tbl1 w1 = (r3, w3)"
      and "tbl' = tbl1" "w' = w3"
      by (cases "link_all model modelpath rundir tbl1 w1") auto
    with link_all_journal(4) [OF l] w1 show ?thesis by simp
  qed
  have hasnot: "''fort.56'' \<notin> fst ` set tbl1 \<and> map_of tbl1 ''fort.55'' = Some t55
            \<and> format_str [(''model'', model)] t55 = Inr cf \<Longrightarrow>
           read55_calls (trace w') = read55_calls (trace w) @ [cf]
           \<and> (\<forall>cfg w2. call_read55f ev cf w1 = (Inr cfg, w2) \<longrightarrow>
                (ichemc cfg \<noteq> 0 \<and> is_file w (pjoin (cwd w) ''fort.56'') \<longrightarrow>
                   tbl' = AList.update ''fort.56'' ''fort.56'' tbl1
                   \<and> map_of tbl' ''fort.56'' = Some ''fort.56''
                   \<and> (r, w') = link_all model modelpath rundir tbl' w2)
              \<and> (ichemc cfg \<noteq> 0 \<and> \<not> is_file w (pjoin (cwd w) ''fort.56'') \<longrightarrow>
                   r = Inl (FileNotFoundError ''Need for fort.56 detected but not found'')
                   \<and> tbl' = tbl1 \<and> symlinked (trace w') = symlinked (trace w))
              \<and> (ichemc cfg = 0 \<longrightarrow>
                   tbl' = tbl1 \<and> (r, w') = link_all model modelpath rundir tbl1 w2))"
  proof -
    assume h: "''fort.56'' \<notin> fst ` set tbl1 \<and> map_of tbl1 ''fort.55'' = Some t55
            \<and> format_str [(''model'', model)] t55 = Inr cf"
    obtain rc wc where c: "call_read55f ev cf w1 = (rc, wc)"
      by (cases "call_read55f ev cf w1")
    have wc: "wc = log (OpenRead (pjoin (cwd w1) cf)) (log (Read55f cf) w1)"
      using call_read55f_world [OF c] .
    have det: "detect_fort56 ev model tbl1 w1
        = (case rc of
             Inl e \<Rightarrow> (Inl e, tbl1, wc)
           | Inr cfg \<Rightarrow>
               if ichemc cfg \<noteq> 0 then
                 (if is_file w (pjoin (cwd w) ''fort.56'')
                  then (Inr (), AList.update ''fort.56'' ''fort.56'' tbl1, wc)
                  else (Inl (FileNotFoundError ''Need for fort.56 detected but not found''), tbl1, wc))
               else (Inr (), tbl1, wc))"
      using h c by (simp add: detect_fort56_def wc w1 split: sum.splits)
    have calls: "read55_calls (trace w') = read55_calls (trace w) @ [cf]"
    proof (cases "detect_fort56 ev model tbl1 w1")
      case (fields rd tbl2 w2)
      with det have w2: "w2 = wc" by (auto split: sum.splits if_splits)
      show ?thesis
      proof (cases rd)
        case (Inl e)
        with unf fields have "w' = w2" by simp
        with w2 wc w1 show ?thesis by simp
      next
        case (Inr u)
        with unf fields obtain r3 where "link_all model modelpath rundir tbl2 w2 = (r3, w')"
          by (cases "link_all model modelpath rundir tbl2 w2") auto
        from link_all_journal(4) [OF this] w2 wc w1 show ?thesis by simp
      qed
    qed
    have rest: "\<And>cfg w2. call_read55f ev cf w1 = (Inr cfg, w2) \<Longrightarrow>
                (ichemc cfg \<noteq> 0 \<and> is_file w (pjoin (cwd w) ''fort.56'') \<longrightarrow>
                   tbl' = AList.update ''fort.56'' ''fort.56'' tbl1
                   \<and> map_of tbl' ''fort.56'' = Some ''fort.56''
                   \<and> (r, w') = link_all model modelpath rundir tbl' w2)
              \<and> (ichemc cfg \<noteq> 0 \<and> \<not> is_file w (pjoin (cwd w) ''fort.56'') \<longrightarrow>
                   r = Inl (FileNotFoundError ''Need for fort.56 detected but not found'')
                   \<and> tbl' = tbl1 \<and> symlinked (trace w') = symlinked (trace w))
              \<and> (ichemc cfg = 0 \<longrightarrow>
                   tbl' = tbl1 \<and> (r, w') = link_all model modelpath rundir tbl1 w2)"
    proof -
      fix cfg w2
      assume "call_read55f ev cf w1 = (Inr cfg, w2)"
      with c have rc: "rc = Inr cfg" and w2: "w2 = wc" by simp_all
      show "(ichemc cfg \<noteq> 0 \<and> is_file w (pjoin (cwd w) ''fort.56'') \<longrightarrow>
                   tbl' = AList.update ''fort.56'' ''fort.56'' tbl1
                   \<and> map_of tbl' ''fort.56'' = Some ''fort.56''
                   \<and> (r, w') = link_all model modelpath rundir tbl' w2)
              \<and> (ichemc cfg \<noteq> 0 \<and> \<not> is_file w (pjoin (cwd w) ''fort.56'') \<longrightarrow>
                   r = Inl (FileNotFoundError ''Need for fort.56 detected but not found'')
                   \<and> tbl' = tbl1 \<and> symlinked (trace w') = symlinked (trace w))
              \<and> (ichemc cfg = 0 \<longrightarrow>
                   tbl' = tbl1 \<and> (r, w') = link_all model modelpath rundir tbl1 w2)"
        using unf det rc w2 wc w1
        by (auto simp: update_conv' split: prod.splits)
    qed
    from calls rest show ?thesis by blast
  qed
  from has hasnot show ?thesis by blast
qed

text \<open>
  C3 at concrete inputs: \<open>ichemc = 1\<close> and a descriptor without references. For a new
  instance with \<open>fort.56\<close> in the working directory the configuration is decoded and
  the entry added; for an instance that has \<open>fort.56\<close> linked already the configuration
  is not decoded; for a new instance without the file the method raises.
\<close>

lemma C3_facts:
  "map_of (linkfiles fresh) ''{model}.5'' = Some ''{modelpath}.5''"
  "path_str [''w'', ''m''] = ''/w/m''"
  "open_read (pjoin (cwd w_chem) ''/w/m.5'') w_chem = (Inr ''input'', log (OpenRead [''w'', ''m.5'']) w_chem)"
  "readinput env_chem ''input'' = Inr \<lparr>finstd = None, ions = None\<rparr>"
  "linkfiles fresh = add_discovered (log (OpenRead [''w'', ''m.5'']) w_chem)
                       (dep_names (collect_reqs \<lparr>finstd = None, ions = None\<rparr>)) (linkfiles fresh)"
  "''fort.56'' \<notin> fst ` set (linkfiles fresh)"
  "map_of (linkfiles fresh) ''fort.55'' = Some ''fort.55''"
  "call_read55f env_chem ''fort.55'' (log (OpenRead [''w'', ''m.5'']) w_chem)
     = (Inr \<lparr>ichemc = 1\<rparr>, snd (call_read55f env_chem ''fort.55'' (log (OpenRead [''w'', ''m.5'']) w_chem)))"
  "is_file w_chem (pjoin (cwd w_chem) ''fort.56'')"
  "trace w_chem = []"
  by code_simp+

lemma C3_facts_linked:
  "map_of (linkfiles with56) ''{model}.5'' = Some ''{modelpath}.5''"
  "linkfiles with56 = add_discovered (log (OpenRead [''w'', ''m.5'']) w_chem)
                        (dep_names (collect_reqs \<lparr>finstd = None, ions = None\<rparr>)) (linkfiles with56)"
  "''fort.56'' \<in> fst ` set (linkfiles with56)"
  by code_simp+

lemma C3_facts_missing:
  "open_read (pjoin (cwd w_stale) ''/w/m.5'') w_stale = (Inr ''input'', log (OpenRead [''w'', ''m.5'']) w_stale)"
  "linkfiles fresh = add_discovered (log (OpenRead [''w'', ''m.5'']) w_stale)
                       (dep_names (collect_reqs \<lparr>finstd = None, ions = None\<rparr>)) (linkfiles fresh)"
  "call_read55f env_chem ''fort.55'' (log (OpenRead [''w'', ''m.5'']) w_stale)
     = (Inr \<lparr>ichemc = 1\<rparr>, snd (call_read55f env_chem ''fort.55'' (log (OpenRead [''w'', ''m.5'']) w_stale)))"
  "\<not> is_file w_stale (pjoin (cwd w_stale) ''fort.56'')"
  by code_simp+

theorem C3_fort56_witness:
  "read55_calls (trace (snd (snd (copy_to_rundir env_chem (linkfiles fresh) ''m'' [''w'', ''m''] [''w''] w_chem))))
     = [''fort.55'']
   \<and> map_of (fst (snd (copy_to_rundir env_chem (linkfiles fresh) ''m'' [''w'', ''m''] [''w''] w_chem))) ''fort.56''
     = Some ''fort.56''
   \<and> read55_calls (trace (snd (snd (copy_to_rundir env_chem (linkfiles with56) ''m'' [''w'', ''m''] [''w''] w_chem))))
     = []
   \<and> fst (copy_to_rundir env_chem (linkfiles fresh) ''m'' [''w'', ''m''] [''w''] w_stale)
     = Inl (FileNotFoundError ''Need for fort.56 detected but not found'')"
proof -
  have f: "format_str (fmt_kw ''m'' [''w'', ''m'']) ''{modelpath}.5'' = Inr ''/w/m.5''"
    by (simp add: format_modelpath_5 C3_facts(2))
  have c: "\<And>tbl u. copy_to_rundir env_chem tbl ''m'' [''w'', ''m''] [''w''] u
       = (fst (copy_to_rundir env_chem tbl ''m'' [''w'', ''m''] [''w''] u),
          fst (snd (copy_to_rundir env_chem tbl ''m'' [''w'', ''m''] [''w''] u)),
          snd (snd (copy_to_rundir env_chem tbl ''m'' [''w'', ''m''] [''w''] u)))"
    by simp
  have one: "ichemc \<lparr>ichemc = 1\<rparr> \<noteq> 0" by simp
  note f55 = format_fort_55 [of "[(''model'', ''m'')]"]
  from C3_fort56 [OF C3_facts(1) f C3_facts(3) C3_facts(4) C3_facts(5) c,
      where ?t55.0 = "''fort.55''" and cf = "''fort.55''"]
    C3_facts(6,7,8,9,10) one f55
  have added: "read55_calls (trace (snd (snd (copy_to_rundir env_chem (linkfiles fresh) ''m'' [''w'', ''m''] [''w''] w_chem))))
     = [''fort.55'']
   \<and> map_of (fst (snd (copy_to_rundir env_chem (linkfiles fresh) ''m'' [''w'', ''m''] [''w''] w_chem))) ''fort.56''
     = Some ''fort.56''"
    by (auto simp: update_conv')
  from C3_fort56 [OF C3_facts_linked(1) f C3_facts(3) C3_facts(4) C3_facts_linked(2) c,
      where ?t55.0 = "''fort.55''" and cf = "''fort.55''"]
    C3_facts_linked(3) C3_facts(10)
  have linked: "read55_calls (trace (snd (snd (copy_to_rundir env_chem (linkfiles with56) ''m'' [''w'', ''m''] [''w''] w_chem)))) = []"
    by auto
  from C3_fort56 [OF C3_facts(1) f C3_facts_missing(1) C3_facts(4) C3_facts_missing(2) c,
      where ?t55.0 = "''fort.55''" and cf = "''fort.55''"]
    C3_facts(6,7) C3_facts_missing(3,4) one f55
  have missing: "fst (copy_to_rundir env_chem (linkfiles fresh) ''m'' [''w'', ''m''] [''w''] w_stale)
     = Inl (FileNotFoundError ''Need for fort.56 detected but not found'')"
    by auto
  from added linked missing show ?thesis by simp
qed

text \<open>
  The claim has the run configuration decoded in every run whose caller left no entry
  for \<open>fort.56\<close>. Here the caller left none, but the input descriptor names
  \<open>fort.56\<close> as an ion file and the file is there: discovery enters it, the test finds
  it, and the run goes through without decoding \<open>fort.55\<close>.
\<close>

theorem C3_counterexample:
  "''fort.56'' \<notin> fst ` set (linkfiles fresh)
   \<and> fst (run env_ion56 fresh ''m'' (Some ''.'') None None w_chem) = Inr ()
   \<and> read55_calls (trace (snd (snd (run env_ion56 fresh ''m'' (Some ''.'') None None w_chem)))) = []
   \<and> map_of (linkfiles (fst (snd (run env_ion56 fresh ''m'' (Some ''.'') None None w_chem)))) ''fort.56''
       = Some ''fort.56''"
  by code_simp


subsection \<open>Discovery of dependencies\<close>

text \<open>
  Claim C4. The references are the standard file, when the descriptor has a non-empty
  one, and the file of every ion. The candidates are the first segments of the
  references that are not absolute, each once. After the loop over the candidates the
  table maps a name to itself exactly when the name is a candidate that exists in the
  working directory and was not a key of the table before, and it maps every other
  name as before. That is the table \<^verbatim>\<open>_copy_to_rundir\<close> goes on with; only the
  entry for \<open>fort.56\<close> may still change (claim C3).
\<close>

theorem C4_discovery:
  "set (collect_reqs mi)
     = (case finstd mi of None \<Rightarrow> {} | Some f \<Rightarrow> if f = [] then {} else {f})
       \<union> (case ions mi of None \<Rightarrow> {} | Some is \<Rightarrow> filei ` set is)
   \<and> set (dep_names reqs) = first_segment ` {x \<in> set reqs. \<not> is_absolute x}
   \<and> distinct (dep_names reqs)
   \<and> map_of (add_discovered w cands tbl) k
       = (if k \<in> set cands \<and> exists w (pjoin (cwd w) k) \<and> k \<notin> fst ` set tbl then Some k
          else map_of tbl k)
   \<and> (map_of tbl ''{model}.5'' = Some t
        \<and> format_str (fmt_kw model modelpath) t = Inr inputfile
        \<and> open_read (pjoin (cwd w) inputfile) w = (Inr txt, w1)
        \<and> readinput ev txt = Inr mi
        \<and> k \<noteq> ''fort.56''
      \<longrightarrow> map_of (fst (snd (copy_to_rundir ev tbl model modelpath rundir w))) k
           = (if k \<in> first_segment ` {x \<in> set (collect_reqs mi). \<not> is_absolute x}
                 \<and> exists w (pjoin (cwd w) k) \<and> k \<notin> fst ` set tbl then Some k
              else map_of tbl k))"
proof (intro conjI impI)
  show "set (collect_reqs mi)
     = (case finstd mi of None \<Rightarrow> {} | Some f \<Rightarrow> if f = [] then {} else {f})
       \<union> (case ions mi of None \<Rightarrow> {} | Some is \<Rightarrow> filei ` set is)"
    by (auto simp: collect_reqs_def split: option.splits)
  show names: "\<And>reqs. set (dep_names reqs) = first_segment ` {x \<in> set reqs. \<not> is_absolute x}"
    by (auto simp: dep_names_def)
  show "distinct (dep_names reqs)"
    by (simp add: dep_names_def)
  show "map_of (add_discovered w cands tbl) k
       = (if k \<in> set cands \<and> exists w (pjoin (cwd w) k) \<and> k \<notin> fst ` set tbl then Some k
          else map_of tbl k)"
    by (rule add_discovered_map_of)
  assume a: "map_of tbl ''{model}.5'' = Some t
        \<and> format_str (fmt_kw model modelpath) t = Inr inputfile
        \<and> open_read (pjoin (cwd w) inputfile) w = (Inr txt, w1)
        \<and> readinput ev txt = Inr mi
        \<and> k \<noteq> ''fort.56''"
  let ?tbl1 = "add_discovered w1 (dep_names (collect_reqs mi)) tbl"
  obtain r tbl2 w2 where d: "detect_fort56 ev model ?tbl1 w1 = (r, tbl2, w2)"
    by (cases "detect_fort56 ev model ?tbl1 w1")
  from a have eq: "fst (snd (copy_to_rundir ev tbl model modelpath rundir w)) = tbl2"
    using copy_to_rundir_table [where rundir=rundir] d
    by simp
  from detect_fort56_table [OF d] a have "map_of tbl2 k = map_of ?tbl1 k"
    by (auto simp: update_conv')
  moreover from a have "w1 = log (OpenRead (pjoin (cwd w) inputfile)) w"
    by (auto dest: open_read_world)
  ultimately show "map_of (fst (snd (copy_to_rundir ev tbl model modelpath rundir w))) k
           = (if k \<in> first_segment ` {x \<in> set (collect_reqs mi). \<not> is_absolute x}
                 \<and> exists w (pjoin (cwd w) k) \<and> k \<notin> fst ` set tbl then Some k
              else map_of tbl k)"
    by (simp only: eq add_discovered_log add_discovered_map_of names)
qed

lemma C4_facts:
  "map_of (linkfiles fresh) ''{model}.5'' = Some ''{modelpath}.5''"
  "open_read (pjoin (cwd w_data) ''/w/m.5'') w_data = (Inr ''input'', log (OpenRead [''w'', ''m.5'']) w_data)"
  "readinput env_ions ''input''
     = Inr \<lparr>finstd = Some [],
            ions = Some [\<lparr>filei = ''data/h1.dat''\<rparr>, \<lparr>filei = ''./data/he1.dat''\<rparr>,
                         \<lparr>filei = ''nst_l/c.dat''\<rparr>, \<lparr>filei = ''/opt/atoms/n.dat''\<rparr>]\<rparr>"
  "path_str [''w'', ''m''] = ''/w/m''"
  "dep_names (collect_reqs \<lparr>finstd = Some [],
            ions = Some [\<lparr>filei = ''data/h1.dat''\<rparr>, \<lparr>filei = ''./data/he1.dat''\<rparr>,
                         \<lparr>filei = ''nst_l/c.dat''\<rparr>, \<lparr>filei = ''/opt/atoms/n.dat''\<rparr>]\<rparr>)
     = [''data'', ''nst_l'']"
  "exists w_data (pjoin (cwd w_data) ''data'')"
  "\<not> exists w_data (pjoin (cwd w_data) ''nst_l'')"
  "''data'' \<notin> fst ` set (linkfiles fresh)"
  "map_of (linkfiles fresh) ''nst_l'' = None"
  by code_simp+

theorem C4_discovery_witness:
  "map_of (fst (snd (copy_to_rundir env_ions (linkfiles fresh) ''m'' [''w'', ''m''] [''w''] w_data))) ''data''
     = Some ''data''
   \<and> map_of (fst (snd (copy_to_rundir env_ions (linkfiles fresh) ''m'' [''w'', ''m''] [''w''] w_data))) ''nst_l''
     = None"
proof -
  let ?mi = "\<lparr>finstd = Some [],
            ions = Some [\<lparr>filei = ''data/h1.dat''\<rparr>, \<lparr>filei = ''./data/he1.dat''\<rparr>,
                         \<lparr>filei = ''nst_l/c.dat''\<rparr>, \<lparr>filei = ''/opt/atoms/n.dat''\<rparr>]\<rparr>"
  have f: "format_str (fmt_kw ''m'' [''w'', ''m'']) ''{modelpath}.5'' = Inr ''/w/m.5''"
    by (simp add: format_modelpath_5 C4_facts(4))
  have n: "first_segment ` {x \<in> set (collect_reqs ?mi). \<not> is_absolute x} = {''data'', ''nst_l''}"
    using C4_discovery [of ?mi "collect_reqs ?mi"] C4_facts(5) by simp
  have "''data'' \<noteq> ''fort.56''" "''nst_l'' \<noteq> ''fort.56''" by simp_all
  with C4_discovery [of ?mi "collect_reqs ?mi" w_data "[]" "linkfiles fresh" "''data''"
      "''{modelpath}.5''" "''m''" "[''w'', ''m'']" "''/w/m.5''" "''input''"
      "log (OpenRead [''w'', ''m.5'']) w_data" env_ions "[''w'']"]
    C4_discovery [of ?mi "collect_reqs ?mi" w_data "[]" "linkfiles fresh" "''nst_l''"
      "''{modelpath}.5''" "''m''" "[''w'', ''m'']" "''/w/m.5''" "''input''"
      "log (OpenRead [''w'', ''m.5'']) w_data" env_ions "[''w'']"]
    f C4_facts(1,2,3,6,7,8,9) n
  show ?thesis by simp
qed


subsection \<open>The check of the required files\<close>

text \<open>
  Claim C5. The check runs on the state that staging (discovery, the merge into the link
  table and the links) has left, and before the runner. It looks for \<open>fort.19\<close>,
  \<open>fort.55\<close>, \<open>{model}.5\<close> and \<open>{model}.7\<close> in the run directory, in this order. If
  one is missing, \<^verbatim>\<open>run\<close> raises \<open>FileNotFoundError\<close> for the first that is, with the
  absolute path of the file in the run directory in the message; nothing further is done
  and no solver process has been started. If all four are there the check passes and
  the runner is next.
\<close>

theorem C5_required_files:
  assumes "remove_potential_outfiles model outdir outfile w = (r1, w1)"
    and "copy_to_rundir ev (linkfiles s) model modelpath rundir w1 = (Inr (), tbl, w2)"
  shows "(\<forall>f. find (\<lambda>f. \<not> exists w2 (pjoin rundir f))
               [''fort.19'', ''fort.55'', model @ ''.5'', model @ ''.7''] = Some f \<longrightarrow>
            run_body ev s model modelpath rundir outdir outfile w
              = (Inl (FileNotFoundError (path_str (pjoin rundir f) @ '' not found'')),
                 s\<lparr>linkfiles := tbl\<rparr>, w2)
            \<and> is_absolute (path_str (pjoin rundir f))
            \<and> spawned (trace w2) = spawned (trace w))
       \<and> (find (\<lambda>f. \<not> exists w2 (pjoin rundir f))
               [''fort.19'', ''fort.55'', model @ ''.5'', model @ ''.7''] = None \<longrightarrow>
            check_files model rundir w2 = (Inr (), w2)
            \<and> run_body ev s model modelpath rundir outdir outfile w
              = (case run_solver ev (s\<lparr>linkfiles := tbl\<rparr>) model rundir w2 of
                   (Inl e, w4) \<Rightarrow> (Inl e, s\<lparr>linkfiles := tbl\<rparr>, w4)
                 | (Inr u, w4) \<Rightarrow>
                     (case extract_outfiles model rundir outdir outfile w4 of
                        (r, w5) \<Rightarrow> (r, s\<lparr>linkfiles := tbl\<rparr>, w5))))"
proof (intro conjI allI impI)
  fix f
  assume m: "find (\<lambda>f. \<not> exists w2 (pjoin rundir f))
               [''fort.19'', ''fort.55'', model @ ''.5'', model @ ''.7''] = Some f"
  have "check_files model rundir w2
          = (Inl (FileNotFoundError (path_str (pjoin rundir f) @ '' not found'')), w2)"
    by (simp only: check_files_find m option.case)
  then show "run_body ev s model modelpath rundir outdir outfile w
              = (Inl (FileNotFoundError (path_str (pjoin rundir f) @ '' not found'')),
                 s\<lparr>linkfiles := tbl\<rparr>, w2)"
    by (simp add: run_body_staged [OF assms])
  show "is_absolute (path_str (pjoin rundir f))"
    by (rule path_str_absolute)
  have "spawned (trace w2) = spawned (trace w1)"
    using stages_journal(1) [OF stages_copy_to_rundir [OF assms(2)]] .
  also have "\<dots> = spawned (trace w)"
    using remove_potential_outfiles_world(4) [OF assms(1)] .
  finally show "spawned (trace w2) = spawned (trace w)" .
next
  assume n: "find (\<lambda>f. \<not> exists w2 (pjoin rundir f))
               [''fort.19'', ''fort.55'', model @ ''.5'', model @ ''.7''] = None"
  show c: "check_files model rundir w2 = (Inr (), w2)"
    by (simp only: check_files_find n option.case)
  show "run_body ev s model modelpath rundir outdir outfile w
              = (case run_solver ev (s\<lparr>linkfiles := tbl\<rparr>) model rundir w2 of
                   (Inl e, w4) \<Rightarrow> (Inl e, s\<lparr>linkfiles := tbl\<rparr>, w4)
                 | (Inr u, w4) \<Rightarrow>
                     (case extract_outfiles model rundir outdir outfile w4 of
                        (r, w5) \<Rightarrow> (r, s\<lparr>linkfiles := tbl\<rparr>, w5)))"
    by (simp add: run_body_staged [OF assms] c)
qed

text \<open>
  C5 at concrete inputs: the run in place in that directory, with a solver that would
  succeed, stops at the check, and the error names \<open>/w/fort.55\<close>; in the directory
  that has all four the check passes.
\<close>

lemma C5_facts:
  "remove_potential_outfiles ''m'' [''w''] ''m'' w_no55 = (Inr (), w_no55)"
  "copy_to_rundir env_ok (linkfiles with56) ''m'' [''w'', ''m''] [''w''] w_no55
     = (Inr (), linkfiles with56, w_no55_staged)"
  "find (\<lambda>f. \<not> exists w_no55_staged (pjoin [''w''] f))
               [''fort.19'', ''fort.55'', ''m'' @ ''.5'', ''m'' @ ''.7''] = Some ''fort.55''"
  "path_str (pjoin [''w''] ''fort.55'') = ''/w/fort.55''"
  "trace w_no55 = []"
  by code_simp+

lemma C5_facts_present:
  "remove_potential_outfiles ''m'' [''w'', ''out''] ''m'' w_stale = (Inr (), w_stale)"
  "copy_to_rundir env_ok (linkfiles fresh) ''m'' [''w'', ''m''] [''w''] w_stale
     = (Inr (), linkfiles fresh, w_staged)"
  "find (\<lambda>f. \<not> exists w_staged (pjoin [''w''] f))
               [''fort.19'', ''fort.55'', ''m'' @ ''.5'', ''m'' @ ''.7''] = None"
  by code_simp+

theorem C5_required_files_witness:
  "fst (run_body env_ok with56 ''m'' [''w'', ''m''] [''w''] [''w''] ''m'' w_no55)
     = Inl (FileNotFoundError ''/w/fort.55 not found'')
   \<and> spawned (trace (snd (snd (run_body env_ok with56 ''m'' [''w'', ''m''] [''w''] [''w''] ''m'' w_no55)))) = []
   \<and> check_files ''m'' [''w''] w_staged = (Inr (), w_staged)"
  using C5_required_files [OF C5_facts(1) C5_facts(2)] C5_facts(3,4,5)
    C5_required_files [OF C5_facts_present(1) C5_facts_present(2)] C5_facts_present(3)
  by simp

subsection \<open>The runner\<close>

text \<open>
  Claim C6, as the code has it. The runner first forces the link \<open>fort.8\<close> to
  \<open>{model}.7\<close> in the run directory, whatever follows. Once the link is made and the
  input descriptor and the log are open, it starts the solver exactly once: the
  executable alone as argument vector, standard input from \<open>{model}.5\<close> in the run
  directory, standard output to \<open>fort.log\<close> there, the run directory as working
  directory, and standard error not redirected (it stays the caller's). The result is
  success for exit status 0 and \<open>CalledProcessError\<close> with the status otherwise. The
  runner never starts anything else and never succeeds without having started the solver.
\<close>

theorem C6_runner:
  "symlinked (trace (snd (run_solver ev s model rundir w)))
     = symlinked (trace w) @ [(model @ ''.7'', pjoin rundir ''fort.8'')]
   \<and> (symlinkf (model @ ''.7'') (pjoin rundir ''fort.8'') w = (Inr (), w1)
        \<and> open_read (pjoin rundir (model @ ''.5'')) w1 = (Inr inp, w2)
        \<and> open_write (pjoin rundir ''fort.log'') [] w2 = (Inr (), w3)
      \<longrightarrow> trace (snd (run_solver ev s model rundir w))
            = trace w @ [Symlinkf (model @ ''.7'') (pjoin rundir ''fort.8''),
                         OpenRead (pjoin rundir (model @ ''.5'')),
                         OpenWrite (pjoin rundir ''fort.log'') (resolve_path w2 (pjoin rundir ''fort.log'')),
                         Spawn \<lparr>argv = [synspec s],
                                stdin_file = pjoin rundir (model @ ''.5''),
                                stdout_file = pjoin rundir ''fort.log'',
                                stderr_file = None,
                                spawn_cwd = rundir\<rparr>]
          \<and> fst (run_solver ev s model rundir w)
            = (case fst (solver ev \<lparr>argv = [synspec s],
                                    stdin_file = pjoin rundir (model @ ''.5''),
                                    stdout_file = pjoin rundir ''fort.log'',
                                    stderr_file = None,
                                    spawn_cwd = rundir\<rparr> inp (nodes w3)) of
                 NotStarted e \<Rightarrow> Inl e
               | Exited c \<Rightarrow> if c \<noteq> 0 then Inl (CalledProcessError c) else Inr ()))
   \<and> (spawned (trace (snd (run_solver ev s model rundir w)))
         = spawned (trace w) @ [\<lparr>argv = [synspec s],
                                 stdin_file = pjoin rundir (model @ ''.5''),
                                 stdout_file = pjoin rundir ''fort.log'',
                                 stderr_file = None,
                                 spawn_cwd = rundir\<rparr>]
       \<or> spawned (trace (snd (run_solver ev s model rundir w))) = spawned (trace w)
         \<and> fst (run_solver ev s model rundir w) \<noteq> Inr ())"
proof (intro conjI impI)
  show "symlinked (trace (snd (run_solver ev s model rundir w)))
     = symlinked (trace w) @ [(model @ ''.7'', pjoin rundir ''fort.8'')]"
    by (auto simp: run_solver_def subprocess_run_trace split: prod.splits sum.splits
          dest!: symlinkf_world(1) open_read_world open_write_world(1))
next
  assume prep: "symlinkf (model @ ''.7'') (pjoin rundir ''fort.8'') w = (Inr (), w1)
        \<and> open_read (pjoin rundir (model @ ''.5'')) w1 = (Inr inp, w2)
        \<and> open_write (pjoin rundir ''fort.log'') [] w2 = (Inr (), w3)"
  then have t1: "trace w1 = trace w @ [Symlinkf (model @ ''.7'') (pjoin rundir ''fort.8'')]"
    and t2: "w2 = log (OpenRead (pjoin rundir (model @ ''.5''))) w1"
    and t3: "trace w3 = trace w2 @ [OpenWrite (pjoin rundir ''fort.log'') (resolve_path w2 (pjoin rundir ''fort.log''))]"
    by (auto dest: symlinkf_world(1) open_read_world open_write_world(1))
  obtain r4 w4 where sp: "subprocess_run ev \<lparr>argv = [synspec s],
                                stdin_file = pjoin rundir (model @ ''.5''),
                                stdout_file = pjoin rundir ''fort.log'',
                                stderr_file = None,
                                spawn_cwd = rundir\<rparr> inp w3 = (r4, w4)"
    by (cases "subprocess_run ev \<lparr>argv = [synspec s],
                                stdin_file = pjoin rundir (model @ ''.5''),
                                stdout_file = pjoin rundir ''fort.log'',
                                stderr_file = None,
                                spawn_cwd = rundir\<rparr> inp w3")
  from prep sp have rs: "run_solver ev s model rundir w = (r4, w4)"
    by (simp add: run_solver_def)
  from sp t1 t2 t3 show "trace (snd (run_solver ev s model rundir w))
            = trace w @ [Symlinkf (model @ ''.7'') (pjoin rundir ''fort.8''),
                         OpenRead (pjoin rundir (model @ ''.5'')),
                         OpenWrite (pjoin rundir ''fort.log'') (resolve_path w2 (pjoin rundir ''fort.log'')),
                         Spawn \<lparr>argv = [synspec s],
                                stdin_file = pjoin rundir (model @ ''.5''),
                                stdout_file = pjoin rundir ''fort.log'',
                                stderr_file = None,
                                spawn_cwd = rundir\<rparr>]"
    by (simp add: rs subprocess_run_world(1) [OF sp])
  from sp show "fst (run_solver ev s model rundir w)
            = (case fst (solver ev \<lparr>argv = [synspec s],
                                    stdin_file = pjoin rundir (model @ ''.5''),
                                    stdout_file = pjoin rundir ''fort.log'',
                                    stderr_file = None,
                                    spawn_cwd = rundir\<rparr> inp (nodes w3)) of
                 NotStarted e \<Rightarrow> Inl e
               | Exited c \<Rightarrow> if c \<noteq> 0 then Inl (CalledProcessError c) else Inr ())"
    using subprocess_run_result [of ev "\<lparr>argv = [synspec s],
                                    stdin_file = pjoin rundir (model @ ''.5''),
                                    stdout_file = pjoin rundir ''fort.log'',
                                    stderr_file = None,
                                    spawn_cwd = rundir\<rparr>" inp w3] by (simp add: rs)
next
  show "spawned (trace (snd (run_solver ev s model rundir w)))
         = spawned (trace w) @ [\<lparr>argv = [synspec s],
                                 stdin_file = pjoin rundir (model @ ''.5''),
                                 stdout_file = pjoin rundir ''fort.log'',
                                 stderr_file = None,
                                 spawn_cwd = rundir\<rparr>]
       \<or> spawned (trace (snd (run_solver ev s model rundir w))) = spawned (trace w)
         \<and> fst (run_solver ev s model rundir w) \<noteq> Inr ()"
    by (auto simp: run_solver_def subprocess_run_trace split: prod.splits sum.splits
          dest!: symlinkf_world(1) open_read_world open_write_world(1))
qed

text \<open>
  C6 at a concrete input: the model \<open>m\<close> in \<open>/w\<close>, run in place with a solver that
  succeeds.
\<close>

lemma C6_prep:
  "symlinkf (''m'' @ ''.7'') (pjoin [''w''] ''fort.8'') w_stale = (Inr (), w_linked)"
  "open_read (pjoin [''w''] (''m'' @ ''.5'')) w_linked = (Inr ''input'', w_input_open)"
  "open_write (pjoin [''w''] ''fort.log'') [] w_input_open = (Inr (), w_log_open)"
  by code_simp+

lemma C6_paths:
  "pjoin [''w''] ''m.5'' = [''w'', ''m.5'']" "pjoin [''w''] ''fort.log'' = [''w'', ''fort.log'']"
  "pjoin [''w''] ''fort.8'' = [''w'', ''fort.8'']" "synspec fresh = ''synspec''" "trace w_stale = []"
  by code_simp+

theorem C6_runner_witness:
  "fst (run_solver env_ok fresh ''m'' [''w''] w_stale) = Inr ()
   \<and> spawned (trace (snd (run_solver env_ok fresh ''m'' [''w''] w_stale)))
       = [\<lparr>argv = [''synspec''], stdin_file = [''w'', ''m.5''],
           stdout_file = [''w'', ''fort.log''], stderr_file = None, spawn_cwd = [''w'']\<rparr>]"
  using C6_runner [of env_ok fresh "''m''" "[''w'']" w_stale w_linked "''input''" w_input_open w_log_open] C6_prep
  by (simp add: C6_paths env_ok_def good_solver_def)

text \<open>
  The claim has standard error bound to the log file. In the same run the request
  leaves standard error alone.
\<close>

theorem C6_counterexample:
  "map stderr_file (spawned (trace (snd (run_solver env_ok fresh ''m'' [''w''] w_stale)))) = [None]
   \<and> map stdout_file (spawned (trace (snd (run_solver env_ok fresh ''m'' [''w''] w_stale))))
       = [[''w'', ''fort.log'']]
   \<and> map stderr_file (spawned (trace (snd (run_solver env_ok fresh ''m'' [''w''] w_stale))))
       \<noteq> [Some [''w'', ''fort.log'']]"
  by code_simp


subsection \<open>One round of staging\<close>

lemma link_step_error:
  "foldl (\<lambda>(r, w) (dst, src). case r of Inl e \<Rightarrow> (Inl e, w)
            | Inr u \<Rightarrow> link_one model modelpath rundir dst src w) (Inl e, w) tbl = (Inl e, w)"
  by (induction tbl) auto

lemma link_all_foldl:
  "link_all model modelpath rundir tbl w
     = foldl (\<lambda>(r, w) (dst, src). case r of Inl e \<Rightarrow> (Inl e, w)
                | Inr u \<Rightarrow> link_one model modelpath rundir dst src w) (Inr (), w) tbl"
proof (induction tbl arbitrary: w)
  case Nil
  show ?case by simp
next
  case (Cons a tbl)
  obtain dst src where a: "a = (dst, src)" by (cases a)
  obtain r w1 where one: "link_one model modelpath rundir dst src w = (r, w1)"
    by (cases "link_one model modelpath rundir dst src w")
  show ?case
  proof (cases r)
    case (Inl e)
    with a one show ?thesis by (simp add: link_step_error)
  next
    case (Inr u)
    with a one Cons.IH [of w1] show ?thesis by simp
  qed
qed

text \<open>
  Claim C8. Staging goes through the link table in its order, one round per entry, and
  stops at the first round that fails. In a round whose two templates are filled in to
  \<open>fsrc\<close> and \<open>fdst\<close>, nothing is done exactly when the run directory is the resolved
  working directory and \<open>fsrc\<close> and \<open>fdst\<close> resolve to the same location. In every
  other case \<open>symlinkf\<close> is called once, with the resolved source as target and the
  destination in the run directory; unless the destination is a directory or its
  directory is missing, the call succeeds and the destination then is that link,
  whatever file or link was there before.
\<close>

theorem C8_staging_round:
  assumes "format_str (fmt_kw model modelpath) src = Inr fsrc"
    and "format_str (fmt_kw model modelpath) dst = Inr fdst"
  shows "(rundir = resolve_path w (cwd w) \<and> resolve w fsrc = resolve w fdst \<longrightarrow>
            link_one model modelpath rundir dst src w = (Inr (), w))
       \<and> (\<not> (rundir = resolve_path w (cwd w) \<and> resolve w fsrc = resolve w fdst) \<longrightarrow>
            link_one model modelpath rundir dst src w
              = symlinkf (path_str (resolve w fsrc)) (pjoin rundir fdst) w
            \<and> symlinked (trace (snd (link_one model modelpath rundir dst src w)))
              = symlinked (trace w) @ [(path_str (resolve w fsrc), pjoin rundir fdst)]
            \<and> (node_at (nodes w) (pjoin rundir fdst) \<noteq> Some Dir
                 \<and> is_dir w (butlast (pjoin rundir fdst)) \<longrightarrow>
                 fst (link_one model modelpath rundir dst src w) = Inr ()
                 \<and> map_of (nodes (snd (link_one model modelpath rundir dst src w))) (pjoin rundir fdst)
                     = Some (Link (path_str (resolve w fsrc)))))
       \<and> link_all model modelpath rundir tbl w
           = foldl (\<lambda>(r, w) (dst, src). case r of Inl e \<Rightarrow> (Inl e, w)
                      | Inr u \<Rightarrow> link_one model modelpath rundir dst src w) (Inr (), w) tbl"
proof (intro conjI impI)
  assume "rundir = resolve_path w (cwd w) \<and> resolve w fsrc = resolve w fdst"
  with assms show "link_one model modelpath rundir dst src w = (Inr (), w)"
    by (simp add: link_one_def)
next
  assume no: "\<not> (rundir = resolve_path w (cwd w) \<and> resolve w fsrc = resolve w fdst)"
  with assms show eq: "link_one model modelpath rundir dst src w
              = symlinkf (path_str (resolve w fsrc)) (pjoin rundir fdst) w"
    by (auto simp: link_one_def)
  show "symlinked (trace (snd (link_one model modelpath rundir dst src w)))
              = symlinked (trace w) @ [(path_str (resolve w fsrc), pjoin rundir fdst)]"
    by (simp add: eq symlinkf_trace)
  assume free: "node_at (nodes w) (pjoin rundir fdst) \<noteq> Some Dir
                 \<and> is_dir w (butlast (pjoin rundir fdst))"
  then show ok: "fst (link_one model modelpath rundir dst src w) = Inr ()"
    by (simp add: eq symlinkf_ok)
  obtain w' where "symlinkf (path_str (resolve w fsrc)) (pjoin rundir fdst) w = (Inr (), w')"
    using ok eq by (metis prod.collapse)
  then show "map_of (nodes (snd (link_one model modelpath rundir dst src w))) (pjoin rundir fdst)
                     = Some (Link (path_str (resolve w fsrc)))"
    by (simp add: eq symlinkf_world(5))
next
  show "link_all model modelpath rundir tbl w
           = foldl (\<lambda>(r, w) (dst, src). case r of Inl e \<Rightarrow> (Inl e, w)
                      | Inr u \<Rightarrow> link_one model modelpath rundir dst src w) (Inr (), w) tbl"
    by (rule link_all_foldl)
qed

text \<open>
  C8 at concrete inputs, run in place in \<open>/w\<close>: the entry that links \<open>fort.55\<close> under
  the name \<open>fort.19\<close> replaces the file \<open>/w/fort.19\<close> by a link; the default entry for
  \<open>fort.19\<close> is left alone.
\<close>

lemma C8_facts:
  "resolve_path w_stale (cwd w_stale) = [''w'']"
  "resolve w_stale ''fort.55'' = [''w'', ''fort.55'']"
  "resolve w_stale ''fort.19'' = [''w'', ''fort.19'']"
  "node_at (nodes w_stale) [''w'', ''fort.19''] = Some (File ''linelist'')"
  "is_dir w_stale [''w'']"
  "path_str [''w'', ''fort.55''] = ''/w/fort.55''"
  "pjoin [''w''] ''fort.19'' = [''w'', ''fort.19'']"
  by code_simp+

theorem C8_staging_round_witness:
  "node_at (nodes w_stale) [''w'', ''fort.19''] = Some (File ''linelist'')
   \<and> fst (link_one ''m'' [''w'', ''m''] [''w''] ''fort.19'' ''fort.55'' w_stale) = Inr ()
   \<and> map_of (nodes (snd (link_one ''m'' [''w'', ''m''] [''w''] ''fort.19'' ''fort.55'' w_stale)))
        [''w'', ''fort.19''] = Some (Link ''/w/fort.55'')
   \<and> link_one ''m'' [''w'', ''m''] [''w''] ''fort.19'' ''fort.19'' w_stale = (Inr (), w_stale)"
  using C8_staging_round [OF format_fort_55 format_fort_19, where model="''m''" and modelpath="[''w'', ''m'']"
      and rundir="[''w'']" and w=w_stale and tbl="[]"]
    C8_staging_round [OF format_fort_19 format_fort_19, where model="''m''" and modelpath="[''w'', ''m'']"
      and rundir="[''w'']" and w=w_stale and tbl="[]"]
    C8_facts
  by auto

subsection \<open>The link table\<close>

text \<open>
  Claim C9. A new instance holds exactly the four default entries: \<open>fort.19\<close> and
  \<open>fort.55\<close> from themselves, \<open>{model}.5\<close> and \<open>{model}.7\<close> from the templates
  \<open>{modelpath}.5\<close> and \<open>{modelpath}.7\<close>, which name the model's own files once the
  model is filled in. After \<open>add_link linkfrom linkto\<close> the table maps the destination
  (\<open>linkfrom\<close> itself when \<open>linkto\<close> is omitted) to \<open>linkfrom\<close>, whatever it held
  there before, and every other key is as it was.
\<close>

theorem C9_link_table:
  "(Synspec_init sp 51 = Inr s \<longrightarrow>
      linkfiles s = [(''fort.19'', ''fort.19''), (''fort.55'', ''fort.55''),
                     (''{model}.5'', ''{modelpath}.5''), (''{model}.7'', ''{modelpath}.7'')]
      \<and> map (\<lambda>(d, f). (format_str (fmt_kw m mp) d, format_str (fmt_kw m mp) f)) (linkfiles s)
          = [(Inr ''fort.19'', Inr ''fort.19''), (Inr ''fort.55'', Inr ''fort.55''),
             (Inr (m @ ''.5''), Inr (path_str mp @ ''.5'')),
             (Inr (m @ ''.7''), Inr (path_str mp @ ''.7''))])
   \<and> map_of (linkfiles (add_link linkfrom linkto t)) k
       = (if k = (case linkto of None \<Rightarrow> linkfrom | Some d \<Rightarrow> d) then Some linkfrom
          else map_of (linkfiles t) k)"
proof -
  have defaults: "Synspec_init sp 51 = Inr s \<Longrightarrow>
      linkfiles s = [(''fort.19'', ''fort.19''), (''fort.55'', ''fort.55''),
                     (''{model}.5'', ''{modelpath}.5''), (''{model}.7'', ''{modelpath}.7'')]"
    by (auto simp: Synspec_init_def)
  have filled: "map (\<lambda>(d, f). (format_str (fmt_kw m mp) d, format_str (fmt_kw m mp) f))
        [(''fort.19'', ''fort.19''), (''fort.55'', ''fort.55''),
         (''{model}.5'', ''{modelpath}.5''), (''{model}.7'', ''{modelpath}.7'')]
      = [(Inr ''fort.19'', Inr ''fort.19''), (Inr ''fort.55'', Inr ''fort.55''),
         (Inr (m @ ''.5''), Inr (path_str mp @ ''.5'')),
         (Inr (m @ ''.7''), Inr (path_str mp @ ''.7''))]"
    by (simp only: list.map prod.case format_model_5 format_model_7 format_modelpath_5
          format_modelpath_7 format_fort_19 format_fort_55)
  have override: "map_of (linkfiles (add_link linkfrom linkto t)) k
       = (if k = (case linkto of None \<Rightarrow> linkfrom | Some d \<Rightarrow> d) then Some linkfrom
          else map_of (linkfiles t) k)"
    by (simp add: add_link_def Let_def update_conv' split: option.splits)
  from defaults filled override show ?thesis by simp
qed

text \<open>
  C9 at a concrete input: a new instance for version 51, with \<open>linelist\<close> then linked
  under the name \<open>fort.19\<close>, as the test \<^verbatim>\<open>test_synspec_redirect_files\<close> does.
\<close>

lemma Synspec_init_fresh: "Synspec_init ''synspec'' 51 = Inr fresh"
  by (simp add: Synspec_init_def fresh_def)

theorem C9_link_table_witness:
  "Synspec_init ''synspec'' 51 = Inr fresh
   \<and> length (linkfiles fresh) = 4
   \<and> map_of (linkfiles (add_link ''linelist'' (Some ''fort.19'') fresh)) ''fort.19'' = Some ''linelist''
   \<and> map_of (linkfiles (add_link ''data'' None fresh)) ''data'' = Some ''data''
   \<and> map_of (linkfiles (add_link ''data'' None fresh)) ''fort.19'' = Some ''fort.19''"
  using C9_link_table [of "''synspec''" fresh "''m''" "[''w'', ''m'']" "''linelist''" "Some ''fort.19''" fresh "''fort.19''"]
        C9_link_table [of "''synspec''" fresh "''m''" "[''w'', ''m'']" "''data''" None fresh "''data''"]
        C9_link_table [of "''synspec''" fresh "''m''" "[''w'', ''m'']" "''data''" None fresh "''fort.19''"]
  by (simp add: Synspec_init_fresh)

subsection \<open>The link table after a run\<close>

text \<open>
  Claim C10. What \<^verbatim>\<open>run\<close> leaves in the instance is what the body of its \<^verbatim>\<open>with\<close>
  statement leaves, in a given run directory and in a temporary one; where \<^verbatim>\<open>run\<close>
  fails before the body (the run directory cannot be made, the lock is held, the
  temporary directory cannot be made) the instance is as it was. The body leaves the
  instance with the table that \<^verbatim>\<open>_copy_to_rundir\<close> returns when it is called on the
  table of the instance in the state after the cleanup, whatever the later phases do.
  Where the input descriptor was decoded, that table holds every candidate that exists in
  the working directory, mapped to itself unless it was a key before, and it holds
  \<open>fort.56\<close>, mapped to itself unless it was a key before, where the run configuration
  has \<open>ichemc\<close> non-zero and \<open>fort.56\<close> is a regular file there. Every \<^verbatim>\<open>run\<close> leaves
  \<open>version\<close> and \<open>synspec\<close> alone, keeps every entry of the table, and adds only entries
  from a name to itself. Stated for any instance, this holds for the next call on the
  instance that an earlier call has left.
\<close>

theorem C10_table_persists:
  "(let dir = resolve w d; w1 = snd (mkdir dir w)
    in fst (snd (run ev s model (Some d) outdir outfile w))
         = (if fst (mkdir dir w) = Inr () \<and> (dir, ''synspec.lock'') \<notin> set (locks w1)
            then fst (snd (run_body ev s (path_name (resolve w model)) (resolve w model) dir
                   (case outdir of None \<Rightarrow> resolve_path w1 dir | Some od \<Rightarrow> resolve w1 od)
                   (case outfile of None \<Rightarrow> path_name (resolve w model) | Some f \<Rightarrow> f)
                   ((log (LockAcquire dir ''synspec.lock'') w1)
                      \<lparr>locks := (dir, ''synspec.lock'') # locks w1\<rparr>)))
            else s))
   \<and> (let tmp = mkdtemp ev (nodes w);
           w2 = (log (Mkdtemp tmp) w)\<lparr>nodes := AList.update tmp Dir (nodes w)\<rparr>
       in fst (snd (run ev s model None outdir outfile w))
            = (if node_at (nodes w) tmp = None \<and> is_dir w (butlast tmp)
               then fst (snd (run_body ev s (path_name (resolve w model)) (resolve w model)
                      (resolve_path w2 tmp)
                      (case outdir of None \<Rightarrow> resolve_path w (cwd w) | Some od \<Rightarrow> resolve w od)
                      (case outfile of None \<Rightarrow> path_name (resolve w model) | Some f \<Rightarrow> f)
                      w2))
               else s))
   \<and> (let uc = snd (remove_potential_outfiles m od ofile u);
           sb = fst (snd (run_body ev s m mp rd od ofile u))
       in sb = s\<lparr>linkfiles := fst (snd (copy_to_rundir ev (linkfiles s) m mp rd uc))\<rparr>
          \<and> (map_of (linkfiles s) ''{model}.5'' = Some t
               \<and> format_str (fmt_kw m mp) t = Inr inputfile
               \<and> open_read (pjoin (cwd uc) inputfile) uc = (Inr inp, u1)
               \<and> readinput ev inp = Inr mi
             \<longrightarrow> linkfiles sb
                   = fst (snd (detect_fort56 ev m
                                 (add_discovered uc (dep_names (collect_reqs mi)) (linkfiles s)) u1))
                 \<and> (\<forall>c \<in> set (dep_names (collect_reqs mi)).
                       exists uc (pjoin (cwd uc) c) \<longrightarrow>
                         c \<in> fst ` set (linkfiles sb)
                         \<and> (c \<notin> fst ` set (linkfiles s) \<longrightarrow> map_of (linkfiles sb) c = Some c))
                 \<and> (map_of (linkfiles s) ''fort.55'' = Some t55
                      \<and> format_str [(''model'', m)] t55 = Inr cf
                      \<and> call_read55f ev cf u1 = (Inr cfg, u2)
                      \<and> ichemc cfg \<noteq> 0
                      \<and> is_file u2 (pjoin (cwd u2) ''fort.56'')
                    \<longrightarrow> ''fort.56'' \<in> fst ` set (linkfiles sb)
                        \<and> (''fort.56'' \<notin> fst ` set (linkfiles s)
                             \<longrightarrow> map_of (linkfiles sb) ''fort.56'' = Some ''fort.56''))))
   \<and> (run ev s model rundir outdir outfile w = (r, s', w') \<longrightarrow>
        version s' = version s \<and> synspec s' = synspec s
        \<and> (\<forall>k v. map_of (linkfiles s) k = Some v \<longrightarrow> map_of (linkfiles s') k = Some v)
        \<and> (\<forall>k v. map_of (linkfiles s') k = Some v \<longrightarrow> map_of (linkfiles s) k = Some v \<or> v = k))"
proof (intro conjI)
  show "(let dir = resolve w d; w1 = snd (mkdir dir w)
    in fst (snd (run ev s model (Some d) outdir outfile w))
         = (if fst (mkdir dir w) = Inr () \<and> (dir, ''synspec.lock'') \<notin> set (locks w1)
            then fst (snd (run_body ev s (path_name (resolve w model)) (resolve w model) dir
                   (case outdir of None \<Rightarrow> resolve_path w1 dir | Some od \<Rightarrow> resolve w1 od)
                   (case outfile of None \<Rightarrow> path_name (resolve w model) | Some f \<Rightarrow> f)
                   ((log (LockAcquire dir ''synspec.lock'') w1)
                      \<lparr>locks := (dir, ''synspec.lock'') # locks w1\<rparr>)))
            else s))"
    unfolding Let_def by (rule run_in_rundir_stores)
  show "(let tmp = mkdtemp ev (nodes w);
           w2 = (log (Mkdtemp tmp) w)\<lparr>nodes := AList.update tmp Dir (nodes w)\<rparr>
       in fst (snd (run ev s model None outdir outfile w))
            = (if node_at (nodes w) tmp = None \<and> is_dir w (butlast tmp)
               then fst (snd (run_body ev s (path_name (resolve w model)) (resolve w model)
                      (resolve_path w2 tmp)
                      (case outdir of None \<Rightarrow> resolve_path w (cwd w) | Some od \<Rightarrow> resolve w od)
                      (case outfile of None \<Rightarrow> path_name (resolve w model) | Some f \<Rightarrow> f)
                      w2))
               else s))"
    unfolding Let_def by (rule run_in_tempdir_stores)
  show "let uc = snd (remove_potential_outfiles m od ofile u);
           sb = fst (snd (run_body ev s m mp rd od ofile u))
       in sb = s\<lparr>linkfiles := fst (snd (copy_to_rundir ev (linkfiles s) m mp rd uc))\<rparr>
          \<and> (map_of (linkfiles s) ''{model}.5'' = Some t
               \<and> format_str (fmt_kw m mp) t = Inr inputfile
               \<and> open_read (pjoin (cwd uc) inputfile) uc = (Inr inp, u1)
               \<and> readinput ev inp = Inr mi
             \<longrightarrow> linkfiles sb
                   = fst (snd (detect_fort56 ev m
                                 (add_discovered uc (dep_names (collect_reqs mi)) (linkfiles s)) u1))
                 \<and> (\<forall>c \<in> set (dep_names (collect_reqs mi)).
                       exists uc (pjoin (cwd uc) c) \<longrightarrow>
                         c \<in> fst ` set (linkfiles sb)
                         \<and> (c \<notin> fst ` set (linkfiles s) \<longrightarrow> map_of (linkfiles sb) c = Some c))
                 \<and> (map_of (linkfiles s) ''fort.55'' = Some t55
                      \<and> format_str [(''model'', m)] t55 = Inr cf
                      \<and> call_read55f ev cf u1 = (Inr cfg, u2)
                      \<and> ichemc cfg \<noteq> 0
                      \<and> is_file u2 (pjoin (cwd u2) ''fort.56'')
                    \<longrightarrow> ''fort.56'' \<in> fst ` set (linkfiles sb)
                        \<and> (''fort.56'' \<notin> fst ` set (linkfiles s)
                             \<longrightarrow> map_of (linkfiles sb) ''fort.56'' = Some ''fort.56'')))"
    unfolding Let_def
  proof (intro conjI impI)
    let ?uc = "snd (remove_potential_outfiles m od ofile u)"
    let ?sb = "fst (snd (run_body ev s m mp rd od ofile u))"
    let ?tbl = "linkfiles s"
    show st: "?sb = s\<lparr>linkfiles := fst (snd (copy_to_rundir ev ?tbl m mp rd ?uc))\<rparr>"
      by (rule run_body_stores)
    assume a: "map_of ?tbl ''{model}.5'' = Some t
               \<and> format_str (fmt_kw m mp) t = Inr inputfile
               \<and> open_read (pjoin (cwd ?uc) inputfile) ?uc = (Inr inp, u1)
               \<and> readinput ev inp = Inr mi"
    let ?cands = "dep_names (collect_reqs mi)"
    let ?d = "detect_fort56 ev m (add_discovered ?uc ?cands ?tbl) u1"
    from a have "fst (snd (copy_to_rundir ev ?tbl m mp rd ?uc)) = fst (snd ?d)"
      by (intro staged_table [where t=t and inputfile=inputfile and inp=inp]) simp_all
    with st have "?sb = s\<lparr>linkfiles := fst (snd ?d)\<rparr>" by simp
    then have "linkfiles ?sb = linkfiles (s\<lparr>linkfiles := fst (snd ?d)\<rparr>)" by (rule arg_cong)
    then show tb: "linkfiles ?sb = fst (snd ?d)" by simp
    have d: "?d = (fst ?d, linkfiles ?sb, snd (snd ?d))" by (simp add: tb)
    show "\<forall>c \<in> set ?cands.
                       exists ?uc (pjoin (cwd ?uc) c) \<longrightarrow>
                         c \<in> fst ` set (linkfiles ?sb)
                         \<and> (c \<notin> fst ` set ?tbl \<longrightarrow> map_of (linkfiles ?sb) c = Some c)"
      using staged_candidate [OF d] by blast
    assume f: "map_of ?tbl ''fort.55'' = Some t55
                      \<and> format_str [(''model'', m)] t55 = Inr cf
                      \<and> call_read55f ev cf u1 = (Inr cfg, u2)
                      \<and> ichemc cfg \<noteq> 0
                      \<and> is_file u2 (pjoin (cwd u2) ''fort.56'')"
    then have both: "''fort.56'' \<in> fst ` set (linkfiles ?sb)
        \<and> (''fort.56'' \<notin> fst ` set ?tbl \<longrightarrow> map_of (linkfiles ?sb) ''fort.56'' = Some ''fort.56'')"
      by (intro staged_fort56 [where ?t55.0=t55 and cf=cf and cfg=cfg and ?u2.0=u2 and ?u1.0=u1
            and ev=ev and m=m and u="?uc" and cands="?cands"] tb) simp_all
    from both show "''fort.56'' \<in> fst ` set (linkfiles ?sb)" by simp
    assume "''fort.56'' \<notin> fst ` set ?tbl"
    with both show "map_of (linkfiles ?sb) ''fort.56'' = Some ''fort.56''" by simp
  qed
  show "run ev s model rundir outdir outfile w = (r, s', w') \<longrightarrow>
        version s' = version s \<and> synspec s' = synspec s
        \<and> (\<forall>k v. map_of (linkfiles s) k = Some v \<longrightarrow> map_of (linkfiles s') k = Some v)
        \<and> (\<forall>k v. map_of (linkfiles s') k = Some v \<longrightarrow> map_of (linkfiles s) k = Some v \<or> v = k)"
  proof
    assume run: "run ev s model rundir outdir outfile w = (r, s', w')"
    from run_enters_body [OF run]
    have "(linkfiles s' = linkfiles s
          \<or> (\<exists>rd v r1 v'. copy_to_rundir ev (linkfiles s) (path_name (resolve w model))
                             (resolve w model) rd v = (r1, linkfiles s', v')))
          \<and> version s' = version s \<and> synspec s' = synspec s"
    proof (elim disjE exE)
      assume "s' = s"
      then show ?thesis by simp
    next
      fix rd od ofile v v'
      assume "run_body ev s (path_name (resolve w model)) (resolve w model) rd od ofile v = (r, s', v')"
      from run_body_table [OF this] obtain w1 r2 w2 where
        c: "copy_to_rundir ev (linkfiles s) (path_name (resolve w model)) (resolve w model) rd w1
              = (r2, linkfiles s', w2)"
        and s': "s' = s\<lparr>linkfiles := linkfiles s'\<rparr>"
        by blast
      from s' have "version s' = version s" "synspec s' = synspec s"
        by (metis Synspec.select_convs(1) Synspec.surjective Synspec.update_convs(3),
            metis Synspec.select_convs(2) Synspec.surjective Synspec.update_convs(3))
      with c show ?thesis by blast
    qed
    then show "version s' = version s \<and> synspec s' = synspec s
        \<and> (\<forall>k v. map_of (linkfiles s) k = Some v \<longrightarrow> map_of (linkfiles s') k = Some v)
        \<and> (\<forall>k v. map_of (linkfiles s') k = Some v \<longrightarrow> map_of (linkfiles s) k = Some v \<or> v = k)"
      by (auto dest: copy_to_rundir_grows)
  qed
qed

text \<open>
  C10 at concrete inputs. The working directory has \<open>data\<close> and \<open>fort.56\<close>, the ions of
  the descriptor read from \<open>data\<close>, the configuration has \<open>ichemc = 1\<close>. The new instance
  has neither name in its table; after the first run in place it has both, mapped to
  themselves; a second run on that instance still has them.
\<close>

lemma C10_facts_entry:
  "resolve w_both ''.'' = [''w'']"
  "fst (mkdir [''w''] w_both) = Inr ()"
  "([''w''], ''synspec.lock'') \<notin> set (locks (snd (mkdir [''w''] w_both)))"
  "resolve w_both ''m'' = [''w'', ''m'']"
  "path_name [''w'', ''m''] = ''m''"
  "resolve_path (snd (mkdir [''w''] w_both)) [''w''] = [''w'']"
  by code_simp+

lemma C10_facts_staging:
  "map_of (linkfiles fresh) ''{model}.5'' = Some ''{modelpath}.5''"
  "path_str [''w'', ''m''] = ''/w/m''"
  "fst (open_read (pjoin (cwd w_cleaned) ''/w/m.5'') w_cleaned) = Inr ''input''"
  "readinput env_both ''input''
     = Inr \<lparr>finstd = Some [],
            ions = Some [\<lparr>filei = ''data/h1.dat''\<rparr>, \<lparr>filei = ''./data/he1.dat''\<rparr>,
                         \<lparr>filei = ''nst_l/c.dat''\<rparr>, \<lparr>filei = ''/opt/atoms/n.dat''\<rparr>]\<rparr>"
  "''data'' \<in> set (dep_names (collect_reqs \<lparr>finstd = Some [],
            ions = Some [\<lparr>filei = ''data/h1.dat''\<rparr>, \<lparr>filei = ''./data/he1.dat''\<rparr>,
                         \<lparr>filei = ''nst_l/c.dat''\<rparr>, \<lparr>filei = ''/opt/atoms/n.dat''\<rparr>]\<rparr>))"
  "exists w_cleaned (pjoin (cwd w_cleaned) ''data'')"
  "''data'' \<notin> fst ` set (linkfiles fresh)"
  by code_simp+

lemma C10_facts_config:
  "map_of (linkfiles fresh) ''fort.55'' = Some ''fort.55''"
  "format_str [(''model'', ''m'')] ''fort.55'' = Inr ''fort.55''"
  "fst (call_read55f env_both ''fort.55''
          (snd (open_read (pjoin (cwd w_cleaned) ''/w/m.5'') w_cleaned))) = Inr \<lparr>ichemc = 1\<rparr>"
  "is_file (snd (call_read55f env_both ''fort.55''
                   (snd (open_read (pjoin (cwd w_cleaned) ''/w/m.5'') w_cleaned))))
     (pjoin (cwd (snd (call_read55f env_both ''fort.55''
                         (snd (open_read (pjoin (cwd w_cleaned) ''/w/m.5'') w_cleaned))))) ''fort.56'')"
  "''fort.56'' \<notin> fst ` set (linkfiles fresh)"
  "map_of (linkfiles fresh) ''data'' = None"
  "map_of (linkfiles fresh) ''fort.56'' = None"
  "version fresh = 51"
  by code_simp+

theorem C10_table_persists_witness:
  "map_of (linkfiles fresh) ''data'' = None
   \<and> map_of (linkfiles fresh) ''fort.56'' = None
   \<and> map_of (linkfiles after_first) ''data'' = Some ''data''
   \<and> map_of (linkfiles after_first) ''fort.56'' = Some ''fort.56''
   \<and> version after_first = 51
   \<and> map_of (linkfiles (fst (snd (run env_both after_first ''m'' (Some ''.'') None None w_after_first))))
        ''data'' = Some ''data''
   \<and> map_of (linkfiles (fst (snd (run env_both after_first ''m'' (Some ''.'') None None w_after_first))))
        ''fort.56'' = Some ''fort.56''
   \<and> version (fst (snd (run env_both after_first ''m'' (Some ''.'') None None w_after_first))) = 51"
proof -
  let ?mi = "\<lparr>finstd = Some [],
            ions = Some [\<lparr>filei = ''data/h1.dat''\<rparr>, \<lparr>filei = ''./data/he1.dat''\<rparr>,
                         \<lparr>filei = ''nst_l/c.dat''\<rparr>, \<lparr>filei = ''/opt/atoms/n.dat''\<rparr>]\<rparr>"
  let ?u1 = "snd (open_read (pjoin (cwd w_cleaned) ''/w/m.5'') w_cleaned)"
  let ?u2 = "snd (call_read55f env_both ''fort.55'' ?u1)"
  let ?body = "fst (snd (run_body env_both fresh ''m'' [''w'', ''m''] [''w''] [''w''] ''m'' w_entered))"
  have entry: "after_first = ?body"
    using C10_table_persists [where ev = env_both and s = fresh and model = "''m''"
        and d = "''.''" and outdir = None and outfile = None and w = w_both, THEN conjunct1]
    by (simp add: Let_def after_first_def C10_facts_entry w_entered_def)
  have f: "format_str (fmt_kw ''m'' [''w'', ''m'']) ''{modelpath}.5'' = Inr ''/w/m.5''"
    by (simp add: format_modelpath_5 C10_facts_staging(2))
  have o: "open_read (pjoin (cwd w_cleaned) ''/w/m.5'') w_cleaned = (Inr ''input'', ?u1)"
    using C10_facts_staging(3) by (simp add: prod_eq_iff)
  have c: "call_read55f env_both ''fort.55'' ?u1 = (Inr \<lparr>ichemc = 1\<rparr>, ?u2)"
    using C10_facts_config(3) by (simp add: prod_eq_iff)
  have i: "ichemc \<lparr>ichemc = 1\<rparr> \<noteq> 0" by simp
  note body = C10_table_persists [where ev = env_both and s = fresh and m = "''m''" and mp = "[''w'', ''m'']" and rd = "[''w'']"
        and od = "[''w'']" and ofile = "''m''" and u = w_entered and t = "''{modelpath}.5''"
        and inputfile = "''/w/m.5''" and inp = "''input''" and ?u1.0 = ?u1 and mi = ?mi
        and ?t55.0 = "''fort.55''" and cf = "''fort.55''" and cfg = "\<lparr>ichemc = 1\<rparr>" and ?u2.0 = ?u2,
      THEN conjunct2, THEN conjunct2, THEN conjunct1, unfolded Let_def, folded w_cleaned_def]
  from body C10_facts_staging(1,4,5,6,7) f o
  have data: "map_of (linkfiles ?body) ''data'' = Some ''data''" by blast
  from body C10_facts_staging(1,4) C10_facts_config(1,2,4,5) f o c i
  have f56: "map_of (linkfiles ?body) ''fort.56'' = Some ''fort.56''" by blast
  from body have "?body = fresh\<lparr>linkfiles := linkfiles ?body\<rparr>" by simp
  then have "version ?body = version (fresh\<lparr>linkfiles := linkfiles ?body\<rparr>)" by (rule arg_cong)
  with C10_facts_config(8) have v: "version ?body = 51" by simp
  have r: "run env_both after_first ''m'' (Some ''.'') None None w_after_first
      = (fst (run env_both after_first ''m'' (Some ''.'') None None w_after_first),
         fst (snd (run env_both after_first ''m'' (Some ''.'') None None w_after_first)),
         snd (snd (run env_both after_first ''m'' (Some ''.'') None None w_after_first)))"
    by simp
  from C10_table_persists [where ev = env_both and s = after_first and model = "''m''"
      and rundir = "Some ''.''" and outdir = None and outfile = None and w = w_after_first
      and r = "fst (run env_both after_first ''m'' (Some ''.'') None None w_after_first)"
      and s' = "fst (snd (run env_both after_first ''m'' (Some ''.'') None None w_after_first))"
      and w' = "snd (snd (run env_both after_first ''m'' (Some ''.'') None None w_after_first))",
      THEN conjunct2, THEN conjunct2, THEN conjunct2]
    r data f56 v entry
  have second: "map_of (linkfiles (fst (snd (run env_both after_first ''m'' (Some ''.'') None None w_after_first))))
        ''data'' = Some ''data''
   \<and> map_of (linkfiles (fst (snd (run env_both after_first ''m'' (Some ''.'') None None w_after_first))))
        ''fort.56'' = Some ''fort.56''
   \<and> version (fst (snd (run env_both after_first ''m'' (Some ''.'') None None w_after_first))) = 51"
    by auto
  from data f56 v entry second C10_facts_config(6,7) show ?thesis by simp
qed


end
